(* ===== verification/Prelude.thy ===== *)
theory Prelude
  imports Main "HOL-Library.List_Lexorder" "HOL-Library.Multiset"
begin

text \<open>
  Shared vocabulary of the development: the failure monad every fallible routine of the
  repository is translated to (\<open>Inl\<close> is a raised exception, \<open>Inr\<close> a returned value), the
  loops over lists that stop at the first exception, and the list facts several components use.
\<close>

named_theorems exc_simps \<open>rewriting of fallible computations\<close>

section \<open>Computations that may raise\<close>

definition ebind :: "'e + 'a \<Rightarrow> ('a \<Rightarrow> 'e + 'b) \<Rightarrow> 'e + 'b" where
  "ebind m f = (case m of Inl e \<Rightarrow> Inl e | Inr x \<Rightarrow> f x)"

definition require :: "bool \<Rightarrow> 'e \<Rightarrow> 'e + unit" where
  "require c e = (if c then Inr () else Inl e)"

definition of_option :: "'e \<Rightarrow> 'a option \<Rightarrow> 'e + 'a" where
  "of_option e x = (case x of None \<Rightarrow> Inl e | Some y \<Rightarrow> Inr y)"

definition succeeds :: "'e + 'a \<Rightarrow> bool" where
  "succeeds m = (case m of Inl _ \<Rightarrow> False | Inr _ \<Rightarrow> True)"

lemma ebind_Inl [simp]: "ebind (Inl e) f = Inl e"
  by (simp add: ebind_def)

lemma ebind_Inr [simp]: "ebind (Inr x) f = f x"
  by (simp add: ebind_def)

lemma ebind_eq_Inr [exc_simps]: "ebind m f = Inr y \<longleftrightarrow> (\<exists>x. m = Inr x \<and> f x = Inr y)"
  by (cases m) auto

lemma ebind_eq_Inl [exc_simps]:
  "ebind m f = Inl e \<longleftrightarrow> m = Inl e \<or> (\<exists>x. m = Inr x \<and> f x = Inl e)"
  by (cases m) auto

text \<open>Elimination rules: they name the value before a following case split looks at it.\<close>

lemma ebind_InrE:
  assumes "ebind m f = Inr y"
  obtains x where "m = Inr x" and "f x = Inr y"
  using assms by (cases m) auto

lemma ebind_InlE:
  assumes "ebind m f = Inl e"
  obtains "m = Inl e" | x where "m = Inr x" and "f x = Inl e"
  using assms by (cases m) auto

lemma ebind_assoc: "ebind (ebind m f) g = ebind m (\<lambda>x. ebind (f x) g)"
  by (cases m) auto

lemma ebind_cong [fundef_cong]:
  "m = m' \<Longrightarrow> (\<And>x. m' = Inr x \<Longrightarrow> f x = g x) \<Longrightarrow> ebind m f = ebind m' g"
  by (cases m') auto

lemma require_eq_Inr [exc_simps]: "require c e = Inr u \<longleftrightarrow> c"
  by (auto simp: require_def)

lemma require_eq_Inl [exc_simps]: "require c e = Inl e' \<longleftrightarrow> \<not> c \<and> e' = e"
  by (auto simp: require_def)

lemma require_True [simp]: "require True e = Inr ()"
  by (simp add: require_def)

lemma require_False [simp]: "require False e = Inl e"
  by (simp add: require_def)

lemma of_option_eq_Inr [exc_simps]: "of_option e x = Inr y \<longleftrightarrow> x = Some y"
  by (cases x) (auto simp: of_option_def)

lemma of_option_eq_Inl [exc_simps]: "of_option e x = Inl e' \<longleftrightarrow> x = None \<and> e' = e"
  by (cases x) (auto simp: of_option_def)

lemma of_option_simps [simp]:
  "of_option e None = Inl e"
  "of_option e (Some y) = Inr y"
  by (simp_all add: of_option_def)

lemma succeeds_simps [simp]:
  "\<not> succeeds (Inl e)"
  "succeeds (Inr x)"
  by (simp_all add: succeeds_def)

lemma succeeds_iff: "succeeds m \<longleftrightarrow> (\<exists>x. m = Inr x)"
  by (cases m) auto

section \<open>Loops that stop at the first exception\<close>

fun emap :: "('a \<Rightarrow> 'e + 'b) \<Rightarrow> 'a list \<Rightarrow> 'e + 'b list" where
  "emap f [] = Inr []"
| "emap f (x # xs) = ebind (f x) (\<lambda>y. ebind (emap f xs) (\<lambda>ys. Inr (y # ys)))"

fun eall :: "('a \<Rightarrow> 'e + unit) \<Rightarrow> 'a list \<Rightarrow> 'e + unit" where
  "eall f [] = Inr ()"
| "eall f (x # xs) = ebind (f x) (\<lambda>_. eall f xs)"

lemma eall_eq_Inr [exc_simps]: "eall f xs = Inr u \<longleftrightarrow> (\<forall>x \<in> set xs. f x = Inr ())"
  by (induction xs) (auto simp: exc_simps)

lemma eall_eq_Inl: "eall f xs = Inl e \<Longrightarrow> \<exists>x \<in> set xs. f x = Inl e"
  by (induction xs) (auto simp: exc_simps)

lemma emap_eq_Inr: "emap f xs = Inr ys \<longleftrightarrow> list_all2 (\<lambda>x y. f x = Inr y) xs ys"
proof (induction xs arbitrary: ys)
  case Nil
  then show ?case by auto
next
  case (Cons x xs)
  then show ?case by (cases ys) (auto simp: exc_simps)
qed

lemma emap_length: "emap f xs = Inr ys \<Longrightarrow> length ys = length xs"
  by (auto simp: emap_eq_Inr dest: list_all2_lengthD)

lemma emap_Inr_map: "(\<And>x. x \<in> set xs \<Longrightarrow> f x = Inr (g x)) \<Longrightarrow> emap f xs = Inr (map g xs)"
  by (induction xs) auto

section \<open>The outcome of a computation without its error\<close>

text \<open>
  Two computations that differ only in what they raise (which row, which field) have the same
  \<open>outcome\<close>.
\<close>

definition outcome :: "'e + 'a \<Rightarrow> 'a option" where
  "outcome m = (case m of Inl _ \<Rightarrow> None | Inr x \<Rightarrow> Some x)"

named_theorems outcome_simps \<open>outcomes of fallible computations\<close>

lemma outcome_Inl [simp, outcome_simps]: "outcome (Inl e) = None"
  by (simp add: outcome_def)

lemma outcome_Inr [simp, outcome_simps]: "outcome (Inr x) = Some x"
  by (simp add: outcome_def)

lemma outcome_eq_Some: "outcome m = Some x \<longleftrightarrow> m = Inr x"
  by (cases m) auto

lemma outcome_eqI: "(\<And>x. m = Inr x \<longleftrightarrow> n = Inr x) \<Longrightarrow> outcome m = outcome n"
  by (cases m; cases n) auto

lemma outcome_cong_Inr: "outcome m = outcome n \<Longrightarrow> m = Inr x \<longleftrightarrow> n = Inr x"
  by (metis outcome_eq_Some)

lemma outcome_ebind_cong:
  "outcome m = outcome n \<Longrightarrow> (\<And>x. n = Inr x \<Longrightarrow> outcome (f x) = outcome (g x))
     \<Longrightarrow> outcome (ebind m f) = outcome (ebind n g)"
  by (cases m; cases n) auto

lemma outcome_ebind [outcome_simps]:
  "outcome (ebind m f) = Option.bind (outcome m) (\<lambda>x. outcome (f x))"
  by (cases m) auto

lemma outcome_require [outcome_simps]: "outcome (require c e) = (if c then Some () else None)"
  by (simp add: require_def)

lemma outcome_of_option [outcome_simps]: "outcome (of_option e x) = x"
  by (cases x) auto

lemma outcome_if [outcome_simps]: "outcome (if c then m else n) = (if c then outcome m else outcome n)"
  by simp

lemma outcome_eall [outcome_simps]:
  "outcome (eall f xs) = (if \<forall>x \<in> set xs. outcome (f x) = Some () then Some () else None)"
proof (induction xs)
  case (Cons x xs)
  then show ?case by (cases "outcome (f x)") (auto simp: outcome_simps)
qed simp

lemma outcome_emap_cong:
  "(\<And>x. x \<in> set xs \<Longrightarrow> outcome (f x) = outcome (g x)) \<Longrightarrow> outcome (emap f xs) = outcome (emap g xs)"
  by (induction xs) (simp_all add: outcome_simps)

section \<open>Lists\<close>

definition contiguous_from_one :: "nat list \<Rightarrow> bool" where
  "contiguous_from_one ns \<longleftrightarrow> ns = [1..<length ns + 1]"

lemma contiguous_snoc:
  "contiguous_from_one (ns @ [n]) \<longleftrightarrow> contiguous_from_one ns \<and> n = length ns + 1"
  by (auto simp: contiguous_from_one_def)

lemma contiguous_Nil [simp]: "contiguous_from_one []"
  by (simp add: contiguous_from_one_def)

lemma contiguous_distinct: "contiguous_from_one ns \<Longrightarrow> distinct ns"
  by (metis contiguous_from_one_def distinct_upt)

lemma sort_key_mset_cong:
  assumes "mset xs = mset ys" and "distinct (map k xs)"
  shows "sort_key k xs = sort_key k ys"
proof (rule sym, rule properties_for_sort_key)
  show "mset (sort_key k xs) = mset ys"
    using assms(1) by simp
next
  show "sorted (map k (sort_key k xs))"
    by simp
next
  fix x
  assume "x \<in> set (sort_key k xs)"
  have inj: "inj_on k (set xs)"
    using assms(2) by (simp add: distinct_map)
  have dy: "distinct (map k ys)"
    using assms by (metis mset_eq_imp_distinct_iff mset_map)
  show "filter (\<lambda>y. k x = k y) (sort_key k xs) = filter (\<lambda>y. k x = k y) ys"
  proof -
    have x: "x \<in> set xs" using \<open>x \<in> set (sort_key k xs)\<close> by simp
    have eq: "\<And>zs. set zs = set xs \<Longrightarrow> filter (\<lambda>y. k x = k y) zs = filter ((=) x) zs"
      using inj x by (intro filter_cong) (auto simp: inj_on_def)
    have one: "\<And>zs. distinct zs \<Longrightarrow> x \<in> set zs \<Longrightarrow> filter ((=) x) zs = [x]"
    proof -
      fix zs :: "'a list"
      assume "distinct zs" "x \<in> set zs"
      then show "filter ((=) x) zs = [x]"
        by (induction zs) (auto simp: filter_empty_conv)
    qed
    have s: "set ys = set xs" using assms(1) by (metis set_mset_mset)
    have "distinct xs" "distinct ys"
      using assms(2) dy by (simp_all add: distinct_map)
    then show ?thesis
      using one [of "sort_key k xs"] one [of ys] eq [of "sort_key k xs"] eq [of ys] s x by simp
  qed
qed

lemma sort_mset_cong: "mset xs = mset ys \<Longrightarrow> sort xs = sort ys"
  by (metis properties_for_sort mset_sort sorted_sort)

lemma map_of_mset_cong:
  assumes "mset xs = mset ys" and "distinct (map fst xs)"
  shows "map_of xs = map_of ys"
  using assms by (metis mset_eq_imp_distinct_iff mset_eq_setD mset_map map_of_inject_set)


lemma sort_key_Nil_iff [simp]: "sort_key k xs = [] \<longleftrightarrow> xs = []"
  by (metis length_0_conv length_sort)

lemma remdups_const: "xs \<noteq> [] \<Longrightarrow> \<forall>x \<in> set xs. x = c \<Longrightarrow> remdups xs = [c]"
proof (induction xs)
  case (Cons x xs)
  then show ?case by (cases xs) auto
qed simp

lemma sum_list_bound: "\<forall>x \<in> set xs. f x \<le> (b :: nat) \<Longrightarrow> sum_list (map f xs) \<le> b * length xs"
  by (induction xs) auto

lemma mset_concat_map: "mset (concat (map f xs)) = \<Sum>\<^sub># (image_mset (\<lambda>x. mset (f x)) (mset xs))"
  by (induction xs) auto

lemma concat_map_mset_cong: "mset xs = mset ys \<Longrightarrow> mset (concat (map f xs)) = mset (concat (map f ys))"
  by (simp add: mset_concat_map)

lemma outcome_eq_None: "outcome m = None \<longleftrightarrow> (\<exists>e. m = Inl e)"
  by (cases m) auto

end
