(* ===== verification/Py_Text.thy ===== *)
theory Py_Text
  imports Prelude "HOL-Library.Word" "HOL-Library.Product_Lexorder"
begin

text \<open>
  Python text as the repository uses it. A \<open>str\<close> is its list of code points, compared
  lexicographically as Python compares strings; literals of the source are written
  \<open>lit ''...''\<close>. The regular expressions of the source are predicates on code points, written
  out with Python's meaning of \<open>\Z\<close> (end of text) and \<open>$\<close> (end of text or before
  one final newline). Calendar dates are triples (year, month, day).
\<close>

section \<open>Text\<close>

type_synonym pystr = "nat list"

definition lit :: "string \<Rightarrow> pystr" where
  "lit s = map of_char s"

lemma lit_inject [simp]: "lit s = lit t \<longleftrightarrow> s = t"
  unfolding lit_def by (rule inj_map_eq_map) (simp add: inj_def)

lemma lit_eq_Nil [simp]: "lit s = [] \<longleftrightarrow> s = []" "[] = lit s \<longleftrightarrow> s = []"
  by (auto simp: lit_def)

lemma length_lit [simp]: "length (lit s) = length s"
  by (simp add: lit_def)

lemma lit_append: "lit (s @ t) = lit s @ lit t"
  by (simp add: lit_def)

definition is_digit :: "nat \<Rightarrow> bool" where
  "is_digit c \<longleftrightarrow> 48 \<le> c \<and> c \<le> 57"

definition is_lower :: "nat \<Rightarrow> bool" where
  "is_lower c \<longleftrightarrow> 97 \<le> c \<and> c \<le> 122"

definition is_upper :: "nat \<Rightarrow> bool" where
  "is_upper c \<longleftrightarrow> 65 \<le> c \<and> c \<le> 90"

definition is_lower_hex :: "nat \<Rightarrow> bool" where
  "is_lower_hex c \<longleftrightarrow> is_digit c \<or> 97 \<le> c \<and> c \<le> 102"

definition all_digits :: "pystr \<Rightarrow> bool" where
  "all_digits s \<longleftrightarrow> list_all is_digit s"

text \<open>\<open>[0-9a-f]{64}\Z\<close>: a lowercase SHA-256 digest.\<close>

definition sha256_text :: "pystr \<Rightarrow> bool" where
  "sha256_text s \<longleftrightarrow> length s = 64 \<and> list_all is_lower_hex s"

text \<open>\<open>^[A-Z][A-Z0-9_]*$\<close>, matched to the end of the text as PostgreSQL matches it.\<close>

definition upper_code :: "pystr \<Rightarrow> bool" where
  "upper_code s \<longleftrightarrow> (case s of [] \<Rightarrow> False
     | c # cs \<Rightarrow> is_upper c \<and> list_all (\<lambda>d. is_upper d \<or> is_digit d \<or> d = 95) cs)"

text \<open>Python's \<open>$\<close>: the pattern may be followed by one newline.\<close>

definition dollar :: "(pystr \<Rightarrow> bool) \<Rightarrow> pystr \<Rightarrow> bool" where
  "dollar p s \<longleftrightarrow> p s \<or> s \<noteq> [] \<and> last s = 10 \<and> p (butlast s)"

text \<open>\<open>str.strip\<close> removes the code points for which \<open>str.isspace\<close> holds.\<close>

definition is_space :: "nat \<Rightarrow> bool" where
  "is_space c \<longleftrightarrow> 9 \<le> c \<and> c \<le> 13 \<or> 28 \<le> c \<and> c \<le> 32 \<or> c = 133 \<or> c = 160 \<or> c = 5760
     \<or> 8192 \<le> c \<and> c \<le> 8202 \<or> c = 8232 \<or> c = 8233 \<or> c = 8239 \<or> c = 8287 \<or> c = 12288"

definition strip :: "pystr \<Rightarrow> pystr" where
  "strip s = rev (dropWhile is_space (rev (dropWhile is_space s)))"

lemma strip_eq_self:
  "strip s = s \<longleftrightarrow> s = [] \<or> \<not> is_space (hd s) \<and> \<not> is_space (last s)"
proof (cases s)
  case Nil
  then show ?thesis by (simp add: strip_def)
next
  case (Cons c cs)
  show ?thesis
  proof (cases "is_space c")
    case True
    have "length (strip s) \<le> length (dropWhile is_space s)"
      using length_dropWhile_le [of is_space "rev (dropWhile is_space s)"] by (simp add: strip_def)
    also have "\<dots> \<le> length cs"
      using Cons True length_dropWhile_le [of is_space cs] by simp
    finally have "strip s \<noteq> s" using Cons by auto
    then show ?thesis using Cons True by simp
  next
    case False
    obtain d ds where r: "rev s = d # ds"
      using Cons by (cases "rev s") auto
    have l: "last s = d"
      using r by (metis hd_rev list.sel(1))
    show ?thesis
    proof (cases "is_space d")
      case True
      have "length (strip s) \<le> length ds"
        using Cons False r True length_dropWhile_le [of is_space ds] by (simp add: strip_def)
      moreover have "length s = Suc (length ds)"
        using r by (metis length_Cons length_rev)
      ultimately have "strip s \<noteq> s" by auto
      then show ?thesis using Cons l True by simp
    next
      case d: False
      have "strip s = s"
        using Cons False r d by (simp add: strip_def) (metis rev.simps(2) rev_rev_ident)
      then show ?thesis using Cons False l d by simp
    qed
  qed
qed

section \<open>Decimal numerals\<close>

definition digit_char :: "nat \<Rightarrow> nat" where
  "digit_char d = 48 + d"

fun nat_text :: "nat \<Rightarrow> pystr" where
  "nat_text n = (if n < 10 then [digit_char n] else nat_text (n div 10) @ [digit_char (n mod 10)])"

declare nat_text.simps [simp del]

definition int_text :: "int \<Rightarrow> pystr" where
  "int_text i = (if i < 0 then 45 # nat_text (nat (- i)) else nat_text (nat i))"

definition text_nat :: "pystr \<Rightarrow> nat" where
  "text_nat s = foldl (\<lambda>n c. 10 * n + (c - 48)) 0 s"

lemma foldl_digits:
  "foldl (\<lambda>n c. 10 * n + (c - 48)) a s = a * 10 ^ length s + text_nat s"
proof (induction s rule: rev_induct)
  case Nil
  then show ?case by (simp add: text_nat_def)
next
  case (snoc c s)
  then show ?case by (simp add: text_nat_def algebra_simps)
qed

lemma text_nat_snoc: "text_nat (s @ [c]) = 10 * text_nat s + (c - 48)"
  by (simp add: text_nat_def)

lemma text_nat_Cons: "text_nat (c # s) = (c - 48) * 10 ^ length s + text_nat s"
  using foldl_digits [of "c - 48" s] by (simp add: text_nat_def)

lemma text_nat_nat_text [simp]: "text_nat (nat_text n) = n"
proof (induction n rule: nat_text.induct)
  case (1 n)
  show ?case
  proof (cases "n < 10")
    case True
    then show ?thesis by (subst nat_text.simps) (simp add: text_nat_def digit_char_def)
  next
    case False
    then show ?thesis
      using 1 by (subst nat_text.simps) (simp add: text_nat_snoc digit_char_def)
  qed
qed

lemma nat_text_inject [simp]: "nat_text m = nat_text n \<longleftrightarrow> m = n"
  by (metis text_nat_nat_text)

lemma all_digits_nat_text: "all_digits (nat_text n)"
proof (induction n rule: nat_text.induct)
  case (1 n)
  then show ?case
    by (subst nat_text.simps) (auto simp: all_digits_def is_digit_def digit_char_def)
qed

lemma text_nat_less: "all_digits s \<Longrightarrow> text_nat s < 10 ^ length s"
proof (induction s rule: rev_induct)
  case Nil
  then show ?case by (simp add: text_nat_def)
next
  case (snoc c s)
  then have "text_nat s + 1 \<le> 10 ^ length s" and "c - 48 \<le> 9"
    by (auto simp: all_digits_def is_digit_def)
  then show ?case by (simp add: text_nat_snoc)
qed

text \<open>\<open>[1-9][0-9]*\Z\<close>: the price text of the recent source.\<close>

definition integer_price_text :: "pystr \<Rightarrow> bool" where
  "integer_price_text s \<longleftrightarrow> (case s of [] \<Rightarrow> False
     | c # cs \<Rightarrow> 49 \<le> c \<and> c \<le> 57 \<and> list_all is_digit cs)"

lemma integer_price_text_pos: "integer_price_text s \<Longrightarrow> 0 < text_nat s"
  by (auto simp: integer_price_text_def text_nat_Cons split: list.splits)

definition pad_left :: "nat \<Rightarrow> pystr \<Rightarrow> pystr" where
  "pad_left w s = replicate (w - length s) 48 @ s"

section \<open>Calendar dates\<close>

type_synonym date = "nat \<times> nat \<times> nat"

definition leap_year :: "nat \<Rightarrow> bool" where
  "leap_year y \<longleftrightarrow> y mod 4 = 0 \<and> (y mod 100 \<noteq> 0 \<or> y mod 400 = 0)"

definition days_in_month :: "nat \<Rightarrow> nat \<Rightarrow> nat" where
  "days_in_month y m =
     (if m = 2 then (if leap_year y then 29 else 28)
      else if m \<in> {4, 6, 9, 11} then 30 else 31)"

definition valid_date :: "date \<Rightarrow> bool" where
  "valid_date d = (case d of (y, m, dd) \<Rightarrow>
     1 \<le> y \<and> y \<le> 9999 \<and> 1 \<le> m \<and> m \<le> 12 \<and> 1 \<le> dd \<and> dd \<le> days_in_month y m)"

text \<open>
  \<open>datetime.strptime(value, "%Y%m%d").date()\<close> on eight ASCII digits: the two-digit month and
  day must name a day of the proleptic Gregorian calendar with a year from 1; anything else
  raises \<open>ValueError\<close> (here \<open>None\<close>).
\<close>

definition strptime_ymd :: "pystr \<Rightarrow> date option" where
  "strptime_ymd s =
     (let d = (text_nat (take 4 s), text_nat (take 2 (drop 4 s)), text_nat (drop 6 s))
      in if valid_date d then Some d else None)"

definition date_isoformat :: "date \<Rightarrow> pystr" where
  "date_isoformat d = (case d of (y, m, dd) \<Rightarrow>
     pad_left 4 (nat_text y) @ [45] @ pad_left 2 (nat_text m) @ [45] @ pad_left 2 (nat_text dd))"

lemma strptime_ymd_valid: "strptime_ymd s = Some d \<Longrightarrow> valid_date d"
  by (auto simp: strptime_ymd_def Let_def split: if_splits)

end
