(* ===== verification/Py_Decimal.thy ===== *)
theory Py_Decimal
  imports Py_Text Complex_Main
begin

text \<open>
  The operations of Python's \<open>decimal\<close> module the repository uses, as that module
  computes them: a finite number is a sign, a coefficient and an exponent; every arithmetic
  result is rounded to the context precision with \<open>ROUND_HALF_EVEN\<close>; \<open>quantize\<close>
  here rounds with \<open>ROUND_HALF_UP\<close> and raises \<open>InvalidOperation\<close> (\<open>None\<close>) when the result
  has more digits than the precision. Exponent limits are far outside the values used.
\<close>

datatype decimal = Fin bool nat int | Infinite bool | NotANumber bool

definition num_digits :: "nat \<Rightarrow> nat" where
  "num_digits m = length (nat_text m)"

fun dec_is_finite :: "decimal \<Rightarrow> bool" where
  "dec_is_finite (Fin s m e) = True"
| "dec_is_finite _ = False"

fun dec_exponent_is_zero :: "decimal \<Rightarrow> bool" where
  "dec_exponent_is_zero (Fin s m e) = (e = 0)"
| "dec_exponent_is_zero _ = False"

text \<open>Comparison with zero; a NaN operand raises in Python and never reaches these.\<close>

fun dec_pos :: "decimal \<Rightarrow> bool" where
  "dec_pos (Fin s m e) = (\<not> s \<and> m \<noteq> 0)"
| "dec_pos (Infinite s) = (\<not> s)"
| "dec_pos (NotANumber q) = False"

fun dec_neg :: "decimal \<Rightarrow> bool" where
  "dec_neg (Fin s m e) = (s \<and> m \<noteq> 0)"
| "dec_neg (Infinite s) = s"
| "dec_neg (NotANumber q) = False"

fun dec_is_zero :: "decimal \<Rightarrow> bool" where
  "dec_is_zero (Fin s m e) = (m = 0)"
| "dec_is_zero _ = False"

definition signed :: "bool \<Rightarrow> nat \<Rightarrow> int" where
  "signed s m = (if s then - int m else int m)"

definition dec_of_int :: "int \<Rightarrow> decimal" where
  "dec_of_int i = Fin (i < 0) (nat \<bar>i\<bar>) 0"

text \<open>Order and numeric equality of finite numbers, at their common exponent.\<close>

fun dec_le :: "decimal \<Rightarrow> decimal \<Rightarrow> bool" where
  "dec_le (Fin s m e) (Fin s' m' e') =
     (signed s m * 10 ^ nat (e - min e e') \<le> signed s' m' * 10 ^ nat (e' - min e e'))"
| "dec_le (Infinite s) (Infinite s') = (s \<or> \<not> s')"
| "dec_le (Infinite s) (Fin _ _ _) = s"
| "dec_le (Fin _ _ _) (Infinite s') = (\<not> s')"
| "dec_le _ _ = False"

definition dec_eq :: "decimal \<Rightarrow> decimal \<Rightarrow> bool" where
  "dec_eq a b \<longleftrightarrow> dec_le a b \<and> dec_le b a"

definition dec_less :: "decimal \<Rightarrow> decimal \<Rightarrow> bool" where
  "dec_less a b \<longleftrightarrow> dec_le a b \<and> \<not> dec_le b a"

section \<open>Rounding\<close>

definition round_half_even :: "nat \<Rightarrow> nat \<Rightarrow> nat" where
  "round_half_even m k =
     (let q = m div 10 ^ k; r = m mod 10 ^ k
      in if 2 * r > 10 ^ k \<or> 2 * r = 10 ^ k \<and> odd q then q + 1 else q)"

definition round_half_up :: "nat \<Rightarrow> nat \<Rightarrow> nat" where
  "round_half_up m k = (m + 10 ^ k div 2) div 10 ^ k"

fun dec_fix :: "nat \<Rightarrow> decimal \<Rightarrow> decimal" where
  "dec_fix p (Fin s m e) =
     (if num_digits m \<le> p then Fin s m e
      else let k = num_digits m - p; m' = round_half_even m k
           in if num_digits m' \<le> p then Fin s m' (e + int k)
              else Fin s (m' div 10) (e + int k + 1))"
| "dec_fix p d = d"

section \<open>Arithmetic\<close>

fun dec_sub :: "nat \<Rightarrow> decimal \<Rightarrow> decimal \<Rightarrow> decimal option" where
  "dec_sub p (Fin s m e) (Fin s' m' e') =
     (let x = min e e';
          i = signed s m * 10 ^ nat (e - x) - signed s' m' * 10 ^ nat (e' - x)
      in Some (dec_fix p (Fin (if i = 0 then s \<and> \<not> s' \<and> m = 0 else i < 0) (nat \<bar>i\<bar>) x)))"
| "dec_sub p _ _ = None"

fun strip_zeros :: "nat \<Rightarrow> nat \<Rightarrow> nat \<times> nat" where
  "strip_zeros 0 c = (0, c)"
| "strip_zeros (Suc t) c = (if c mod 10 = 0 then strip_zeros t (c div 10) else (Suc t, c))"

text \<open>
  Division computes one digit more than the precision, makes an inexact quotient odd in its last
  place (so that rounding it again is correct) and strips zeros of an exact one.
\<close>

fun dec_div :: "nat \<Rightarrow> decimal \<Rightarrow> decimal \<Rightarrow> decimal option" where
  "dec_div p (Fin s m e) (Fin s' m' e') =
     (if m' = 0 then None
      else if m = 0 then Some (dec_fix p (Fin (s \<noteq> s') 0 (e - e')))
      else
        (let shift = int (num_digits m') - int (num_digits m) + int p + 1;
             n = m * 10 ^ nat shift;
             d = m' * 10 ^ nat (- shift);
             q = n div d
         in if n mod d \<noteq> 0
            then Some (dec_fix p (Fin (s \<noteq> s') (if q mod 5 = 0 then q + 1 else q) (e - e' - shift)))
            else (case strip_zeros (nat shift) q of (t, c) \<Rightarrow>
                    Some (dec_fix p (Fin (s \<noteq> s') c (e - e' - (if shift < 0 then shift else int t)))))))"
| "dec_div p _ _ = None"

fun dec_mul :: "nat \<Rightarrow> decimal \<Rightarrow> decimal \<Rightarrow> decimal option" where
  "dec_mul p (Fin s m e) (Fin s' m' e') = Some (dec_fix p (Fin (s \<noteq> s') (m * m') (e + e')))"
| "dec_mul p _ _ = None"

fun dec_quantize_half_up :: "nat \<Rightarrow> decimal \<Rightarrow> int \<Rightarrow> decimal option" where
  "dec_quantize_half_up p (Fin s m e) x =
     (let c = (if x \<le> e then m * 10 ^ nat (e - x) else round_half_up m (nat (x - e)))
      in if num_digits c \<le> p then Some (Fin s c x) else None)"
| "dec_quantize_half_up p _ x = None"

section \<open>Digits\<close>

lemma num_digits_pos: "0 < num_digits m"
  unfolding num_digits_def by (subst nat_text.simps) simp

lemma less_10_num_digits: "m < 10 ^ num_digits m"
  using text_nat_less [OF all_digits_nat_text [of m]] by (simp add: num_digits_def)

lemma num_digits_rec: "num_digits m = (if m < 10 then 1 else Suc (num_digits (m div 10)))"
  unfolding num_digits_def by (subst nat_text.simps) simp

lemma num_digits_le: "0 < n \<Longrightarrow> m < 10 ^ n \<Longrightarrow> num_digits m \<le> n"
proof (induction n arbitrary: m)
  case 0
  then show ?case by simp
next
  case (Suc n)
  show ?case
  proof (cases "m < 10")
    case True
    then show ?thesis by (simp add: num_digits_rec [of m])
  next
    case False
    then have "0 < n" using Suc.prems by (cases n) auto
    moreover have "m div 10 < 10 ^ n" using Suc.prems by (simp add: less_mult_imp_div_less mult.commute)
    ultimately show ?thesis using Suc.IH [of "m div 10"] False by (simp add: num_digits_rec [of m])
  qed
qed

lemma num_digits_le_iff: "0 < n \<Longrightarrow> num_digits m \<le> n \<longleftrightarrow> m < 10 ^ n"
proof
  assume "num_digits m \<le> n"
  then have "(10::nat) ^ num_digits m \<le> 10 ^ n" by (simp add: power_increasing)
  with less_10_num_digits [of m] show "m < 10 ^ n" by (rule less_le_trans)
qed (rule num_digits_le)

lemma num_digits_less_iff: "0 < n \<Longrightarrow> n < num_digits m \<longleftrightarrow> 10 ^ n \<le> m"
  by (metis num_digits_le_iff not_le)

lemma num_digits_mono: "m \<le> n \<Longrightarrow> num_digits m \<le> num_digits n"
  by (meson less_10_num_digits num_digits_pos num_digits_le le_less_trans)

lemma num_digits_0 [simp]: "num_digits 0 = 1"
  by (simp add: num_digits_rec)


section \<open>The value of a number and the error of its rounding\<close>

fun dec_value :: "decimal \<Rightarrow> real" where
  "dec_value (Fin s m e) = of_int (signed s m) * 10 powi e"
| "dec_value _ = 0"

lemma round_half_up_floor: "int (round_half_up m k) = \<lfloor>real m / 10 ^ k + 1 / 2\<rfloor>"
proof (cases k)
  case 0
  then show ?thesis by (simp add: round_half_up_def)
next
  case (Suc n)
  have ev: "real ((10::nat) ^ k div 2) = 10 ^ k / 2"
    using Suc by (simp add: real_of_nat_div)
  have "\<lfloor>real m / 10 ^ k + 1 / 2\<rfloor> = \<lfloor>real (m + 10 ^ k div 2) / real (10 ^ k)\<rfloor>"
    by (simp add: ev add_divide_distrib)
  also have "\<dots> = int ((m + 10 ^ k div 2) div 10 ^ k)"
    by (rule floor_divide_of_nat_eq)
  finally show ?thesis by (simp add: round_half_up_def)
qed

lemma round_half_even_bound: "\<bar>real (round_half_even m k) * 10 ^ k - real m\<bar> \<le> 10 ^ k / 2"
proof -
  let ?q = "m div 10 ^ k" and ?r = "m mod 10 ^ k"
  have m: "real m = real ?q * 10 ^ k + real ?r"
  proof -
    have "real m = real (?q * 10 ^ k + ?r)" by (simp only: div_mult_mod_eq)
    also have "\<dots> = real ?q * 10 ^ k + real ?r" by (simp only: of_nat_add of_nat_mult of_nat_power of_nat_numeral)
    finally show ?thesis .
  qed
  have r: "real ?r < 10 ^ k"
  proof -
    have "?r < 10 ^ k" by simp
    then have "real ?r < real (10 ^ k)" by (simp only: of_nat_less_iff)
    then show ?thesis by simp
  qed
  have e: "(2 * ?r = 10 ^ k) = (2 * real ?r = 10 ^ k)"
    using of_nat_eq_iff [of "2 * ?r" "10 ^ k", where 'a = real] by (simp only: of_nat_mult of_nat_power of_nat_numeral)
  have e': "(10 ^ k < 2 * ?r) = (10 ^ k < 2 * real ?r)"
    using of_nat_less_iff [of "10 ^ k" "2 * ?r", where 'a = real] by (simp only: of_nat_mult of_nat_power of_nat_numeral)
  show ?thesis
  proof (cases "2 * ?r > 10 ^ k \<or> 2 * ?r = 10 ^ k \<and> odd ?q")
    case True
    then have "round_half_even m k = ?q + 1" by (simp add: round_half_even_def Let_def)
    moreover have "10 ^ k \<le> 2 * real ?r" using True e e' by auto
    ultimately show ?thesis using m r by (simp add: algebra_simps)
  next
    case False
    then have "round_half_even m k = ?q" by (simp add: round_half_even_def Let_def)
    moreover have "2 * real ?r \<le> 10 ^ k" using False e e' by auto
    ultimately show ?thesis using m by simp
  qed
qed

lemma round_half_even_exact: "10 ^ k dvd m \<Longrightarrow> round_half_even m k = m div 10 ^ k"
  by (auto simp: round_half_even_def Let_def)

lemma round_half_even_less: "m < 10 ^ (n + k) \<Longrightarrow> round_half_even m k \<le> 10 ^ n"
proof -
  assume "m < 10 ^ (n + k)"
  then have "m div 10 ^ k < 10 ^ n"
    by (simp add: less_mult_imp_div_less power_add)
  then show ?thesis by (simp add: round_half_even_def Let_def)
qed

text \<open>A result that fits the precision is kept; a longer one moves by at most half a unit of the
  last place that is kept.\<close>

lemma dec_fix_fits: "num_digits m \<le> p \<Longrightarrow> dec_fix p (Fin s m e) = Fin s m e"
  by simp

lemma dec_fix_round:
  assumes "0 < p" and "num_digits m \<le> p + k" and "p < num_digits m"
  obtains m' e' where "dec_fix p (Fin s m e) = Fin s m' e'"
    and "\<bar>real m' * 10 powi e' - real m * 10 powi e\<bar> \<le> 10 ^ k / 2 * 10 powi e"
    and "10 ^ k dvd m \<Longrightarrow> real m' * 10 powi e' = real m * 10 powi e"
    and "num_digits m' \<le> p" and "e \<le> e'"
proof -
  let ?j = "num_digits m - p"
  let ?m = "round_half_even m ?j"
  have jk: "?j \<le> k" using assms by simp
  have lt: "m < 10 ^ (p + ?j)" using less_10_num_digits [of m] assms(3) by simp
  have le: "?m \<le> 10 ^ p" by (rule round_half_even_less [OF lt])
  have b: "\<bar>real ?m * 10 ^ ?j - real m\<bar> \<le> 10 ^ k / 2"
  proof -
    have "(10::real) ^ ?j \<le> 10 ^ k" using jk by (rule power_increasing) simp
    with round_half_even_bound [of m ?j] show ?thesis by (meson divide_right_mono order_trans zero_le_numeral)
  qed
  have sc: "\<bar>real ?m * 10 powi (e + int ?j) - real m * 10 powi e\<bar> \<le> 10 ^ k / 2 * 10 powi e"
  proof -
    have "real ?m * 10 powi (e + int ?j) - real m * 10 powi e
        = (real ?m * 10 ^ ?j - real m) * 10 powi e"
      by (simp add: power_int_add algebra_simps)
    then have "\<bar>real ?m * 10 powi (e + int ?j) - real m * 10 powi e\<bar>
        = \<bar>real ?m * 10 ^ ?j - real m\<bar> * 10 powi e"
      by (simp add: abs_mult)
    with b show ?thesis by (simp add: mult_right_mono)
  qed
  have ex: "10 ^ k dvd m \<Longrightarrow> real ?m * 10 powi (e + int ?j) = real m * 10 powi e"
  proof -
    assume "10 ^ k dvd m"
    then have d: "10 ^ ?j dvd m" using jk by (meson dvd_trans le_imp_power_dvd)
    then have "?m * 10 ^ ?j = m" by (simp add: round_half_even_exact)
    then have "real ?m * 10 ^ ?j = real m" by (metis of_nat_mult of_nat_numeral of_nat_power)
    then show ?thesis by (simp add: power_int_add algebra_simps)
  qed
  show ?thesis
  proof (cases "num_digits ?m \<le> p")
    case True
    show ?thesis
      by (rule that [of ?m "e + int ?j"]) (use True assms sc ex in \<open>auto simp: Let_def\<close>)
  next
    case False
    then have "?m = 10 ^ p" using le num_digits_le_iff [OF assms(1), of ?m] by simp
    then have m10: "real ?m * 10 powi (e + int ?j) = real (?m div 10) * 10 powi (e + int ?j + 1)"
      and dm: "?m div 10 < 10 ^ p"
      using assms(1) by (cases p; simp add: power_int_add)+
    show ?thesis
      by (rule that [of "?m div 10" "e + int ?j + 1"])
        (use False assms sc ex m10 num_digits_le [OF assms(1) dm] in \<open>auto simp: Let_def\<close>)
  qed
qed

section \<open>Numeric equality\<close>

fun dec_val :: "decimal \<Rightarrow> real" where
  "dec_val (Fin s m e) = real_of_int (signed s m) * 10 powi e"
| "dec_val _ = 0"

lemma shift_exponent: "(10 :: real) powi e = 10 ^ nat (e - k) * 10 powi k" if "k \<le> e"
proof -
  have "(10 :: real) powi e = 10 powi ((e - k) + k)" by simp
  also have "\<dots> = 10 powi (e - k) * 10 powi k" by (rule power_int_add) simp
  finally show ?thesis using that by (simp add: power_int_def)
qed

lemma dec_le_val: "dec_le (Fin s m e) (Fin s' m' e') \<longleftrightarrow> dec_val (Fin s m e) \<le> dec_val (Fin s' m' e')"
proof -
  let ?k = "min e e'"
  have "dec_val (Fin s m e) \<le> dec_val (Fin s' m' e') \<longleftrightarrow>
      real_of_int (signed s m) * 10 ^ nat (e - ?k) * 10 powi ?k
        \<le> real_of_int (signed s' m') * 10 ^ nat (e' - ?k) * 10 powi ?k"
    using shift_exponent [of ?k e] shift_exponent [of ?k e'] by (simp add: mult.assoc)
  also have "\<dots> \<longleftrightarrow> real_of_int (signed s m * 10 ^ nat (e - ?k)) \<le> real_of_int (signed s' m' * 10 ^ nat (e' - ?k))"
    by simp
  also have "\<dots> \<longleftrightarrow> dec_le (Fin s m e) (Fin s' m' e')"
    unfolding of_int_le_iff by simp
  finally show ?thesis by simp
qed

lemma dec_eq_val: "dec_eq (Fin s m e) (Fin s' m' e') \<longleftrightarrow> dec_val (Fin s m e) = dec_val (Fin s' m' e')"
  unfolding dec_eq_def dec_le_val by auto

lemma dec_eq_refl: "dec_eq v v \<longleftrightarrow> (case v of NotANumber _ \<Rightarrow> False | _ \<Rightarrow> True)"
  by (cases v) (auto simp: dec_eq_def)

lemma dec_eq_finite: "dec_eq (Fin s m e) d \<longleftrightarrow> (\<exists>s' m' e'. d = Fin s' m' e' \<and> dec_val d = dec_val (Fin s m e))"
  by (cases d) (auto simp: dec_eq_val simp del: dec_val.simps, auto simp: dec_eq_def)

end
