(* ===== verification/Percent_Rounding.thy ===== *)
theory Percent_Rounding
  imports Py_Decimal
begin

text \<open>
  The quotient of two integers, computed by \<open>decimal\<close> at a precision sixteen digits above the
  operands and then rounded half up to a tenth of a percent, is the exact quotient rounded half
  up: the first rounding never moves a value across, onto or off a rounding boundary.
\<close>

declare dec_fix.simps [simp del]
declare dec_div.simps [simp del]

definition half_up_quotient :: "nat \<Rightarrow> nat \<Rightarrow> nat" where
  "half_up_quotient n d = (2 * n + d) div (2 * d)"

lemma half_up_quotient_floor:
  assumes "0 < d"
  shows "int (half_up_quotient n d) = \<lfloor>real n / real d + 1 / 2\<rfloor>"
proof -
  have "real n / real d + 1 / 2 = real (2 * n + d) / real (2 * d)"
    using assms by (simp add: field_simps)
  then show ?thesis
    unfolding half_up_quotient_def
    using floor_divide_of_nat_eq [of "2 * n + d" "2 * d", where 'a = real] by simp
qed

text \<open>A half-up quotient is within half a unit of the quotient.\<close>

lemma half_up_quotient_nearest:
  assumes "0 < d"
  shows "\<bar>2 * int d * int (half_up_quotient n d) - 2 * int n\<bar> \<le> int d"
proof -
  define q where "q = half_up_quotient n d"
  have "2 * d * q + (2 * n + d) mod (2 * d) = 2 * n + d"
    unfolding q_def half_up_quotient_def by (simp add: mult_div_mod_eq)
  moreover have "(2 * n + d) mod (2 * d) < 2 * d" using assms by simp
  ultimately have "int (2 * d * q) \<le> int (2 * n + d)" "int (2 * n + d) < int (2 * d * q + 2 * d)"
    by linarith+
  then show ?thesis unfolding q_def [symmetric] by simp
qed

lemma floor_stable:
  assumes r: "0 < r" and near: "\<bar>y - (real n / real r + 1 / 2)\<bar> < 1 / (2 * real r)"
    and tie: "2 * r dvd 2 * n + r \<Longrightarrow> y = real n / real r + 1 / 2"
  shows "\<lfloor>y\<rfloor> = int (half_up_quotient n r)"
proof (cases "2 * r dvd 2 * n + r")
  case True
  then show ?thesis using tie r by (simp add: half_up_quotient_floor)
next
  case False
  define f where "f = half_up_quotient n r"
  define rho where "rho = (2 * n + r) mod (2 * r)"
  have rho: "1 \<le> rho" "rho + 1 \<le> 2 * r"
    using False r by (auto simp: rho_def dvd_eq_mod_eq_0 Suc_le_eq)
  have "2 * n + r = 2 * r * f + rho"
    by (simp add: f_def half_up_quotient_def rho_def mult_div_mod_eq)
  then have "real (2 * n + r) = real (2 * r * f + rho)" by simp
  then have x: "real n / real r + 1 / 2 = real f + real rho / (2 * real r)"
    using r by (simp add: field_simps)
  have "1 / (2 * real r) \<le> real rho / (2 * real r)"
    using rho r by (simp add: field_simps)
  moreover have "real rho / (2 * real r) \<le> 1 - 1 / (2 * real r)"
    using rho r by (simp add: field_simps)
  ultimately have "real f < y" "y < real f + 1"
    using near x by linarith+
  then have "\<lfloor>y\<rfloor> = int f" by linarith
  then show ?thesis by (simp add: f_def)
qed

lemma strip_zeros_spec:
  "strip_zeros t c = (t', c') \<Longrightarrow>
     c * 10 ^ t' = c' * 10 ^ t \<and> t' \<le> t \<and> (t' = 0 \<or> c' mod 10 \<noteq> 0)"
proof (induction t c rule: strip_zeros.induct)
  case (1 c)
  then show ?case by simp
next
  case (2 t c)
  show ?case
  proof (cases "c mod 10 = 0")
    case True
    with 2 have ih: "c div 10 * 10 ^ t' = c' * 10 ^ t" "t' \<le> t" "t' = 0 \<or> c' mod 10 \<noteq> 0" by auto
    have "c = c div 10 * 10" using True by auto
    then have "c * 10 ^ t' = c div 10 * 10 ^ t' * 10" by (metis mult.assoc mult.commute)
    with ih show ?thesis by simp
  next
    case False
    with 2 show ?thesis by auto
  qed
qed

section \<open>The quotient\<close>

lemma dec_div_near:
  assumes A: "0 < A" and r: "0 < r"
    and P: "num_digits A + 16 \<le> P" "num_digits r + 16 \<le> P"
  obtains c e where "dec_div P (Fin s A 0) (Fin False r 0) = Some (Fin s c e)"
    and "num_digits c \<le> P"
    and "\<bar>real c * 10 powi e - real A / real r\<bar> < 1 / (2000 * real r)"
    and "r dvd 2000 * A \<Longrightarrow> real c * 10 powi e = real A / real r"
proof -
  define k where "k = num_digits r + P + 1 - num_digits A"
  define n where "n = A * 10 ^ k"
  have k: "num_digits r + 17 \<le> k" and kP: "num_digits A + k = num_digits r + P + 1"
    using P by (auto simp: k_def)
  have shift: "int (num_digits r) - int (num_digits A) + int P + 1 = int k"
    using kP by simp
  have k10: "(10::real) powi (- int k) = 1 / 10 ^ k" by (simp add: power_int_minus divide_inverse)
  have nP: "n div r + 1 < 10 ^ (P + 3)"
  proof -
    obtain u where u: "num_digits r = Suc u" using num_digits_pos [of r] by (cases "num_digits r") auto
    have r10: "10 ^ u \<le> r"
      using num_digits_less_iff [of u r] u r by (cases u) auto
    have "n < 10 ^ (num_digits A + k)"
      using less_10_num_digits [of A] by (simp add: n_def power_add)
    also have "\<dots> = 10 ^ u * 10 ^ (P + 2)" by (simp add: kP u power_add)
    also have "\<dots> \<le> r * 10 ^ (P + 2)" using r10 by simp
    finally have "n div r < 10 ^ (P + 2)" by (simp add: less_mult_imp_div_less mult.commute)
    moreover have "(10::nat) ^ (P + 3) = 10 * 10 ^ (P + 2)" and "(1::nat) \<le> 10 ^ (P + 2)"
      by (simp_all add: power_add)
    ultimately show ?thesis by linarith
  qed
  have small: "501 / 10 ^ k < 1 / (2000 * real r)"
  proof -
    have "real r < 10 ^ num_digits r"
      using less_10_num_digits [of r] by (metis of_nat_less_iff of_nat_numeral of_nat_power)
    then have "1002000 * real r < 10 ^ num_digits r * 100000000000000000" by linarith
    moreover have "(10::real) ^ 17 = 100000000000000000" by simp
    ultimately have "1002000 * real r < 10 ^ num_digits r * 10 ^ 17" by (simp only:)
    also have "\<dots> = 10 ^ (num_digits r + 17)" by (simp add: power_add)
    also have "\<dots> \<le> 10 ^ k" using k by (intro power_increasing) auto
    finally show ?thesis using r by (simp add: field_simps)
  qed
  have tie10: "r dvd 2000 * A \<Longrightarrow> r dvd n"
  proof -
    assume "r dvd 2000 * A"
    moreover define j where "j = k - 4"
    then have "k = 4 + j" using k by simp
    then have "n = 2000 * A * (5 * 10 ^ j)" by (simp add: n_def power_add)
    ultimately show "r dvd n" by (metis dvd_mult2)
  qed
  have real_n: "real n * 10 powi (- int k) = real A"
    by (simp add: n_def k10)
  show ?thesis
  proof (cases "n mod r = 0")
    case False
    define q where "q = (if (n div r) mod 5 = 0 then n div r + 1 else n div r)"
    have d: "dec_div P (Fin s A 0) (Fin False r 0) = Some (dec_fix P (Fin s q (- int k)))"
      using A r False unfolding q_def by (simp add: dec_div.simps shift Let_def n_def [symmetric])
    have q: "\<bar>real q - real n / real r\<bar> \<le> 1"
    proof -
      have "real n = real (n div r) * real r + real (n mod r)"
        by (metis div_mult_mod_eq of_nat_add of_nat_mult)
      moreover have "real (n mod r) < real r" using r by simp
      ultimately have "real (n div r) \<le> real n / real r" "real n / real r < real (n div r) + 1"
        using r by (simp_all add: field_simps)
      then show ?thesis by (auto simp: q_def)
    qed
    have qx: "\<bar>real q * 10 powi (- int k) - real A / real r\<bar> \<le> 1 / 10 ^ k"
    proof -
      have "real q * 10 powi (- int k) - real A / real r
          = (real q - real n / real r) * 10 powi (- int k)"
        using real_n by (simp add: algebra_simps)
      then have "\<bar>real q * 10 powi (- int k) - real A / real r\<bar>
          = \<bar>real q - real n / real r\<bar> * 10 powi (- int k)" by (simp add: abs_mult)
      also have "\<dots> \<le> 1 * 10 powi (- int k)" using q by (intro mult_right_mono) auto
      finally show ?thesis by (simp add: k10)
    qed
    have tie: "\<not> r dvd 2000 * A" using tie10 False by (auto simp: dvd_eq_mod_eq_0)
    have qP: "num_digits q \<le> P + 3"
      using nP by (intro num_digits_le) (auto simp: q_def)
    show ?thesis
    proof (cases "num_digits q \<le> P")
      case True
      have "(1::real) / 10 ^ k \<le> 501 / 10 ^ k" by (simp add: divide_right_mono)
      then have near: "\<bar>real q * 10 powi (- int k) - real A / real r\<bar> < 1 / (2000 * real r)"
        using qx small by linarith
      have "dec_div P (Fin s A 0) (Fin False r 0) = Some (Fin s q (- int k))"
        using d True by (simp only: dec_fix_fits)
      then show ?thesis using True near tie by (intro that [of q "- int k"]) blast+
    next
      case long: False
      obtain m' e' where m': "dec_fix P (Fin s q (- int k)) = Fin s m' e'" "num_digits m' \<le> P"
        and b: "\<bar>real m' * 10 powi e' - real q * 10 powi (- int k)\<bar> \<le> 10 ^ 3 / 2 * 10 powi (- int k)"
        by (rule dec_fix_round [of P q 3 s "- int k"]) (use P qP long in \<open>linarith | blast\<close>)+
      have "\<bar>real m' * 10 powi e' - real A / real r\<bar> \<le> 500 / 10 ^ k + 1 / 10 ^ k"
        using b qx by (simp add: k10)
      also have "\<dots> = 501 / 10 ^ k" by simp
      finally show ?thesis
        by (intro that [of m' e']) (use m' d small tie in auto)
    qed
  next
    case True
    obtain t c where tc: "strip_zeros k (n div r) = (t, c)" by (metis surj_pair)
    note st = strip_zeros_spec [OF tc]
    have d: "dec_div P (Fin s A 0) (Fin False r 0) = Some (dec_fix P (Fin s c (- int t)))"
      using A r True tc by (simp add: dec_div.simps shift Let_def n_def [symmetric])
    have ct: "real c = real A / real r * 10 ^ t"
    proof -
      have "real (n div r) * 10 ^ t = real c * 10 ^ k"
        using st by (metis of_nat_mult of_nat_numeral of_nat_power)
      moreover have "real (n div r) = real n / real r"
        using True by (simp add: real_of_nat_div dvd_eq_mod_eq_0)
      ultimately have "real c * 10 ^ k = real A / real r * 10 ^ t * 10 ^ k"
        by (simp add: n_def mult_ac)
      then show ?thesis by (rule mult_right_cancel [THEN iffD1, rotated]) simp
    qed
    have val: "real c * 10 powi (- int t) = real A / real r"
      by (simp add: ct power_int_minus)
    have cn: "c \<le> n div r"
    proof -
      have "c * 10 ^ k = n div r * 10 ^ t" using st by simp
      also have "\<dots> \<le> n div r * 10 ^ k" using st by (intro mult_left_mono power_increasing) auto
      finally show ?thesis by simp
    qed
    have cP: "num_digits c \<le> P + 3"
      using nP cn by (intro num_digits_le) auto
    have fits: "num_digits c \<le> P" if tie: "r dvd 2000 * A"
    proof -
      define w where "w = 2000 * A div r * 5"
      have w: "real w = real A / real r * 10 ^ 4"
        using tie by (simp add: w_def real_of_nat_div)
      have cw: "c * 10 ^ 4 = w * 10 ^ t"
      proof -
        have "real (c * 10 ^ 4) = real (w * 10 ^ t)" using w ct by simp
        then show ?thesis by (simp only: of_nat_eq_iff)
      qed
      have t4: "t \<le> 4"
      proof (rule ccontr)
        assume "\<not> t \<le> 4"
        then obtain v where v: "t = Suc v + 4" by (metis add.commute le_Suc_ex not_less_eq_eq add_Suc)
        then have "c = w * 10 ^ v * 10" using cw by (simp add: power_add)
        then have "c mod 10 = 0" by simp
        with st v show False by simp
      qed
      have "real c = real A / real r * 10 ^ t" by (rule ct)
      also have "\<dots> \<le> real A * 10 ^ 4"
      proof (intro mult_mono power_increasing)
        show "real A / real r \<le> real A"
          using r frac_le [of "real A" "real A" 1 "real r"] by simp
      qed (use t4 in auto)
      finally have "real c \<le> real (A * 10 ^ 4)" by simp
      then have "c \<le> A * 10 ^ 4" by (simp only: of_nat_le_iff)
      also have "\<dots> < 10 ^ num_digits A * 10 ^ 4" using less_10_num_digits [of A] by simp
      also have "\<dots> = 10 ^ (num_digits A + 4)" by (simp add: power_add)
      also have "\<dots> \<le> 10 ^ P" using P by (intro power_increasing) auto
      finally show ?thesis using P by (intro num_digits_le) auto
    qed
    show ?thesis
    proof (cases "num_digits c \<le> P")
      case True
      show ?thesis
        by (rule that [of c "- int t"]) (use True d val r in \<open>auto simp: dec_fix_fits\<close>)
    next
      case long: False
      define j where "j = k - t"
      have ck: "c * 10 ^ j = n div r"
      proof -
        have "c * 10 ^ j * 10 ^ t = n div r * 10 ^ t"
          using st by (simp add: j_def mult.assoc flip: power_add)
        then show ?thesis by simp
      qed
      have j3: "j < 3"
      proof (rule ccontr)
        assume "\<not> j < 3"
        then have "c * 10 ^ 3 \<le> c * 10 ^ j" by (intro mult_left_mono power_increasing) auto
        then have "c * 10 ^ 3 < 10 ^ P * 10 ^ 3" using ck nP by (simp add: power_add)
        then have "num_digits c \<le> P" using P by (intro num_digits_le) auto
        with long show False by simp
      qed
      have "c * 10 ^ j < 10 ^ (P + (3 - j)) * 10 ^ j"
        using ck nP j3 by (simp flip: power_add)
      then have cj: "num_digits c \<le> P + (3 - j)" using P by (intro num_digits_le) auto
      obtain m' e' where m': "dec_fix P (Fin s c (- int t)) = Fin s m' e'" "num_digits m' \<le> P"
        and b: "\<bar>real m' * 10 powi e' - real c * 10 powi (- int t)\<bar>
                  \<le> 10 ^ (3 - j) / 2 * 10 powi (- int t)"
        by (rule dec_fix_round [of P c "3 - j" s "- int t"]) (use P cj long in \<open>linarith | blast\<close>)+
      have "3 - j + k = 3 + t" using st j3 by (simp add: j_def)
      then have eq: "(10::real) ^ (3 - j) * 10 ^ k = 10 ^ 3 * 10 ^ t" by (metis power_add)
      have gen: "x / 2 * (1 / y) = 500 / z" if "x * z = 10 ^ 3 * y" "y \<noteq> 0" "z \<noteq> 0"
        for x y z :: real using that by (simp add: field_simps)
      have t10: "(10::real) powi (- int t) = 1 / 10 ^ t" by (simp add: power_int_minus divide_inverse)
      have tk: "(10::real) ^ (3 - j) / 2 * 10 powi (- int t) = 500 / 10 ^ k"
        unfolding t10 by (rule gen [OF eq]) simp_all
      have "\<bar>real m' * 10 powi e' - real A / real r\<bar> \<le> 500 / 10 ^ k"
        using b val tk by (simp add: k10)
      also have "\<dots> \<le> 501 / 10 ^ k" by (simp add: divide_right_mono)
      finally show ?thesis
        by (intro that [of m' e']) (use m' d small fits long in auto)
    qed
  qed
qed


section \<open>Scaling to percent and rounding to a tenth\<close>

text \<open>Multiplying by one hundred only appends zeros, so the precision never bites.\<close>

lemma dec_mul_100:
  assumes "num_digits c \<le> P" and "0 < P"
  obtains m e' where "dec_mul P (Fin s c e) (dec_of_int 100) = Some (Fin s m e')"
    and "real m * 10 powi e' = 100 * (real c * 10 powi e)"
proof -
  have mul: "dec_mul P (Fin s c e) (dec_of_int 100) = Some (dec_fix P (Fin s (c * 100) e))"
    by (simp add: dec_of_int_def)
  have "c * 100 < 10 ^ P * 100" using num_digits_le_iff [OF assms(2)] assms(1) by simp
  also have "\<dots> = 10 ^ (P + 2)" by (simp add: power_add)
  finally have le: "num_digits (c * 100) \<le> P + 2" by (intro num_digits_le) auto
  show ?thesis
  proof (cases "num_digits (c * 100) \<le> P")
    case True
    then show ?thesis using mul by (intro that [of "c * 100" e]) (auto simp: dec_fix_fits)
  next
    case False
    obtain m' e' where m': "dec_fix P (Fin s (c * 100) e) = Fin s m' e'"
      and v: "(10::nat) ^ 2 dvd c * 100 \<Longrightarrow> real m' * 10 powi e' = real (c * 100) * 10 powi e"
      using dec_fix_round [OF assms(2) le, of s e] False by (metis not_le)
    have "(10::nat) ^ 2 dvd c * 100" by simp
    then have "real m' * 10 powi e' = 100 * (real c * 10 powi e)" using v by simp
    then show ?thesis using mul m' that by simp
  qed
qed

lemma quantize_tenth:
  assumes "int T = \<lfloor>10 * (real m * 10 powi e) + 1 / 2\<rfloor>" and "num_digits T \<le> P"
  shows "dec_quantize_half_up P (Fin s m e) (- 1) = Some (Fin s T (- 1))"
proof (cases "- 1 \<le> e")
  case True
  have eq: "10 * (real m * 10 powi e) = real (m * 10 ^ nat (e + 1))"
  proof -
    have "(10::real) powi (e + 1) = 10 ^ nat (e + 1)" using True by (simp add: power_int_def)
    moreover have "(10::real) powi (e + 1) = 10 powi e * 10" by (simp add: power_int_add)
    ultimately show ?thesis by simp
  qed
  have "int T = \<lfloor>real (m * 10 ^ nat (e + 1)) + 1 / 2\<rfloor>" using assms(1) by (simp only: eq)
  then have "T = m * 10 ^ nat (e + 1)" by linarith
  then show ?thesis using True assms(2) by (simp add: Let_def)
next
  case False
  define k where "k = nat (- 1 - e)"
  have e: "e = - 1 - int k" using False by (simp add: k_def)
  have eq: "10 * (real m * 10 powi e) = real m / 10 ^ k"
  proof -
    have "(10::real) powi (e + 1) = 1 / 10 ^ k"
      unfolding e by (simp add: power_int_minus divide_inverse)
    moreover have "(10::real) powi (e + 1) = 10 powi e * 10" by (simp add: power_int_add)
    ultimately have "10 powi e * 10 = 1 / (10::real) ^ k" by simp
    then have "real m * (10 powi e * 10) = real m * (1 / 10 ^ k)" by (simp only:)
    then show ?thesis by (simp add: mult_ac)
  qed
  have "int T = int (round_half_up m k)"
    using assms(1) by (simp only: eq round_half_up_floor)
  then have "T = round_half_up m k" by simp
  then show ?thesis using False assms(2) by (simp add: Let_def k_def)
qed

text \<open>
  The whole pipeline: quotient at precision \<open>P\<close>, times one hundred, to one decimal. The result
  is \<open>1000 * A / r\<close> tenths of a percent, rounded half up.
\<close>

theorem percent_pipeline:
  assumes r: "0 < r" and P: "num_digits A + 16 \<le> P" "num_digits r + 16 \<le> P"
  shows "Option.bind (dec_div P (Fin s A 0) (Fin False r 0)) (\<lambda>q.
           Option.bind (dec_mul P q (dec_of_int 100)) (\<lambda>v. dec_quantize_half_up P v (- 1)))
         = Some (Fin s (half_up_quotient (1000 * A) r) (- 1))"
proof -
  define T where "T = half_up_quotient (1000 * A) r"
  have P0: "0 < P" using P by simp
  obtain c e where div: "dec_div P (Fin s A 0) (Fin False r 0) = Some (Fin s c e)"
    and cP: "num_digits c \<le> P"
    and near: "\<bar>real c * 10 powi e - real A / real r\<bar> < 1 / (2000 * real r)"
    and tie: "r dvd 2000 * A \<Longrightarrow> real c * 10 powi e = real A / real r"
  proof (cases "A = 0")
    case True
    then have "dec_div P (Fin s A 0) (Fin False r 0) = Some (Fin s 0 0)"
      using r P by (simp add: dec_div.simps dec_fix_fits)
    then show ?thesis using that [of 0 0] True r P by simp
  next
    case False
    then show ?thesis using dec_div_near [of A r P s] r P that by auto
  qed
  obtain m e' where mul: "dec_mul P (Fin s c e) (dec_of_int 100) = Some (Fin s m e')"
    and mv: "real m * 10 powi e' = 100 * (real c * 10 powi e)"
    using dec_mul_100 [OF cP P0] by metis
  have "\<lfloor>10 * (real m * 10 powi e') + 1 / 2\<rfloor> = int T"
    unfolding T_def
  proof (rule floor_stable [OF r])
    have "10 * (real m * 10 powi e') + 1 / 2 - (real (1000 * A) / real r + 1 / 2)
        = 1000 * (real c * 10 powi e - real A / real r)"
      by (simp add: mv)
    then have "\<bar>10 * (real m * 10 powi e') + 1 / 2 - (real (1000 * A) / real r + 1 / 2)\<bar>
        = 1000 * \<bar>real c * 10 powi e - real A / real r\<bar>" by (simp only: abs_mult abs_numeral)
    also have "\<dots> < 1000 * (1 / (2000 * real r))" using near by simp
    finally show "\<bar>10 * (real m * 10 powi e') + 1 / 2 - (real (1000 * A) / real r + 1 / 2)\<bar> < 1 / (2 * real r)"
      by simp
    assume "2 * r dvd 2 * (1000 * A) + r"
    then have "r dvd 2 * (1000 * A) + r" by (rule dvd_mult_right)
    then have "r dvd 2 * (1000 * A)" using dvd_add_left_iff [OF dvd_refl [of r]] by blast
    then have "r dvd 2000 * A" by simp
    then show "10 * (real m * 10 powi e') + 1 / 2 = real (1000 * A) / real r + 1 / 2"
      using tie mv by simp
  qed
  moreover have "num_digits T \<le> P"
  proof -
    have "T \<le> 1000 * A + 1"
    proof -
      have "2000 * A * 1 \<le> 2000 * A * r" using r by (intro mult_le_mono2) simp
      moreover have "(1000 * A + 1) * (2 * r) = 2000 * A * r + 2 * r" by (simp add: algebra_simps)
      ultimately have "2 * (1000 * A) + r \<le> (1000 * A + 1) * (2 * r)" by linarith
      then have "(2 * (1000 * A) + r) div (2 * r) \<le> (1000 * A + 1) * (2 * r) div (2 * r)"
        by (rule div_le_mono)
      also have "\<dots> = 1000 * A + 1" using r by (intro nonzero_mult_div_cancel_right) simp
      finally show ?thesis by (simp only: T_def half_up_quotient_def)
    qed
    also have "\<dots> \<le> 10000 * 10 ^ num_digits A"
      using less_10_num_digits [of A] by simp
    also have "\<dots> = 10 ^ (num_digits A + 4)" by (simp add: power_add)
    also have "\<dots> < 10 ^ P" using P by (intro power_strict_increasing) auto
    finally show ?thesis using P0 by (intro num_digits_le) auto
  qed
  ultimately have "dec_quantize_half_up P (Fin s m e') (- 1) = Some (Fin s T (- 1))"
    by (intro quantize_tenth) auto
  then show ?thesis by (simp only: div mul T_def Option.bind.simps)
qed

end
