(* ===== verification/Pricing.thy ===== *)
theory Pricing
  imports Percent_Rounding
begin

text \<open>
  Price comparison (\<open>grocery/pricing.py\<close>): the reference prices and the snapshot with the
  checks of their \<open>__post_init__\<close>, and the comparison of one snapshot with its week, month and
  year references in Python's decimal arithmetic. The main result is that the two roundings of
  the percentage (the quotient to the context precision, then to one decimal) together give the
  exact quotient rounded half up.
\<close>

section \<open>Data\<close>

datatype comparison_period = WEEK | MONTH | YEAR

definition all_periods :: "comparison_period list" where
  "all_periods = [WEEK, MONTH, YEAR]"

datatype value_status = AVAILABLE | UNAVAILABLE

datatype reference_date_status = PROVIDED | SOURCE_REFERENCE_DATE_UNAVAILABLE

datatype direction = LOWER | EQUAL | HIGHER | DIRECTION_UNAVAILABLE

datatype pricing_error =
    PriceValidationError string
  | DecimalSignal
  | PeriodKeyError

record reference_price =
  rp_period :: comparison_period
  rp_value_status :: value_status
  rp_value :: "decimal option"
  rp_unavailable_reason :: "pystr option"
  rp_date_status :: reference_date_status
  rp_date :: "date option"

record price_snapshot =
  ps_current_value :: decimal
  ps_references :: "reference_price list"

record price_comparison =
  pc_period :: comparison_period
  pc_current_value :: decimal
  pc_reference_value :: "decimal option"
  pc_difference :: "decimal option"
  pc_percentage :: "decimal option"
  pc_direction :: direction
  pc_unavailable_reason :: "pystr option"
  pc_date_status :: reference_date_status
  pc_date :: "date option"

section \<open>Validation\<close>

definition require_positive_scale_zero :: "decimal \<Rightarrow> string \<Rightarrow> pricing_error + unit" where
  "require_positive_scale_zero v field_name =
     (if \<not> dec_is_finite v then Inl (PriceValidationError (field_name @ '' must be finite''))
      else if \<not> dec_exponent_is_zero v
      then Inl (PriceValidationError (field_name @ '' must have Decimal scale 0''))
      else if \<not> dec_pos v then Inl (PriceValidationError (field_name @ '' must be greater than zero''))
      else Inr ())"

definition check_reference_value :: "reference_price \<Rightarrow> pricing_error + unit" where
  "check_reference_value r =
     (case rp_value_status r of
        AVAILABLE \<Rightarrow>
          (case (rp_value r, rp_unavailable_reason r) of
             (Some v, None) \<Rightarrow> require_positive_scale_zero v ''reference value''
           | _ \<Rightarrow> Inl (PriceValidationError
               ''an available reference requires value and forbids unavailable_reason''))
      | UNAVAILABLE \<Rightarrow>
          (case (rp_value r, rp_unavailable_reason r) of
             (None, Some reason) \<Rightarrow>
               if strip reason = []
               then Inl (PriceValidationError ''unavailable_reason must not be blank'')
               else Inr ()
           | _ \<Rightarrow> Inl (PriceValidationError
               ''an unavailable reference forbids value and requires unavailable_reason'')))"

definition reference_price_init :: "reference_price \<Rightarrow> pricing_error + reference_price" where
  "reference_price_init r =
     ebind (check_reference_value r) (\<lambda>_.
       if (rp_date r \<noteq> None) \<noteq> (rp_date_status r = PROVIDED)
       then Inl (PriceValidationError 
             ''reference_date is required only when reference_date_status is PROVIDED'')
       else Inr r)"

definition price_snapshot_init :: "price_snapshot \<Rightarrow> pricing_error + price_snapshot" where
  "price_snapshot_init s =
     ebind (require_positive_scale_zero (ps_current_value s) ''current_value'') (\<lambda>_.
       if length (ps_references s) \<noteq> 3
          \<or> set (map rp_period (ps_references s)) \<noteq> {WEEK, MONTH, YEAR}
       then Inl (PriceValidationError ''a snapshot requires exactly one WEEK, MONTH, and YEAR reference'')
       else Inr s)"

section \<open>Comparison\<close>

definition default_precision :: nat where
  "default_precision = 28"

fun coefficient_digits :: "decimal \<Rightarrow> nat" where
  "coefficient_digits (Fin s m e) = num_digits m"
| "coefficient_digits _ = 1"

definition comparison_direction :: "decimal \<Rightarrow> direction" where
  "comparison_direction difference =
     (if dec_neg difference then LOWER else if dec_pos difference then HIGHER else EQUAL)"

definition comparison_percentage :: "decimal \<Rightarrow> decimal \<Rightarrow> decimal \<Rightarrow> decimal option" where
  "comparison_percentage current reference difference =
     (let prec = max (coefficient_digits current) (coefficient_digits reference) + 16
      in Option.bind (dec_div prec difference reference) (\<lambda>ratio.
         Option.bind (dec_mul prec ratio (dec_of_int 100)) (\<lambda>percent.
         dec_quantize_half_up prec percent (- 1))))"

definition compare_reference :: "decimal \<Rightarrow> reference_price \<Rightarrow> pricing_error + price_comparison" where
  "compare_reference current r =
     (case rp_value_status r of
        UNAVAILABLE \<Rightarrow> Inr
          \<lparr>pc_period = rp_period r, pc_current_value = current, pc_reference_value = None,
           pc_difference = None, pc_percentage = None, pc_direction = DIRECTION_UNAVAILABLE,
           pc_unavailable_reason = rp_unavailable_reason r,
           pc_date_status = rp_date_status r, pc_date = rp_date r\<rparr>
      | AVAILABLE \<Rightarrow>
          (case rp_value r of
             None \<Rightarrow> Inl (PriceValidationError ''available reference is missing its value'')
           | Some reference_value \<Rightarrow>
               ebind (of_option DecimalSignal (dec_sub default_precision current reference_value)) (\<lambda>difference.
               ebind (of_option DecimalSignal (comparison_percentage current reference_value difference)) (\<lambda>percentage.
               Inr \<lparr>pc_period = rp_period r, pc_current_value = current,
                    pc_reference_value = Some reference_value, pc_difference = Some difference,
                    pc_percentage = Some percentage, pc_direction = comparison_direction difference,
                    pc_unavailable_reason = None,
                    pc_date_status = rp_date_status r, pc_date = rp_date r\<rparr>))))"

text \<open>The dictionary \<open>by_period\<close>: a later reference of a period replaces an earlier one.\<close>

definition by_period :: "reference_price list \<Rightarrow> comparison_period \<Rightarrow> reference_price option" where
  "by_period rs = map_of (map (\<lambda>r. (rp_period r, r)) (rev rs))"

definition compare_snapshot :: "price_snapshot \<Rightarrow> pricing_error + price_comparison list" where
  "compare_snapshot s =
     emap (\<lambda>p. ebind (of_option PeriodKeyError (by_period (ps_references s) p))
                     (compare_reference (ps_current_value s)))
          all_periods"


section \<open>What validation accepts\<close>

lemma require_positive_scale_zero_iff [exc_simps]:
  "require_positive_scale_zero v field_name = Inr u \<longleftrightarrow> (\<exists>m. 0 < m \<and> v = Fin False m 0)"
  by (cases v) (auto simp: require_positive_scale_zero_def)

definition reference_ok :: "reference_price \<Rightarrow> bool" where
  "reference_ok r \<longleftrightarrow> reference_price_init r = Inr r"

lemma reference_ok_available:
  assumes "reference_ok r" and "rp_value_status r = AVAILABLE"
  obtains m where "0 < m" and "rp_value r = Some (Fin False m 0)" and "rp_unavailable_reason r = None"
  using assms
  by (auto simp: reference_ok_def reference_price_init_def check_reference_value_def exc_simps
           split: option.splits if_splits)

lemma reference_ok_unavailable:
  assumes "reference_ok r" and "rp_value_status r = UNAVAILABLE"
  shows "rp_value r = None" and "\<exists>reason. rp_unavailable_reason r = Some reason \<and> strip reason \<noteq> []"
  using assms
  by (auto simp: reference_ok_def reference_price_init_def check_reference_value_def exc_simps
           split: option.splits if_splits)

lemma three_periods:
  "length ps = 3 \<and> set ps = {WEEK, MONTH, YEAR} \<longleftrightarrow> mset ps = mset all_periods"
proof
  assume ps: "length ps = 3 \<and> set ps = {WEEK, MONTH, YEAR}"
  then have "distinct ps" by (intro card_distinct) simp
  then show "mset ps = mset all_periods"
    using ps by (intro set_eq_iff_mset_eq_distinct [THEN iffD1]) (auto simp: all_periods_def)
next
  assume ps: "mset ps = mset all_periods"
  show "length ps = 3 \<and> set ps = {WEEK, MONTH, YEAR}"
    using mset_eq_length [OF ps] mset_eq_setD [OF ps] by (simp add: all_periods_def)
qed

text \<open>
  \<open>PriceSnapshot.__post_init__\<close> accepts a snapshot exactly when its current value is a positive
  whole number with exponent zero and its references are one WEEK, one MONTH and one YEAR reference.
\<close>

lemma price_snapshot_init_iff:
  "price_snapshot_init s = Inr t \<longleftrightarrow>
     t = s \<and> (\<exists>m. 0 < m \<and> ps_current_value s = Fin False m 0)
     \<and> mset (map rp_period (ps_references s)) = mset all_periods"
  using three_periods [of "map rp_period (ps_references s)"]
  by (auto simp: price_snapshot_init_def exc_simps)

section \<open>The comparison of one reference\<close>

definition tenths_of_percent :: "nat \<Rightarrow> nat \<Rightarrow> nat" where
  "tenths_of_percent c r = half_up_quotient (1000 * (if c < r then r - c else c - r)) r"

lemma dec_sub_prices:
  assumes "num_digits c \<le> p" "num_digits r \<le> p"
  shows "dec_sub p (Fin False c 0) (Fin False r 0)
           = Some (Fin (c < r) (if c < r then r - c else c - r) 0)"
proof -
  have "num_digits (if c < r then r - c else c - r) \<le> p"
    using assms num_digits_mono [of "r - c" r] num_digits_mono [of "c - r" c] by auto
  moreover have "nat \<bar>int c - int r\<bar> = (if c < r then r - c else c - r)" by auto
  ultimately show ?thesis by (auto simp: signed_def dec_fix_fits)
qed

lemma comparison_percentage_prices:
  assumes "0 < r"
  shows "comparison_percentage (Fin False c 0) (Fin False r 0)
           (Fin (c < r) (if c < r then r - c else c - r) 0)
         = Some (Fin (c < r) (tenths_of_percent c r) (- 1))"
proof -
  have "num_digits (if c < r then r - c else c - r) \<le> max (num_digits c) (num_digits r)"
    using num_digits_mono [of "r - c" r] num_digits_mono [of "c - r" c] by auto
  then show ?thesis
    using percent_pipeline [OF assms] unfolding comparison_percentage_def tenths_of_percent_def
    by (simp add: Let_def)
qed

lemma comparison_direction_prices:
  "comparison_direction (Fin (c < r) (if c < r then r - c else c - r) 0)
     = (if c < r then LOWER else if c = r then EQUAL else HIGHER)"
  by (simp add: comparison_direction_def)

lemma compare_reference_prices:
  assumes "rp_value_status r = AVAILABLE" and "rp_value r = Some (Fin False b 0)"
    and "0 < b" and "b < 10 ^ 28" and "c < 10 ^ 28"
  shows "compare_reference (Fin False c 0) r = Inr
    \<lparr>pc_period = rp_period r, pc_current_value = Fin False c 0,
     pc_reference_value = Some (Fin False b 0),
     pc_difference = Some (Fin (c < b) (if c < b then b - c else c - b) 0),
     pc_percentage = Some (Fin (c < b) (tenths_of_percent c b) (- 1)),
     pc_direction = (if c < b then LOWER else if c = b then EQUAL else HIGHER),
     pc_unavailable_reason = None, pc_date_status = rp_date_status r, pc_date = rp_date r\<rparr>"
proof -
  have "num_digits c \<le> default_precision" "num_digits b \<le> default_precision"
    using assms(4,5) by (auto simp: default_precision_def intro: num_digits_le)
  then show ?thesis
    using assms(1-3)
    by (simp add: compare_reference_def dec_sub_prices comparison_percentage_prices
                  comparison_direction_prices del: dec_sub.simps)
qed

text \<open>
  C1: the comparison of a whole positive price with an available whole positive reference (both
  below \<open>10 ^ 28\<close>, the digits of the default decimal context) is exact: the difference is the
  true difference, the direction its sign, and the percentage, computed by a rounded quotient, a
  product and a quantisation, is the true percentage rounded half up (away from zero) to one
  decimal; the double rounding never shows.
\<close>

theorem compare_reference_exact:
  assumes "rp_value_status r = AVAILABLE" and "rp_value r = Some (Fin False b 0)"
    and "0 < b" and "b < 10 ^ 28" and "c < 10 ^ 28"
  shows "compare_reference (Fin False c 0) r = Inr
    \<lparr>pc_period = rp_period r, pc_current_value = Fin False c 0,
     pc_reference_value = Some (Fin False b 0),
     pc_difference = Some (Fin (c < b) (if c < b then b - c else c - b) 0),
     pc_percentage = Some (Fin (c < b) (tenths_of_percent c b) (- 1)),
     pc_direction = (if c < b then LOWER else if c = b then EQUAL else HIGHER),
     pc_unavailable_reason = None, pc_date_status = rp_date_status r, pc_date = rp_date r\<rparr>"
  by (rule compare_reference_prices [OF assms])

lemma compare_reference_exact_witness:
  "compare_reference (Fin False 1000 0)
     \<lparr>rp_period = WEEK, rp_value_status = AVAILABLE, rp_value = Some (Fin False 1600 0),
      rp_unavailable_reason = None, rp_date_status = SOURCE_REFERENCE_DATE_UNAVAILABLE, rp_date = None\<rparr>
   = Inr \<lparr>pc_period = WEEK, pc_current_value = Fin False 1000 0,
          pc_reference_value = Some (Fin False 1600 0), pc_difference = Some (Fin True 600 0),
          pc_percentage = Some (Fin True 375 (- 1)), pc_direction = LOWER,
          pc_unavailable_reason = None, pc_date_status = SOURCE_REFERENCE_DATE_UNAVAILABLE,
          pc_date = None\<rparr>"
  by (subst compare_reference_exact [where b = 1600])
     (simp_all add: tenths_of_percent_def half_up_quotient_def)

lemma tenths_of_percent_bounds:
  assumes "0 < b"
  shows "2 * \<bar>int b * int (tenths_of_percent c b) - 1000 * \<bar>int c - int b\<bar>\<bar> \<le> int b"
    and "tenths_of_percent c b = 0 \<longleftrightarrow> 2000 * \<bar>int c - int b\<bar> < int b"
proof -
  let ?a = "if c < b then b - c else c - b"
  have a: "\<bar>int c - int b\<bar> = int ?a" by auto
  show "2 * \<bar>int b * int (tenths_of_percent c b) - 1000 * \<bar>int c - int b\<bar>\<bar> \<le> int b"
    using half_up_quotient_nearest [OF assms, of "1000 * ?a"]
    unfolding a tenths_of_percent_def
    by (simp only: of_nat_mult of_nat_numeral mult.assoc abs_mult flip: right_diff_distrib) simp
  have "tenths_of_percent c b = 0 \<longleftrightarrow> 2 * (1000 * ?a) + b < 2 * b"
    unfolding tenths_of_percent_def half_up_quotient_def using assms by (subst div_eq_0_iff) simp
  then show "tenths_of_percent c b = 0 \<longleftrightarrow> 2000 * \<bar>int c - int b\<bar> < int b"
    unfolding a by linarith
qed

text \<open>
  C2: the reported percentage of two prices is a number of tenths of a percent within half a tenth
  of the true relative difference, and it is zero exactly when the prices differ by less than a
  two-thousandth of the reference: then the direction may still be LOWER or HIGHER.
\<close>

theorem tenths_of_percent_nearest:
  assumes "rp_value_status r = AVAILABLE" and "rp_value r = Some (Fin False b 0)"
    and "0 < b" and "b < 10 ^ 28" and "c < 10 ^ 28" and "compare_reference (Fin False c 0) r = Inr x"
  shows "\<exists>t. pc_percentage x = Some (Fin (c < b) t (- 1))
    \<and> 2 * \<bar>int b * int t - 1000 * \<bar>int c - int b\<bar>\<bar> \<le> int b
    \<and> (t = 0 \<longleftrightarrow> 2000 * \<bar>int c - int b\<bar> < int b)"
  using compare_reference_prices [OF assms(1-5)] assms(6) tenths_of_percent_bounds [OF assms(3), of c] by auto

section \<open>The comparison of a snapshot\<close>

lemma by_period_Some:
  assumes "mset (map rp_period rs) = mset all_periods" and "r \<in> set rs"
  shows "by_period rs (rp_period r) = Some r"
proof -
  have "distinct (map rp_period rs)"
    using assms(1) by (metis mset_eq_imp_distinct_iff all_periods_def comparison_period.distinct(1,3,5)
        distinct.simps empty_iff empty_set set_ConsD)
  then have "distinct (map fst (map (\<lambda>r. (rp_period r, r)) (rev rs)))"
    by (simp add: comp_def flip: rev_map)
  then show ?thesis unfolding by_period_def using assms(2) by (intro map_of_is_SomeI) auto
qed

lemma compare_reference_total:
  assumes "reference_ok r" and "c < 10 ^ 28"
    and "\<And>b. rp_value r = Some (Fin False b 0) \<Longrightarrow> b < 10 ^ 28"
  shows "\<exists>x. compare_reference (Fin False c 0) r = Inr x \<and> pc_period x = rp_period r"
proof (cases "rp_value_status r")
  case AVAILABLE
  then obtain b where "0 < b" "rp_value r = Some (Fin False b 0)"
    using reference_ok_available [OF assms(1)] by metis
  then show ?thesis
    using AVAILABLE assms(2,3) by (simp add: compare_reference_prices)
next
  case UNAVAILABLE
  then show ?thesis by (simp add: compare_reference_def)
qed


definition price_in_context :: "decimal \<Rightarrow> bool" where
  "price_in_context v \<longleftrightarrow> dec_less v (Fin False 1 28)"

lemma price_in_context_iff [simp]: "price_in_context (Fin False m 0) \<longleftrightarrow> m < 10 ^ 28"
  by (auto simp: price_in_context_def dec_less_def signed_def)

lemma by_period_compares:
  assumes "mset (map rp_period rs) = mset all_periods" and "p \<in> set all_periods"
    and "\<And>r. r \<in> set rs \<Longrightarrow> \<exists>x. f r = Inr x \<and> pc_period x = rp_period r"
  obtains r x where "r \<in> set rs" "rp_period r = p" "by_period rs p = Some r"
    "f r = Inr x" "pc_period x = p"
proof -
  have "p \<in> rp_period ` set rs"
    using assms(1,2) by (metis list.set_map set_mset_mset)
  then obtain r where "r \<in> set rs" "rp_period r = p" by auto
  then show ?thesis using assms(3) [of r] by_period_Some [OF assms(1)] that by blast
qed

lemma compare_snapshot_periods:
  assumes "price_snapshot_init s = Inr s" and "\<forall>r \<in> set (ps_references s). reference_ok r"
    and "price_in_context (ps_current_value s)"
    and "\<forall>r \<in> set (ps_references s). \<forall>v. rp_value r = Some v \<longrightarrow> price_in_context v"
  shows "\<exists>xs. compare_snapshot s = Inr xs \<and> map pc_period xs = [WEEK, MONTH, YEAR]
    \<and> (\<forall>r \<in> set (ps_references s). \<exists>x \<in> set xs. pc_period x = rp_period r
         \<and> compare_reference (ps_current_value s) r = Inr x)"
proof -
  let ?rs = "ps_references s" and ?f = "compare_reference (ps_current_value s)"
  have ps: "mset (map rp_period ?rs) = mset all_periods"
    using assms(1) by (simp add: price_snapshot_init_iff)
  obtain c where c: "ps_current_value s = Fin False c 0" "c < 10 ^ 28"
    using assms(1,3) by (auto simp: price_snapshot_init_iff)
  have total: "\<exists>x. ?f r = Inr x \<and> pc_period x = rp_period r" if "r \<in> set ?rs" for r
    unfolding c(1) using assms(2,4) that c(2) by (intro compare_reference_total) auto
  note pick = by_period_compares [OF ps _ total]
  obtain rw xw where w: "by_period ?rs WEEK = Some rw" "?f rw = Inr xw" "pc_period xw = WEEK"
    by (rule pick [of WEEK]) (auto simp: all_periods_def)
  obtain rm xm where m: "by_period ?rs MONTH = Some rm" "?f rm = Inr xm" "pc_period xm = MONTH"
    by (rule pick [of MONTH]) (auto simp: all_periods_def)
  obtain ry xy where y: "by_period ?rs YEAR = Some ry" "?f ry = Inr xy" "pc_period xy = YEAR"
    by (rule pick [of YEAR]) (auto simp: all_periods_def)
  have run: "compare_snapshot s = Inr [xw, xm, xy]"
    by (simp add: compare_snapshot_def all_periods_def w m y)
  have "\<exists>x \<in> set [xw, xm, xy]. pc_period x = rp_period r \<and> ?f r = Inr x" if "r \<in> set ?rs" for r
    using by_period_Some [OF ps that] w m y by (cases "rp_period r") auto
  then show ?thesis using run w m y by auto
qed

text \<open>
  C3: comparing an accepted snapshot never fails (prices below \<open>10 ^ 28\<close>), and returns the
  comparisons of its week, month and year references in that order, whatever order the snapshot
  lists them in, each one the comparison of the reference of its period.
\<close>

theorem compare_snapshot_in_period_order:
  assumes "price_snapshot_init s = Inr s" and "\<forall>r \<in> set (ps_references s). reference_ok r"
    and "price_in_context (ps_current_value s)"
    and "\<forall>r \<in> set (ps_references s). \<forall>v. rp_value r = Some v \<longrightarrow> price_in_context v"
  shows "\<exists>xs. compare_snapshot s = Inr xs \<and> map pc_period xs = [WEEK, MONTH, YEAR]
    \<and> (\<forall>r \<in> set (ps_references s). \<exists>x \<in> set xs. pc_period x = rp_period r
         \<and> compare_reference (ps_current_value s) r = Inr x)"
  by (rule compare_snapshot_periods [OF assms])

definition example_reference :: "comparison_period \<Rightarrow> nat \<Rightarrow> reference_price" where
  "example_reference p m = \<lparr>rp_period = p, rp_value_status = AVAILABLE,
     rp_value = Some (Fin False m 0), rp_unavailable_reason = None,
     rp_date_status = SOURCE_REFERENCE_DATE_UNAVAILABLE, rp_date = None\<rparr>"

definition example_snapshot :: price_snapshot where
  "example_snapshot = \<lparr>ps_current_value = Fin False 20 0, ps_references =
     [\<lparr>rp_period = YEAR, rp_value_status = UNAVAILABLE, rp_value = None,
       rp_unavailable_reason = Some [65], rp_date_status = PROVIDED, rp_date = Some (2025, 1, 2)\<rparr>,
      example_reference WEEK 10, example_reference MONTH 30]\<rparr>"

lemma example_snapshot_ok:
  "price_snapshot_init example_snapshot = Inr example_snapshot"
  "\<forall>r \<in> set (ps_references example_snapshot). reference_ok r"
  "price_in_context (ps_current_value example_snapshot)"
  "\<forall>r \<in> set (ps_references example_snapshot). \<forall>v. rp_value r = Some v \<longrightarrow> price_in_context v"
  by (simp_all add: example_snapshot_def example_reference_def price_snapshot_init_iff
        all_periods_def add_mset_commute reference_ok_def reference_price_init_def
        check_reference_value_def require_positive_scale_zero_def strip_def is_space_def)

lemma compare_snapshot_in_period_order_witness:
  "\<exists>xs. compare_snapshot example_snapshot = Inr xs \<and> map pc_period xs = [WEEK, MONTH, YEAR]"
  using compare_snapshot_in_period_order [OF example_snapshot_ok] by (elim exE conjE) (intro exI conjI)

lemma tenths_of_percent_nearest_witness:
  "\<exists>x. compare_reference (Fin False 20001 0) (example_reference WEEK 20000) = Inr x
     \<and> pc_percentage x = Some (Fin False 0 (- 1)) \<and> pc_direction x = HIGHER"
proof -
  let ?r = "example_reference WEEK 20000"
  have r: "rp_value_status ?r = AVAILABLE" "rp_value ?r = Some (Fin False 20000 0)" by (simp_all add: example_reference_def)
  obtain x where x: "compare_reference (Fin False 20001 0) ?r = Inr x" "pc_direction x = HIGHER"
    using compare_reference_prices [OF r, of 20001] by simp
  then show ?thesis using tenths_of_percent_nearest [OF r _ _ _ x(1)] by auto
qed

end
