(* ===== verification/Py_Json.thy ===== *)
theory Py_Json
  imports Sha256
begin

text \<open>
  JSON values as \<open>json.loads\<close> returns them, the text \<open>json.dumps\<close> writes with
  \<open>sort_keys=True, separators=(",", ":")\<close>, its encoding and its digest: the canonical hash
  of the repository. A float is carried as the text \<open>repr\<close> gives it; no digest of the
  repository is over a float.
\<close>

datatype json =
    JNull
  | JBool bool
  | JInt int
  | JFloat pystr
  | JStr pystr
  | JArr "json list"
  | JObj "(pystr \<times> json) list"

fun is_jstr :: "json \<Rightarrow> bool" where
  "is_jstr (JStr _) = True"
| "is_jstr _ = False"

definition jstr_opt :: "pystr option \<Rightarrow> json" where
  "jstr_opt x = (case x of None \<Rightarrow> JNull | Some s \<Rightarrow> JStr s)"

section \<open>Serialisation\<close>

definition hex4 :: "nat \<Rightarrow> pystr" where
  "hex4 n = map (\<lambda>i. hex_digit (n div 16 ^ (3 - i) mod 16)) [0..<4]"

text \<open>One character of a JSON string; \<open>a\<close> is \<open>ensure_ascii\<close>.\<close>

definition escape_char :: "bool \<Rightarrow> nat \<Rightarrow> pystr" where
  "escape_char a c =
     (if c = 34 then [92, 34]
      else if c = 92 then [92, 92]
      else if c = 10 then [92, 110]
      else if c = 13 then [92, 114]
      else if c = 9 then [92, 116]
      else if c = 12 then [92, 102]
      else if c = 8 then [92, 98]
      else if c < 32 then [92, 117] @ hex4 c
      else if \<not> a \<or> c \<le> 126 then [c]
      else if c < 65536 then [92, 117] @ hex4 c
      else [92, 117] @ hex4 (55296 + (c - 65536) div 1024)
           @ [92, 117] @ hex4 (56320 + (c - 65536) mod 1024))"

definition quote :: "bool \<Rightarrow> pystr \<Rightarrow> pystr" where
  "quote a s = [34] @ concat (map (escape_char a) s) @ [34]"

fun join :: "pystr \<Rightarrow> pystr list \<Rightarrow> pystr" where
  "join sep [] = []"
| "join sep [x] = x"
| "join sep (x # y # ys) = x @ sep @ join sep (y # ys)"

fun dumps :: "bool \<Rightarrow> json \<Rightarrow> pystr" where
  "dumps a JNull = lit ''null''"
| "dumps a (JBool b) = (if b then lit ''true'' else lit ''false'')"
| "dumps a (JInt i) = int_text i"
| "dumps a (JFloat t) = t"
| "dumps a (JStr s) = quote a s"
| "dumps a (JArr xs) = [91] @ join [44] (map (dumps a) xs) @ [93]"
| "dumps a (JObj kvs) =
     [123] @ join [44] (map (\<lambda>(k, t). quote a k @ [58] @ t)
                         (sort_key fst (map (\<lambda>(k, v). (k, dumps a v)) kvs))) @ [125]"

section \<open>Encoding and canonical hashes\<close>

text \<open>\<open>str.encode("utf-8")\<close>: a surrogate code point raises \<open>UnicodeEncodeError\<close>.\<close>

definition utf8_char :: "nat \<Rightarrow> nat list option" where
  "utf8_char c =
     (if c < 128 then Some [c]
      else if c < 2048 then Some [192 + c div 64, 128 + c mod 64]
      else if 55296 \<le> c \<and> c \<le> 57343 then None
      else if c < 65536 then Some [224 + c div 4096, 128 + c div 64 mod 64, 128 + c mod 64]
      else Some [240 + c div 262144, 128 + c div 4096 mod 64, 128 + c div 64 mod 64, 128 + c mod 64])"

definition surrogate :: "nat \<Rightarrow> bool" where
  "surrogate c \<longleftrightarrow> 55296 \<le> c \<and> c \<le> 57343"

fun utf8 :: "pystr \<Rightarrow> nat list option" where
  "utf8 [] = Some []"
| "utf8 (c # cs) =
     (case utf8_char c of None \<Rightarrow> None
      | Some bs \<Rightarrow> (case utf8 cs of None \<Rightarrow> None | Some bs' \<Rightarrow> Some (bs @ bs')))"

lemma utf8_char_None: "utf8_char c = None \<longleftrightarrow> surrogate c"
  by (simp add: utf8_char_def surrogate_def)

lemma utf8_None: "utf8 s = None \<longleftrightarrow> (\<exists>c \<in> set s. surrogate c)"
proof (induction s)
  case Nil
  then show ?case by simp
next
  case (Cons c s)
  then show ?case using utf8_char_None [of c]
    by (cases "utf8_char c"; cases "utf8 s") auto
qed

text \<open>\<open>hashlib.sha256(json.dumps(value, ensure_ascii=False, ...).encode("utf-8"))\<close>.\<close>

definition canonical_hash :: "json \<Rightarrow> pystr option" where
  "canonical_hash j = map_option sha256 (utf8 (dumps False j))"

text \<open>The same with \<open>ensure_ascii=True\<close> and \<open>.encode("ascii")\<close>, which never fails.\<close>

definition canonical_hash_ascii :: "json \<Rightarrow> pystr" where
  "canonical_hash_ascii j = sha256 (dumps True j)"

lemma canonical_hash_text: "canonical_hash j = Some h \<Longrightarrow> sha256_text h"
  by (auto simp: canonical_hash_def)

lemma canonical_hash_ascii_text [simp]: "sha256_text (canonical_hash_ascii j)"
  by (simp add: canonical_hash_ascii_def)

text \<open>An object is hashed in the order of its keys, so the order it arrives in is irrelevant.\<close>

lemma dumps_obj_mset_cong:
  assumes "mset kvs = mset kvs'" and "distinct (map fst kvs)"
  shows "dumps a (JObj kvs) = dumps a (JObj kvs')"
proof -
  let ?f = "\<lambda>(k, v). (k, dumps a v)"
  have "mset (map ?f kvs) = mset (map ?f kvs')"
    using assms(1) by simp
  moreover have "map fst (map ?f kvs) = map fst kvs"
    by (simp add: case_prod_beta comp_def)
  ultimately have "sort_key fst (map ?f kvs) = sort_key fst (map ?f kvs')"
    using assms(2) by (metis sort_key_mset_cong)
  then show ?thesis by simp
qed


section \<open>When a hash exists\<close>

definition surrogate_free :: "pystr \<Rightarrow> bool" where
  "surrogate_free s \<longleftrightarrow> list_all (\<lambda>c. \<not> surrogate c) s"

fun clean_json :: "json \<Rightarrow> bool" where
  "clean_json (JFloat t) = surrogate_free t"
| "clean_json (JStr s) = surrogate_free s"
| "clean_json (JArr xs) = list_all clean_json xs"
| "clean_json (JObj kvs) = list_all (\<lambda>(k, v). surrogate_free k \<and> clean_json v) kvs"
| "clean_json _ = True"

lemma surrogate_free_append [simp]:
  "surrogate_free (s @ t) \<longleftrightarrow> surrogate_free s \<and> surrogate_free t"
  by (simp add: surrogate_free_def)

lemma surrogate_free_Cons [simp]: "surrogate_free (c # s) \<longleftrightarrow> \<not> surrogate c \<and> surrogate_free s"
  by (simp add: surrogate_free_def)

lemma surrogate_free_Nil [simp]: "surrogate_free []"
  by (simp add: surrogate_free_def)

lemma surrogate_free_concat: "surrogate_free (concat ss) \<longleftrightarrow> list_all surrogate_free ss"
  by (induction ss) auto

lemma surrogate_free_small: "(\<And>c. c \<in> set s \<Longrightarrow> c < 55296) \<Longrightarrow> surrogate_free s"
  by (fastforce simp: surrogate_free_def list_all_iff surrogate_def)

lemma surrogate_free_lit [simp]: "surrogate_free (lit s)"
proof (rule surrogate_free_small)
  fix c
  assume "c \<in> set (lit s)"
  then obtain x :: char where "c = of_char x" by (auto simp: lit_def)
  then have "c < 256" using nat_of_char_less_256 [of x] by simp
  then show "c < 55296" by simp
qed

lemma surrogate_free_join:
  "surrogate_free sep \<Longrightarrow> surrogate_free (join sep xs) \<longleftrightarrow> list_all surrogate_free xs"
  by (induction sep xs rule: join.induct) auto

lemma surrogate_free_hex4 [simp]: "surrogate_free (hex4 n)"
proof (rule surrogate_free_small)
  fix c
  assume "c \<in> set (hex4 n)"
  then obtain d where "c = hex_digit (d mod 16)" by (auto simp: hex4_def)
  moreover have "d mod 16 < 16" by simp
  ultimately show "c < 55296" by (auto simp: hex_digit_def)
qed

lemma surrogate_free_escape: "surrogate_free (escape_char False c) \<longleftrightarrow> \<not> surrogate c"
  by (auto simp: escape_char_def surrogate_def)

lemma surrogate_free_quote: "surrogate_free (quote False s) \<longleftrightarrow> surrogate_free s"
proof -
  have "surrogate_free (quote False s) \<longleftrightarrow> list_all (\<lambda>c. surrogate_free (escape_char False c)) s"
    by (simp add: quote_def surrogate_free_concat list.pred_map comp_def surrogate_def)
  then show ?thesis by (simp add: surrogate_free_escape) (simp add: surrogate_free_def)
qed

lemma surrogate_free_digits: "all_digits s \<Longrightarrow> surrogate_free s"
  by (auto simp: all_digits_def surrogate_free_def list_all_iff is_digit_def surrogate_def)

lemma surrogate_free_int_text [simp]: "surrogate_free (int_text i)"
  by (simp add: int_text_def surrogate_free_digits all_digits_nat_text) (simp add: surrogate_def)

lemma surrogate_free_dumps: "surrogate_free (dumps False j) \<longleftrightarrow> clean_json j"
proof (induction j)
  case (JArr xs)
  have "surrogate_free (dumps False (JArr xs)) \<longleftrightarrow> list_all (\<lambda>x. surrogate_free (dumps False x)) xs"
    by (simp add: surrogate_free_join list.pred_map comp_def surrogate_def)
  with JArr show ?case by (simp add: list_all_iff)
next
  case (JObj kvs)
  let ?ts = "map (\<lambda>(k, v). (k, dumps False v)) kvs"
  have "surrogate_free (dumps False (JObj kvs))
      \<longleftrightarrow> (\<forall>(k, t) \<in> set (sort_key fst ?ts). surrogate_free (quote False k @ [58] @ t))"
    by (simp add: surrogate_free_join list_all_iff surrogate_def) (simp add: case_prod_beta surrogate_def)
  also have "\<dots> \<longleftrightarrow> (\<forall>(k, v) \<in> set kvs. surrogate_free (quote False k) \<and> surrogate_free (dumps False v))"
    by (auto simp: surrogate_def split: prod.splits)
  also have "\<dots> \<longleftrightarrow> clean_json (JObj kvs)"
    using JObj by (fastforce simp: surrogate_free_quote list_all_iff split: prod.splits)
  finally show ?case .
qed (simp_all add: surrogate_free_quote)

lemma canonical_hash_None: "canonical_hash j = None \<longleftrightarrow> \<not> clean_json j"
  by (simp add: canonical_hash_def utf8_None flip: surrogate_free_dumps)
     (auto simp: surrogate_free_def list_all_iff)

lemma canonical_hash_Some: "clean_json j \<Longrightarrow> \<exists>h. canonical_hash j = Some h"
  using canonical_hash_None [of j] by blast

lemma surrogate_free_sha256_text: "sha256_text h \<Longrightarrow> surrogate_free h"
  by (rule surrogate_free_small)
     (auto simp: sha256_text_def is_lower_hex_def is_digit_def list_all_iff)

end
