(* ===== verification/Db_Tables.thy ===== *)
theory Db_Tables
  imports Py_Json
begin

text \<open>
  The database as the models of \<open>grocery/models.py\<close> use it. A table is the list of its rows in
  the order they were added, read through the field that is its primary key; a state is the
  record of the tables. A raised exception leaves no state, which is what
  \<open>transaction.atomic\<close> does with the writes of its block. A \<open>UUID\<close> is its 128-bit number, an
  aware \<open>datetime\<close> its instant; a value drawn by \<open>uuid.uuid4\<close> or read from
  \<open>timezone.now\<close> is an argument of the operation that uses it.
\<close>

type_synonym uuid = nat
type_synonym instant = int

text \<open>
  \<open>FullClean\<close> is the \<open>ValidationError\<close> that \<open>full_clean\<close> raises for the named model, with
  the messages of all its fields and constraints; \<open>IntegrityError\<close> is raised by the database.
\<close>

datatype db_error =
    ValidationError string
  | FullClean string
  | IntegrityError string
  | DoesNotExist string
  | PermissionDenied string
  | UncaughtError string

section \<open>Tables\<close>

definition get_row :: "('r \<Rightarrow> 'k) \<Rightarrow> 'k \<Rightarrow> 'r list \<Rightarrow> 'r option" where
  "get_row key k rows = find (\<lambda>r. key r = k) rows"

text \<open>An \<open>UPDATE\<close> of the row with the key of \<open>r\<close>.\<close>

definition put_row :: "('r \<Rightarrow> 'k) \<Rightarrow> 'r \<Rightarrow> 'r list \<Rightarrow> 'r list" where
  "put_row key r rows = map (\<lambda>x. if key x = key r then r else x) rows"

text \<open>A \<open>save\<close> that updates the row with this key if there is one and inserts it otherwise.\<close>

definition upsert_row :: "('r \<Rightarrow> 'k) \<Rightarrow> 'r \<Rightarrow> 'r list \<Rightarrow> 'r list" where
  "upsert_row key r rows = (if key r \<in> set (map key rows) then put_row key r rows else rows @ [r])"

lemma find_Some_member: "find P xs = Some x \<Longrightarrow> x \<in> set xs \<and> P x"
  by (induction xs) (auto split: if_splits)

lemma get_row_Nil [simp]: "get_row key k [] = None"
  by (simp add: get_row_def)

lemma get_row_Cons [simp]: "get_row key k (r # rows) = (if key r = k then Some r else get_row key k rows)"
  by (simp add: get_row_def)

lemma get_row_Some: "get_row key k rows = Some r \<Longrightarrow> r \<in> set rows \<and> key r = k"
  by (induction rows) (auto split: if_splits)

lemma get_row_None: "get_row key k rows = None \<longleftrightarrow> k \<notin> key ` set rows"
  by (induction rows) auto

lemma get_row_append:
  "get_row key k (rows @ rows') = (case get_row key k rows of None \<Rightarrow> get_row key k rows' | Some r \<Rightarrow> Some r)"
  by (induction rows) auto

lemma get_row_member: "distinct (map key rows) \<Longrightarrow> r \<in> set rows \<Longrightarrow> get_row key (key r) rows = Some r"
  by (induction rows) (auto simp: image_iff)

lemma get_row_put:
  "get_row key k (put_row key r rows) =
     (if k = key r \<and> get_row key k rows \<noteq> None then Some r else get_row key k rows)"
  by (induction rows) (auto simp: put_row_def)

lemma put_row_keys [simp]: "map key (put_row key r rows) = map key rows"
  by (simp add: put_row_def)

lemma put_row_keys_set [simp]: "key ` set (put_row key r rows) = key ` set rows"
  by (metis put_row_keys set_map)

lemma put_row_set: "x \<in> set (put_row key r rows) \<Longrightarrow> x = r \<or> x \<in> set rows \<and> key x \<noteq> key r"
  by (auto simp: put_row_def split: if_splits)

lemma put_row_other: "x \<in> set rows \<Longrightarrow> key x \<noteq> key r \<Longrightarrow> x \<in> set (put_row key r rows)"
  by (auto simp: put_row_def)

lemma put_row_same: "key r \<in> key ` set rows \<Longrightarrow> r \<in> set (put_row key r rows)"
  by (auto simp: put_row_def)

lemma get_row_upsert: "get_row key k (upsert_row key r rows) = (if k = key r then Some r else get_row key k rows)"
  using get_row_None [of key "key r" rows]
  by (auto simp: upsert_row_def get_row_put get_row_append split: option.split)

lemma upsert_upsert [simp]:
  "key a = key b \<Longrightarrow> upsert_row key a (upsert_row key b rows) = upsert_row key a rows"
  by (induction rows) (auto simp: upsert_row_def put_row_def)

lemma upsert_row_set: "x \<in> set (upsert_row key r rows) \<Longrightarrow> x = r \<or> x \<in> set rows \<and> key x \<noteq> key r"
  using put_row_set [of x key r rows] by (auto simp: upsert_row_def image_iff split: if_splits)

lemma upsert_row_keys [simp]: "key ` set (upsert_row key r rows) = insert (key r) (key ` set rows)"
  by (auto simp: upsert_row_def)

lemma distinct_upsert [simp]: "distinct (map key (upsert_row key r rows)) \<longleftrightarrow> distinct (map key rows)"
  by (auto simp: upsert_row_def)

lemma put_row_id: "distinct (map key rows) \<Longrightarrow> r \<in> set rows \<Longrightarrow> put_row key r rows = rows"
  by (auto simp: put_row_def distinct_map inj_on_def intro!: map_idI)

lemma filter_put_row:
  "(\<And>x. x \<in> set rows \<Longrightarrow> key x = key r \<Longrightarrow> \<not> P x) \<Longrightarrow> \<not> P r \<Longrightarrow> filter P (put_row key r rows) = filter P rows"
  by (induction rows) (auto simp: put_row_def)

section \<open>Column types\<close>

text \<open>The upper bounds PostgreSQL and Django's validators give the positive integer fields.\<close>

definition small_field :: "nat \<Rightarrow> bool" where
  "small_field n \<longleftrightarrow> n \<le> 32767"

definition integer_field :: "nat \<Rightarrow> bool" where
  "integer_field n \<longleftrightarrow> n \<le> 2147483647"

definition big_field :: "nat \<Rightarrow> bool" where
  "big_field n \<longleftrightarrow> n \<le> 9223372036854775807"

text \<open>A \<open>CharField(max_length=n)\<close>, which may not be blank unless the model says so.\<close>

definition char_field :: "nat \<Rightarrow> pystr \<Rightarrow> bool" where
  "char_field n s \<longleftrightarrow> s \<noteq> [] \<and> length s \<le> n"

definition blank_field :: "nat \<Rightarrow> pystr \<Rightarrow> bool" where
  "blank_field n s \<longleftrightarrow> length s \<le> n"

text \<open>\<open>sha256_validator\<close>: \<open>RegexValidator\<close> searches, so \<open>$\<close> admits one final newline.\<close>

definition SHA256_PATTERN :: "pystr \<Rightarrow> bool" where
  "SHA256_PATTERN s \<longleftrightarrow> sha256_text s"

definition sha256_validator :: "pystr \<Rightarrow> bool" where
  "sha256_validator s \<longleftrightarrow> dollar sha256_text s"

definition code_validator :: "pystr \<Rightarrow> bool" where
  "code_validator s \<longleftrightarrow> dollar upper_code s"

lemma SHA256_PATTERN_length: "SHA256_PATTERN s \<Longrightarrow> s \<noteq> [] \<and> length s = 64"
  by (auto simp: SHA256_PATTERN_def sha256_text_def)

lemma SHA256_PATTERN_validator [simp]: "SHA256_PATTERN s \<Longrightarrow> sha256_validator s"
  by (simp add: SHA256_PATTERN_def sha256_validator_def dollar_def)

lemma SHA256_PATTERN_field [simp]: "SHA256_PATTERN s \<Longrightarrow> char_field 64 s" "SHA256_PATTERN s \<Longrightarrow> blank_field 64 s"
  by (auto simp: char_field_def blank_field_def SHA256_PATTERN_def sha256_text_def)

end
