(* ===== verification/Db_Models.thy ===== *)
theory Db_Models
  imports Db_Tables
begin

text \<open>
  The models of the acquisition side (\<open>grocery/models.py\<close>): source configurations with their
  timestamp correction, artifacts, fetch attempts and page receipts. A \<open>TextChoices\<close> class is a
  datatype (\<open>None\<close> is the blank choice), so a constraint that a column holds one of its choices
  is the type of the field. For each model: its columns, what its field validators accept, and
  its check constraints.
\<close>

section \<open>Validators\<close>

fun contains_text :: "pystr \<Rightarrow> pystr \<Rightarrow> bool" where
  "contains_text t [] = (t = [])"
| "contains_text t (c # s) = (take (length t) (c # s) = t \<or> contains_text t s)"

definition host_end :: "nat \<Rightarrow> bool" where
  "host_end c \<longleftrightarrow> is_lower c \<or> is_digit c"

definition host_inner :: "nat \<Rightarrow> bool" where
  "host_inner c \<longleftrightarrow> host_end c \<or> c = 46 \<or> c = 45"

text \<open>\<open>[a-z0-9](?:[a-z0-9.-]*[a-z0-9])?\<close>\<close>

definition validate_endpoint_host :: "pystr \<Rightarrow> bool" where
  "validate_endpoint_host s \<longleftrightarrow> s \<noteq> [] \<and> host_end (hd s) \<and> host_end (last s) \<and> list_all host_inner s"

definition validate_endpoint_path :: "pystr \<Rightarrow> bool" where
  "validate_endpoint_path s \<longleftrightarrow> take 1 s = lit ''/'' \<and> \<not> list_ex (\<lambda>c. c \<in> {63, 35, 13, 10}) s"

definition validate_redacted_request_shape :: "pystr \<Rightarrow> bool" where
  "validate_redacted_request_shape s \<longleftrightarrow>
     \<not> (contains_text (lit ''://'') s \<or> 63 \<in> set s \<or> 13 \<in> set s \<or> 10 \<in> set s)"

section \<open>Source configurations\<close>

datatype source_state = DRAFT | RIGHTS_APPROVED | ACTIVE | PAUSED | REJECTED

datatype publication_mode =
    RECENT_COMPARISON | CURRENT_ONLY | STATIC_MONTHLY_FILE
  | HISTORICAL_MONTHLY | HISTORICAL_REGIONAL | HISTORICAL_MARKET

fun mode_value :: "publication_mode \<Rightarrow> pystr" where
  "mode_value RECENT_COMPARISON = lit ''RECENT_COMPARISON''"
| "mode_value CURRENT_ONLY = lit ''CURRENT_ONLY''"
| "mode_value STATIC_MONTHLY_FILE = lit ''STATIC_MONTHLY_FILE''"
| "mode_value HISTORICAL_MONTHLY = lit ''HISTORICAL_MONTHLY''"
| "mode_value HISTORICAL_REGIONAL = lit ''HISTORICAL_REGIONAL''"
| "mode_value HISTORICAL_MARKET = lit ''HISTORICAL_MARKET''"

datatype endpoint_scheme = HTTPS
datatype endpoint_method = GET
datatype authentication_mode = NO_AUTHENTICATION | DATA_GO_KR_SERVICE_KEY
datatype raw_retention = HASH_ONLY
datatype quota_period = UNSPECIFIED | DAY | SECOND
datatype retry_policy = BOUNDED_TRANSIENT_ONLY
datatype schedule_execution_mode = PLATFORM_SINGLETON

record source_configuration =
  sc_id :: uuid
  sc_source_owner_name :: pystr
  sc_dataset_id :: pystr
  sc_configuration_revision :: pystr
  sc_interface_revision :: pystr
  sc_state :: source_state
  sc_state_changed_at :: instant
  sc_publication_mode :: publication_mode
  sc_coverage_identity :: pystr
  sc_coverage_evidence_revision :: pystr
  sc_endpoint_scheme :: endpoint_scheme
  sc_endpoint_host :: pystr
  sc_endpoint_path :: pystr
  sc_endpoint_method :: endpoint_method
  sc_authentication_mode :: authentication_mode
  sc_logical_secret_name :: pystr
  sc_provider_quota_limit :: nat
  sc_provider_quota_period :: quota_period
  sc_request_timeout_seconds :: nat
  sc_retry_policy :: retry_policy
  sc_schedule_execution_mode :: schedule_execution_mode
  sc_schedule_interval_hours :: nat
  sc_max_retries :: nat
  sc_max_requests_per_attempt :: nat
  sc_max_pages_per_attempt :: nat
  sc_max_page_bytes :: nat
  sc_rights_evidence_locator :: pystr
  sc_rights_evidence_sha256 :: pystr
  sc_rights_confirmed_at :: "instant option"
  sc_raw_retention :: raw_retention
  sc_created_at :: instant

text \<open>\<open>clean_fields\<close>; \<open>url_ok\<close> is Django's \<open>URLValidator\<close>.\<close>

definition source_configuration_fields :: "(pystr \<Rightarrow> bool) \<Rightarrow> source_configuration \<Rightarrow> bool" where
  "source_configuration_fields url_ok s \<longleftrightarrow>
     char_field 200 (sc_source_owner_name s) \<and> char_field 64 (sc_dataset_id s)
     \<and> char_field 64 (sc_configuration_revision s) \<and> char_field 64 (sc_interface_revision s)
     \<and> char_field 128 (sc_coverage_identity s) \<and> char_field 64 (sc_coverage_evidence_revision s)
     \<and> char_field 253 (sc_endpoint_host s) \<and> validate_endpoint_host (sc_endpoint_host s)
     \<and> char_field 512 (sc_endpoint_path s) \<and> validate_endpoint_path (sc_endpoint_path s)
     \<and> blank_field 128 (sc_logical_secret_name s)
     \<and> (sc_logical_secret_name s = [] \<or> code_validator (sc_logical_secret_name s))
     \<and> integer_field (sc_provider_quota_limit s) \<and> small_field (sc_request_timeout_seconds s)
     \<and> small_field (sc_schedule_interval_hours s) \<and> small_field (sc_max_retries s)
     \<and> small_field (sc_max_requests_per_attempt s) \<and> small_field (sc_max_pages_per_attempt s)
     \<and> integer_field (sc_max_page_bytes s)
     \<and> blank_field 500 (sc_rights_evidence_locator s)
     \<and> (sc_rights_evidence_locator s = [] \<or> url_ok (sc_rights_evidence_locator s))
     \<and> blank_field 64 (sc_rights_evidence_sha256 s)
     \<and> (sc_rights_evidence_sha256 s = [] \<or> sha256_validator (sc_rights_evidence_sha256 s))"

definition historical_modes :: "publication_mode list" where
  "historical_modes = [HISTORICAL_MONTHLY, HISTORICAL_REGIONAL, HISTORICAL_MARKET]"

definition historical_dataset_mode :: "source_configuration \<Rightarrow> bool" where
  "historical_dataset_mode s \<longleftrightarrow>
     sc_dataset_id s = lit ''15156060'' \<and> sc_publication_mode s = HISTORICAL_MONTHLY
     \<or> sc_dataset_id s = lit ''15156062'' \<and> sc_publication_mode s = HISTORICAL_REGIONAL
     \<or> sc_dataset_id s = lit ''15156065'' \<and> sc_publication_mode s = HISTORICAL_MARKET
     \<or> sc_dataset_id s \<notin> set (map lit [''15156060'', ''15156062'', ''15156065''])
       \<and> sc_publication_mode s \<notin> set historical_modes"

definition historical_endpoint :: "source_configuration \<Rightarrow> bool" where
  "historical_endpoint s \<longleftrightarrow>
     (let at = (\<lambda>dataset path. sc_dataset_id s = lit dataset
        \<and> sc_endpoint_host s = lit ''apis.data.go.kr'' \<and> sc_endpoint_path s = lit path
        \<and> sc_authentication_mode s = DATA_GO_KR_SERVICE_KEY
        \<and> sc_logical_secret_name s = lit ''KAMIS_API_KEY'')
      in sc_publication_mode s = HISTORICAL_MONTHLY \<and> at ''15156060'' ''/B552845/perYearMonth/price''
         \<or> sc_publication_mode s = HISTORICAL_REGIONAL \<and> at ''15156062'' ''/B552845/perRegion/price''
         \<or> sc_publication_mode s = HISTORICAL_MARKET \<and> at ''15156065'' ''/B552845/periodRetail/price''
         \<or> sc_publication_mode s \<notin> set historical_modes)"

definition source_secret_reference_valid :: "source_configuration \<Rightarrow> bool" where
  "source_secret_reference_valid s \<longleftrightarrow>
     (case sc_authentication_mode s of
        NO_AUTHENTICATION \<Rightarrow> sc_logical_secret_name s = []
      | DATA_GO_KR_SERVICE_KEY \<Rightarrow> upper_code (sc_logical_secret_name s))"

definition source_endpoint_constraints :: "source_configuration \<Rightarrow> bool" where
  "source_endpoint_constraints s \<longleftrightarrow>
     historical_dataset_mode s \<and> historical_endpoint s
     \<and> 2 \<le> length (sc_endpoint_host s) \<and> host_end (hd (sc_endpoint_host s))
     \<and> host_end (last (sc_endpoint_host s)) \<and> list_all host_inner (sc_endpoint_host s)
     \<and> take 1 (sc_endpoint_path s) = lit ''/'' \<and> 63 \<notin> set (sc_endpoint_path s)
     \<and> 35 \<notin> set (sc_endpoint_path s)
     \<and> source_secret_reference_valid s"

definition source_policy_constraints :: "source_configuration \<Rightarrow> bool" where
  "source_policy_constraints s \<longleftrightarrow>
     0 < sc_provider_quota_limit s \<and> 0 < sc_request_timeout_seconds s
     \<and> 0 < sc_schedule_interval_hours s
     \<and> sc_schedule_interval_hours s \<le> (if sc_publication_mode s = HISTORICAL_MONTHLY then 168 else 24)
     \<and> 0 < sc_max_requests_per_attempt s \<and> 0 < sc_max_pages_per_attempt s \<and> 0 < sc_max_page_bytes s
     \<and> (sc_rights_evidence_sha256 s = [] \<or> SHA256_PATTERN (sc_rights_evidence_sha256 s))
     \<and> (sc_rights_evidence_locator s = [] \<and> sc_rights_evidence_sha256 s = [] \<and> sc_rights_confirmed_at s = None
        \<or> sc_rights_evidence_locator s \<noteq> [] \<and> sc_rights_evidence_sha256 s \<noteq> [] \<and> sc_rights_confirmed_at s \<noteq> None)
     \<and> (sc_state s \<notin> {RIGHTS_APPROVED, ACTIVE, PAUSED} \<or> sc_rights_confirmed_at s \<noteq> None)"

definition source_configuration_clean :: "source_configuration \<Rightarrow> db_error + unit" where
  "source_configuration_clean s =
     (let evidence = [sc_rights_evidence_locator s \<noteq> [], sc_rights_evidence_sha256 s \<noteq> [],
                      sc_rights_confirmed_at s \<noteq> None]
      in ebind (if sc_authentication_mode s = NO_AUTHENTICATION
                then require (sc_logical_secret_name s = [])
                       (ValidationError ''Unauthenticated sources cannot reference a secret.'')
                else require (sc_logical_secret_name s \<noteq> [])
                       (ValidationError ''Authenticated sources require a logical secret name.'')) (\<lambda>_.
         ebind (require (card (set evidence) = 1)
                  (ValidationError ''Rights evidence locator, hash, and confirmation time are atomic.'')) (\<lambda>_.
         require (\<not> (sc_state s \<in> {RIGHTS_APPROVED, ACTIVE, PAUSED} \<and> \<not> list_all (\<lambda>b. b) evidence))
           (ValidationError ''The selected state requires complete rights evidence.''))))"

definition sc_artifact_source_identity :: "source_configuration \<Rightarrow> pystr" where
  "sc_artifact_source_identity s =
     join [58] [sc_dataset_id s, sc_interface_revision s, mode_value (sc_publication_mode s),
                sc_coverage_identity s]"

section \<open>Gate timestamp corrections\<close>

record gate_timestamp_correction =
  gc_id :: uuid
  gc_source_configuration :: uuid
  gc_original_state_changed_at :: instant
  gc_original_rights_confirmed_at :: instant
  gc_effective_gate_decision_recorded_at :: instant

section \<open>Artifacts\<close>

datatype media_type = MEDIA_JSON | MEDIA_XML
datatype encoding = UTF_8

record source_artifact =
  ar_id :: uuid
  ar_source_identity :: pystr
  ar_ordered_manifest_sha256 :: pystr
  ar_page_count :: nat
  ar_total_bytes :: nat
  ar_media_type :: media_type
  ar_encoding :: encoding
  ar_retention_mode :: raw_retention
  ar_first_seen_at :: instant

definition source_artifact_constraints :: "source_artifact \<Rightarrow> bool" where
  "source_artifact_constraints a \<longleftrightarrow>
     ar_source_identity a \<noteq> [] \<and> SHA256_PATTERN (ar_ordered_manifest_sha256 a)
     \<and> 0 < ar_page_count a \<and> ar_media_type a = MEDIA_JSON"

definition source_artifact_fields :: "source_artifact \<Rightarrow> bool" where
  "source_artifact_fields a \<longleftrightarrow>
     char_field 512 (ar_source_identity a) \<and> char_field 64 (ar_ordered_manifest_sha256 a)
     \<and> sha256_validator (ar_ordered_manifest_sha256 a) \<and> integer_field (ar_page_count a)
     \<and> big_field (ar_total_bytes a) \<and> ar_media_type a = MEDIA_JSON"

section \<open>Fetch attempts\<close>

datatype attempt_state = STARTED | SUCCEEDED | RETRYABLE_FAILED | TERMINAL_FAILED

datatype failure_class =
    TIMEOUT | NETWORK | HTTP_429 | HTTP_5XX | PROVIDER_TRANSIENT | AUTHENTICATION
  | INVALID_REQUEST | RESPONSE_LIMIT | SCHEMA | IDENTITY | RECONCILIATION

record fetch_attempt =
  fa_id :: uuid
  fa_source_configuration :: uuid
  fa_artifact :: "uuid option"
  fa_acquisition_run_id :: uuid
  fa_attempt_ordinal :: nat
  fa_state :: attempt_state
  fa_started_at :: instant
  fa_completed_at :: "instant option"
  fa_redacted_request_shape :: pystr
  fa_request_scope_sha256 :: pystr
  fa_received_page_count :: nat
  fa_received_row_count :: nat
  fa_received_byte_count :: nat
  fa_failure_class :: "failure_class option"
  fa_failure_code :: pystr

definition fetch_attempt_fields :: "fetch_attempt \<Rightarrow> bool" where
  "fetch_attempt_fields a \<longleftrightarrow>
     small_field (fa_attempt_ordinal a) \<and> char_field 512 (fa_redacted_request_shape a)
     \<and> validate_redacted_request_shape (fa_redacted_request_shape a)
     \<and> blank_field 64 (fa_request_scope_sha256 a)
     \<and> (fa_request_scope_sha256 a = [] \<or> sha256_validator (fa_request_scope_sha256 a))
     \<and> integer_field (fa_received_page_count a) \<and> integer_field (fa_received_row_count a)
     \<and> big_field (fa_received_byte_count a) \<and> blank_field 64 (fa_failure_code a)"

text \<open>\<open>grocery_fetch_state_outcome_valid\<close>\<close>

definition attempt_outcome_valid :: "fetch_attempt \<Rightarrow> bool" where
  "attempt_outcome_valid a \<longleftrightarrow>
     (case fa_state a of
        STARTED \<Rightarrow> fa_completed_at a = None \<and> fa_failure_class a = None \<and> fa_failure_code a = []
      | SUCCEEDED \<Rightarrow> fa_completed_at a \<noteq> None \<and> fa_failure_class a = None \<and> fa_failure_code a = []
      | _ \<Rightarrow> fa_completed_at a \<noteq> None \<and> fa_failure_class a \<noteq> None)"

definition fetch_attempt_constraints :: "fetch_attempt \<Rightarrow> bool" where
  "fetch_attempt_constraints a \<longleftrightarrow>
     0 < fa_attempt_ordinal a
     \<and> (fa_request_scope_sha256 a = [] \<or> SHA256_PATTERN (fa_request_scope_sha256 a))
     \<and> attempt_outcome_valid a
     \<and> (case fa_completed_at a of None \<Rightarrow> True | Some t \<Rightarrow> fa_started_at a \<le> t)
     \<and> (fa_artifact a = None \<or> fa_state a = SUCCEEDED)"

section \<open>Page receipts\<close>

datatype body_state = RECEIVED | NOT_RECEIVED
datatype absence_reason = ABSENT_TIMEOUT | ABSENT_NETWORK | REJECTED_BEFORE_BODY

record stored_receipt =
  rc_id :: uuid
  rc_fetch_attempt :: uuid
  rc_request_ordinal :: nat
  rc_page_number :: nat
  rc_received_at :: instant
  rc_http_status :: "int option"
  rc_provider_result_code :: pystr
  rc_declared_total_count :: "nat option"
  rc_received_row_count :: nat
  rc_body_state :: body_state
  rc_body_byte_length :: nat
  rc_body_sha256 :: pystr
  rc_body_absence_reason :: "absence_reason option"
  rc_media_type :: "media_type option"
  rc_encoding :: "encoding option"

text \<open>What the columns hold; a bulk insert is checked against these by the database only.\<close>

definition stored_receipt_columns :: "stored_receipt \<Rightarrow> bool" where
  "stored_receipt_columns r \<longleftrightarrow>
     small_field (rc_request_ordinal r) \<and> integer_field (rc_page_number r)
     \<and> (case rc_http_status r of None \<Rightarrow> True | Some s \<Rightarrow> 0 \<le> s \<and> s \<le> 32767)
     \<and> blank_field 32 (rc_provider_result_code r)
     \<and> (case rc_declared_total_count r of None \<Rightarrow> True | Some n \<Rightarrow> integer_field n)
     \<and> integer_field (rc_received_row_count r) \<and> integer_field (rc_body_byte_length r)
     \<and> blank_field 64 (rc_body_sha256 r)"

text \<open>\<open>grocery_page_body_fields_valid\<close>\<close>

definition receipt_body_fields_valid :: "stored_receipt \<Rightarrow> bool" where
  "receipt_body_fields_valid r \<longleftrightarrow>
     (case rc_body_state r of
        RECEIVED \<Rightarrow> rc_http_status r \<noteq> None \<and> rc_body_absence_reason r = None
          \<and> rc_body_sha256 r \<noteq> [] \<and> rc_media_type r \<noteq> None \<and> rc_encoding r \<noteq> None
      | NOT_RECEIVED \<Rightarrow> rc_received_row_count r = 0 \<and> rc_body_byte_length r = 0 \<and> rc_body_sha256 r = []
          \<and> rc_media_type r = None \<and> rc_encoding r = None \<and> rc_body_absence_reason r \<noteq> None)"

definition stored_receipt_constraints :: "stored_receipt \<Rightarrow> bool" where
  "stored_receipt_constraints r \<longleftrightarrow>
     0 < rc_request_ordinal r \<and> 0 < rc_page_number r
     \<and> (case rc_http_status r of None \<Rightarrow> True | Some s \<Rightarrow> 100 \<le> s \<and> s \<le> 599)
     \<and> (rc_body_sha256 r = [] \<or> SHA256_PATTERN (rc_body_sha256 r))
     \<and> receipt_body_fields_valid r"

section \<open>The state\<close>

record fetch_db =
  db_sources :: "source_configuration list"
  db_corrections :: "gate_timestamp_correction list"
  db_artifacts :: "source_artifact list"
  db_attempts :: "fetch_attempt list"
  db_receipts :: "stored_receipt list"

definition receipts_of :: "uuid \<Rightarrow> ('a) fetch_db_scheme \<Rightarrow> stored_receipt list" where
  "receipts_of attempt db = filter (\<lambda>r. rc_fetch_attempt r = attempt) (db_receipts db)"

text \<open>\<open>FetchAttempt.artifact_source_identity\<close>\<close>

definition fa_artifact_source_identity :: "source_configuration \<Rightarrow> fetch_attempt \<Rightarrow> pystr" where
  "fa_artifact_source_identity s a =
     (if fa_request_scope_sha256 a = [] then sc_artifact_source_identity s
      else sc_artifact_source_identity s @ lit '':scope-sha256:'' @ fa_request_scope_sha256 a)"

end
