(* ===== verification/Historical_Contract.thy ===== *)
theory Historical_Contract
  imports Py_Text
begin

text \<open>
  The fixed contracts of the three historical endpoints and the validation of a bounded query
  (\<open>grocery/source/historical_contract.py\<close>). Validation bounds the range of a query to sixty
  months or thirty-one days and returns exactly the condition names of its endpoint.
\<close>

section \<open>Data\<close>

datatype historical_dataset = MONTHLY | REGIONAL | MARKET

fun dataset_value :: "historical_dataset \<Rightarrow> pystr" where
  "dataset_value MONTHLY = lit ''15156060''"
| "dataset_value REGIONAL = lit ''15156062''"
| "dataset_value MARKET = lit ''15156065''"

definition MAX_HISTORICAL_MONTHS :: int where
  "MAX_HISTORICAL_MONTHS = 60"

definition MAX_HISTORICAL_DAYS :: int where
  "MAX_HISTORICAL_DAYS = 31"

record historical_price_query =
  hq_start :: pystr
  hq_end :: pystr
  hq_category_code :: pystr
  hq_item_code :: "pystr option"
  hq_variety_code :: "pystr option"
  hq_grade_code :: "pystr option"
  hq_region_code :: "pystr option"
  hq_market_code :: "pystr option"

record historical_endpoint_contract =
  ec_endpoint :: pystr
  ec_date_field :: pystr
  ec_allowed_filter_fields :: "pystr list"
  ec_required_filter_fields :: "pystr list"
  ec_monthly :: bool

text \<open>\<open>endpoint.split('/', 3)[3]\<close>: what follows the third slash.\<close>

fun after_slashes :: "nat \<Rightarrow> pystr \<Rightarrow> pystr" where
  "after_slashes 0 s = s"
| "after_slashes (Suc n) [] = []"
| "after_slashes (Suc n) (c # s) = (if c = 47 then after_slashes n s else after_slashes (Suc n) s)"

definition contract_path :: "historical_endpoint_contract \<Rightarrow> pystr" where
  "contract_path c = 47 # after_slashes 3 (ec_endpoint c)"

definition condition_name :: "pystr \<Rightarrow> string \<Rightarrow> pystr" where
  "condition_name field operator = lit ''cond['' @ field @ lit ''::'' @ lit operator @ lit '']''"

definition allowed_condition_names :: "historical_endpoint_contract \<Rightarrow> pystr list" where
  "allowed_condition_names c =
     condition_name (ec_date_field c) ''GTE'' # condition_name (ec_date_field c) ''LTE''
     # map (\<lambda>f. condition_name f ''EQ'') (ec_allowed_filter_fields c)"

fun endpoint_contract :: "historical_dataset \<Rightarrow> historical_endpoint_contract" where
  "endpoint_contract MONTHLY =
     \<lparr>ec_endpoint = lit ''https://apis.data.go.kr/B552845/perYearMonth/price'',
      ec_date_field = lit ''exmn_ym'',
      ec_allowed_filter_fields = map lit [''se_cd'', ''ctgry_cd'', ''item_cd'', ''vrty_cd'', ''grd_cd'', ''sgg_cd''],
      ec_required_filter_fields = map lit [''se_cd'', ''ctgry_cd''], ec_monthly = True\<rparr>"
| "endpoint_contract REGIONAL =
     \<lparr>ec_endpoint = lit ''https://apis.data.go.kr/B552845/perRegion/price'',
      ec_date_field = lit ''exmn_ymd'',
      ec_allowed_filter_fields = map lit [''se_cd'', ''ctgry_cd'', ''item_cd'', ''vrty_cd'', ''grd_cd'', ''sgg_cd''],
      ec_required_filter_fields = map lit [''se_cd'', ''ctgry_cd'', ''sgg_cd''], ec_monthly = False\<rparr>"
| "endpoint_contract MARKET =
     \<lparr>ec_endpoint = lit ''https://apis.data.go.kr/B552845/periodRetail/price'',
      ec_date_field = lit ''exmn_ymd'',
      ec_allowed_filter_fields = map lit [''ctgry_cd'', ''item_cd'', ''vrty_cd'', ''grd_cd'', ''sgg_cd'', ''mrkt_cd''],
      ec_required_filter_fields = map lit [''ctgry_cd''], ec_monthly = False\<rparr>"

definition all_datasets :: "historical_dataset list" where
  "all_datasets = [MONTHLY, REGIONAL, MARKET]"

datatype historical_contract_error = HistoricalContractError string

record validated_historical_query =
  vq_dataset :: historical_dataset
  vq_conditions :: "(pystr \<times> pystr) list"

section \<open>Calendar arithmetic\<close>

text \<open>\<open>date.toordinal\<close>: days since the day before 1 January of year 1.\<close>

definition days_before_year :: "nat \<Rightarrow> nat" where
  "days_before_year y = (let n = y - 1 in 365 * n + n div 4 - n div 100 + n div 400)"

definition days_before_month :: "nat \<Rightarrow> nat \<Rightarrow> nat" where
  "days_before_month y m = sum_list (map (days_in_month y) [1..<m])"

definition toordinal :: "date \<Rightarrow> int" where
  "toordinal d = (case d of (y, m, dd) \<Rightarrow> int (days_before_year y + days_before_month y m + dd))"

section \<open>Validation\<close>

definition raise_code :: "string \<Rightarrow> historical_contract_error + 'a" where
  "raise_code code = Inl (HistoricalContractError code)"

text \<open>\<open>strptime(value, "%Y%m")\<close> on six digits, as a month ordinal.\<close>

definition parse_month :: "pystr \<Rightarrow> historical_contract_error + int" where
  "parse_month v =
     (if length v = 6 \<and> all_digits v then
        (let y = text_nat (take 4 v); m = text_nat (drop 4 v)
         in if 1 \<le> y \<and> 1 \<le> m \<and> m \<le> 12 then Inr (int (y * 12 + m))
            else raise_code ''invalid_historical_date'')
      else raise_code ''invalid_historical_date'')"

definition parse_day :: "pystr \<Rightarrow> historical_contract_error + date" where
  "parse_day v =
     (if length v = 8 \<and> all_digits v
      then of_option (HistoricalContractError ''invalid_historical_date'') (strptime_ymd v)
      else raise_code ''invalid_historical_date'')"

definition validate_range ::
    "historical_endpoint_contract \<Rightarrow> pystr \<Rightarrow> pystr \<Rightarrow> historical_contract_error + unit" where
  "validate_range c start end' =
     (if ec_monthly c then
        ebind (parse_month start) (\<lambda>s. ebind (parse_month end') (\<lambda>e.
          if s > e \<or> e - s + 1 > MAX_HISTORICAL_MONTHS
          then raise_code ''invalid_historical_range'' else Inr ()))
      else
        ebind (parse_day start) (\<lambda>s. ebind (parse_day end') (\<lambda>e.
          if toordinal s > toordinal e \<or> toordinal e - toordinal s + 1 > MAX_HISTORICAL_DAYS
          then raise_code ''invalid_historical_range'' else Inr ())))"

text \<open>\<open>[0-9]{1,20}\Z\<close>\<close>

definition filter_code :: "pystr \<Rightarrow> bool" where
  "filter_code v \<longleftrightarrow> 1 \<le> length v \<and> length v \<le> 20 \<and> all_digits v"

text \<open>The loop that adds the optional filters, in the order of the source.\<close>

fun add_filters ::
    "historical_endpoint_contract \<Rightarrow> (pystr \<times> pystr option) list \<Rightarrow> (pystr \<times> pystr) list
      \<Rightarrow> historical_contract_error + (pystr \<times> pystr) list" where
  "add_filters c [] acc = Inr acc"
| "add_filters c ((field, None) # fs) acc = add_filters c fs acc"
| "add_filters c ((field, Some v) # fs) acc =
     (if field \<notin> set (ec_allowed_filter_fields c) \<or> \<not> filter_code v
      then raise_code ''invalid_historical_filter''
      else add_filters c fs (acc @ [(field, v)]))"

definition optional_filters :: "historical_price_query \<Rightarrow> (pystr \<times> pystr option) list" where
  "optional_filters q =
     [(lit ''item_cd'', hq_item_code q), (lit ''vrty_cd'', hq_variety_code q),
      (lit ''grd_cd'', hq_grade_code q), (lit ''sgg_cd'', hq_region_code q),
      (lit ''mrkt_cd'', hq_market_code q)]"

definition initial_filters ::
    "historical_endpoint_contract \<Rightarrow> historical_price_query \<Rightarrow> (pystr \<times> pystr) list" where
  "initial_filters c q = (lit ''ctgry_cd'', hq_category_code q)
     # (if lit ''se_cd'' \<in> set (ec_allowed_filter_fields c) then [(lit ''se_cd'', lit ''01'')] else [])"

definition validate_historical_query ::
    "historical_dataset \<Rightarrow> historical_price_query
      \<Rightarrow> historical_contract_error + validated_historical_query" where
  "validate_historical_query d q =
     (let c = endpoint_contract d in
      if hq_category_code q \<notin> {lit ''200'', lit ''400''} then raise_code ''invalid_historical_filter''
      else if hq_variety_code q \<noteq> None \<and> hq_item_code q = None then raise_code ''invalid_historical_filter''
      else if hq_grade_code q \<noteq> None \<and> hq_variety_code q = None then raise_code ''invalid_historical_filter''
      else if hq_market_code q \<noteq> None \<and> hq_region_code q = None then raise_code ''invalid_historical_filter''
      else ebind (validate_range c (hq_start q) (hq_end q)) (\<lambda>_.
           ebind (add_filters c (optional_filters q) (initial_filters c q)) (\<lambda>logical_filters.
           if \<not> set (ec_required_filter_fields c) \<subseteq> fst ` set logical_filters
           then (if lit ''sgg_cd'' \<in> set (ec_required_filter_fields c)
                 then raise_code ''missing_historical_region''
                 else raise_code ''invalid_historical_filter'')
           else Inr \<lparr>vq_dataset = d,
             vq_conditions =
               (condition_name (ec_date_field c) ''GTE'', hq_start q)
               # (condition_name (ec_date_field c) ''LTE'', hq_end q)
               # map (\<lambda>(field, v). (condition_name field ''EQ'', v)) logical_filters\<rparr>)))"


section \<open>What validation returns\<close>

lemma raise_code_Inr [simp, exc_simps]: "raise_code code \<noteq> Inr x" "Inr x \<noteq> raise_code code"
  by (simp_all add: raise_code_def)

text \<open>The fields a query sets, whatever their values.\<close>

definition present :: "(pystr \<times> pystr option) list \<Rightarrow> pystr list" where
  "present fs = concat (map (\<lambda>(f, v). case v of None \<Rightarrow> [] | Some _ \<Rightarrow> [f]) fs)"

lemma add_filters_fields:
  "add_filters c fs acc = Inr out \<Longrightarrow>
     map fst out = map fst acc @ present fs \<and> set (present fs) \<subseteq> set (ec_allowed_filter_fields c)"
  by (induction c fs acc rule: add_filters.induct) (auto simp: present_def split: if_splits)

definition query_fields :: "historical_dataset \<Rightarrow> historical_price_query \<Rightarrow> pystr list" where
  "query_fields d q = map fst (initial_filters (endpoint_contract d) q) @ present (optional_filters q)"

lemma validated_condition_names:
  assumes "validate_historical_query d q = Inr v"
  shows "vq_dataset v = d"
    and "map fst (vq_conditions v) =
      condition_name (ec_date_field (endpoint_contract d)) ''GTE''
      # condition_name (ec_date_field (endpoint_contract d)) ''LTE''
      # map (\<lambda>f. condition_name f ''EQ'') (query_fields d q)"
    and "set (query_fields d q) \<subseteq> set (ec_allowed_filter_fields (endpoint_contract d))"
    and "set (ec_required_filter_fields (endpoint_contract d)) \<subseteq> set (query_fields d q)"
proof -
  obtain fs where fs: "add_filters (endpoint_contract d) (optional_filters q)
      (initial_filters (endpoint_contract d) q) = Inr fs"
    and required: "set (ec_required_filter_fields (endpoint_contract d)) \<subseteq> fst ` set fs"
    and v: "v = \<lparr>vq_dataset = d, vq_conditions =
        (condition_name (ec_date_field (endpoint_contract d)) ''GTE'', hq_start q)
        # (condition_name (ec_date_field (endpoint_contract d)) ''LTE'', hq_end q)
        # map (\<lambda>(field, v). (condition_name field ''EQ'', v)) fs\<rparr>"
    using assms by (auto simp: validate_historical_query_def Let_def exc_simps split: if_splits)
  note names = add_filters_fields [OF fs]
  show "vq_dataset v = d" by (simp add: v)
  have m: "map fst (map (\<lambda>(field, v). (condition_name field ''EQ'', v)) fs) =
      map (\<lambda>f. condition_name f ''EQ'') (map fst fs)"
    by (simp add: case_prod_beta comp_def)
  show "map fst (vq_conditions v) =
      condition_name (ec_date_field (endpoint_contract d)) ''GTE''
      # condition_name (ec_date_field (endpoint_contract d)) ''LTE''
      # map (\<lambda>f. condition_name f ''EQ'') (query_fields d q)"
    using m names by (simp add: v query_fields_def)
  have "set (map fst (initial_filters (endpoint_contract d) q)) \<subseteq> set (ec_allowed_filter_fields (endpoint_contract d))"
    by (cases d) (auto simp: initial_filters_def)
  then show "set (query_fields d q) \<subseteq> set (ec_allowed_filter_fields (endpoint_contract d))"
    using names by (simp add: query_fields_def)
  have "fst ` set fs = set (query_fields d q)"
    using names by (metis list.set_map query_fields_def)
  then show "set (ec_required_filter_fields (endpoint_contract d)) \<subseteq> set (query_fields d q)"
    using required by simp
qed

lemma validated_range:
  assumes "validate_historical_query d q = Inr v"
  shows "validate_range (endpoint_contract d) (hq_start q) (hq_end q) = Inr ()"
    and "take 2 (vq_conditions v) =
      [(condition_name (ec_date_field (endpoint_contract d)) ''GTE'', hq_start q),
       (condition_name (ec_date_field (endpoint_contract d)) ''LTE'', hq_end q)]"
  using assms by (auto simp: validate_historical_query_def Let_def exc_simps split: if_splits)

lemma validate_range_span:
  "validate_range (endpoint_contract d) a b = Inr () \<Longrightarrow>
     (if d = MONTHLY
      then \<exists>s e. parse_month a = Inr s \<and> parse_month b = Inr e \<and> s \<le> e \<and> e \<le> s + 59
      else \<exists>s e. parse_day a = Inr s \<and> parse_day b = Inr e
             \<and> toordinal s \<le> toordinal e \<and> toordinal e \<le> toordinal s + 30)"
  by (cases d) (fastforce simp: validate_range_def exc_simps MAX_HISTORICAL_MONTHS_def
                  MAX_HISTORICAL_DAYS_def split: if_splits)+

lemma validated_conditions_allowed:
  assumes "validate_historical_query d q = Inr v"
  shows "fst ` set (vq_conditions v) \<subseteq> set (allowed_condition_names (endpoint_contract d))"
proof -
  have "fst ` set (vq_conditions v) = set (map fst (vq_conditions v))" by simp
  then show ?thesis
    using validated_condition_names [OF assms] by (auto simp: allowed_condition_names_def)
qed

text \<open>
  C13: a validated query is bounded. Its conditions start with the two bounds of its date field,
  whose values are dates in order spanning at most sixty months (monthly dataset) or thirty-one
  days, its condition names are allowed by the contract of its endpoint, and every required
  filter is among them.
\<close>

theorem validated_query_is_bounded:
  assumes "validate_historical_query d q = Inr v"
  shows "vq_dataset v = d
    \<and> take 2 (vq_conditions v) =
        [(condition_name (ec_date_field (endpoint_contract d)) ''GTE'', hq_start q),
         (condition_name (ec_date_field (endpoint_contract d)) ''LTE'', hq_end q)]
    \<and> fst ` set (vq_conditions v) \<subseteq> set (allowed_condition_names (endpoint_contract d))
    \<and> (\<forall>f \<in> set (ec_required_filter_fields (endpoint_contract d)).
         condition_name f ''EQ'' \<in> fst ` set (vq_conditions v))
    \<and> (if d = MONTHLY
       then \<exists>s e. parse_month (hq_start q) = Inr s \<and> parse_month (hq_end q) = Inr e \<and> s \<le> e \<and> e \<le> s + 59
       else \<exists>s e. parse_day (hq_start q) = Inr s \<and> parse_day (hq_end q) = Inr e
              \<and> toordinal s \<le> toordinal e \<and> toordinal e \<le> toordinal s + 30)"
proof -
  note names = validated_condition_names [OF assms]
  have "fst ` set (vq_conditions v) = set (map fst (vq_conditions v))" by simp
  then have "\<forall>f \<in> set (ec_required_filter_fields (endpoint_contract d)).
         condition_name f ''EQ'' \<in> fst ` set (vq_conditions v)"
    using names(2,4) by auto
  then show ?thesis
    using names(1) validated_conditions_allowed [OF assms] validated_range [OF assms]
      validate_range_span [of d] by blast
qed


definition example_query :: historical_price_query where
  "example_query = \<lparr>hq_start = lit ''202101'', hq_end = lit ''202512'', hq_category_code = lit ''200'',
     hq_item_code = Some (lit ''212''), hq_variety_code = None, hq_grade_code = None,
     hq_region_code = None, hq_market_code = None\<rparr>"

definition example_validated :: validated_historical_query where
  "example_validated = \<lparr>vq_dataset = MONTHLY, vq_conditions =
     [(condition_name (lit ''exmn_ym'') ''GTE'', lit ''202101''),
      (condition_name (lit ''exmn_ym'') ''LTE'', lit ''202512''),
      (condition_name (lit ''ctgry_cd'') ''EQ'', lit ''200''),
      (condition_name (lit ''se_cd'') ''EQ'', lit ''01''),
      (condition_name (lit ''item_cd'') ''EQ'', lit ''212'')]\<rparr>"

lemma example_query_valid: "validate_historical_query MONTHLY example_query = Inr example_validated"
proof -
  have "parse_month (lit ''202101'') = Inr 24253" "parse_month (lit ''202512'') = Inr 24312"
    "filter_code (lit ''212'')"
    by (simp_all add: parse_month_def lit_def all_digits_def is_digit_def text_nat_def Let_def filter_code_def)
  then show ?thesis
    by (simp add: validate_historical_query_def example_query_def example_validated_def validate_range_def
          MAX_HISTORICAL_MONTHS_def initial_filters_def optional_filters_def Let_def)
qed

lemma validated_query_is_bounded_witness:
  "\<exists>s e. parse_month (lit ''202101'') = Inr s \<and> parse_month (lit ''202512'') = Inr e \<and> e \<le> s + 59"
  using validated_query_is_bounded [OF example_query_valid] by (auto simp: example_query_def)

end
