(* ===== verification/Url_Encoding.thy ===== *)
theory Url_Encoding
  imports Py_Json
begin

text \<open>
  The query string of a request: \<open>urllib.parse.urlencode(parameters, doseq=False, safe="")\<close> as both
  clients call it. Every key and value goes through \<open>quote_plus\<close>, which encodes it as strict UTF-8
  and then byte by byte; a text with a lone surrogate raises \<open>UnicodeEncodeError\<close>, whose object is
  the text (the left side here). The reader \<open>decode_query\<close> is the specification: it splits a
  query at its separators and undoes the quoting of every part.
\<close>

section \<open>Encoding\<close>

text \<open>The unreserved characters: letters, digits and \<open>_ . - ~\<close>.\<close>

definition url_safe_byte :: "nat \<Rightarrow> bool" where
  "url_safe_byte b \<longleftrightarrow> is_digit b \<or> is_upper b \<or> is_lower b \<or> b \<in> {95, 46, 45, 126}"

definition upper_hex_digit :: "nat \<Rightarrow> nat" where
  "upper_hex_digit d = (if d < 10 then 48 + d else 55 + d)"

definition quote_byte :: "nat \<Rightarrow> pystr" where
  "quote_byte b =
     (if b = 32 then [43]
      else if url_safe_byte b then [b]
      else [37, upper_hex_digit (b div 16), upper_hex_digit (b mod 16)])"

definition quote_plus :: "pystr \<Rightarrow> pystr + pystr" where
  "quote_plus s = (case utf8 s of None \<Rightarrow> Inl s | Some bs \<Rightarrow> Inr (concat (map quote_byte bs)))"

fun urlencode_fields :: "(pystr \<times> pystr) list \<Rightarrow> pystr + pystr list" where
  "urlencode_fields [] = Inr []"
| "urlencode_fields ((k, v) # parameters) =
     ebind (quote_plus k) (\<lambda>k'. ebind (quote_plus v) (\<lambda>v'.
     ebind (urlencode_fields parameters) (\<lambda>fields. Inr ((k' @ [61] @ v') # fields))))"

definition urlencode :: "(pystr \<times> pystr) list \<Rightarrow> pystr + pystr" where
  "urlencode parameters = ebind (urlencode_fields parameters) (\<lambda>fields. Inr (join [38] fields))"

section \<open>Splitting\<close>

text \<open>\<open>str.split\<close> on one character: never empty.\<close>

fun split_on :: "nat \<Rightarrow> pystr \<Rightarrow> pystr list" where
  "split_on sep [] = [[]]"
| "split_on sep (c # s) =
     (if c = sep then [] # split_on sep s
      else (case split_on sep s of x # xs \<Rightarrow> (c # x) # xs | [] \<Rightarrow> [[c]]))"

lemma split_on_plain: "sep \<notin> set s \<Longrightarrow> split_on sep s = [s]"
  by (induction s) auto

lemma split_on_append: "sep \<notin> set s \<Longrightarrow> split_on sep (s @ sep # t) = s # split_on sep t"
  by (induction s) auto

lemma split_on_join:
  assumes "names \<noteq> []" and "\<And>x. x \<in> set names \<Longrightarrow> sep \<notin> set x"
  shows "split_on sep (join [sep] names) = names"
  using assms
  by (induction "[sep]" names rule: join.induct) (auto simp: split_on_plain split_on_append)

section \<open>Decoding\<close>

definition hex_value :: "nat \<Rightarrow> nat" where
  "hex_value c = (if c < 65 then c - 48 else c - 55)"

fun unquote_plus_bytes :: "pystr \<Rightarrow> nat list" where
  "unquote_plus_bytes [] = []"
| "unquote_plus_bytes (c # s) =
     (if c = 37 then (case s of a # b # t \<Rightarrow> (hex_value a * 16 + hex_value b) # unquote_plus_bytes t | _ \<Rightarrow> 37 # s)
      else (if c = 43 then 32 else c) # unquote_plus_bytes s)"

definition decode_field :: "pystr \<Rightarrow> nat list \<times> nat list" where
  "decode_field s =
     (unquote_plus_bytes (takeWhile (\<lambda>c. c \<noteq> 61) s), unquote_plus_bytes (tl (dropWhile (\<lambda>c. c \<noteq> 61) s)))"

definition decode_query :: "pystr \<Rightarrow> (nat list \<times> nat list) list" where
  "decode_query query = map decode_field (split_on 38 query)"

section \<open>Every part decodes to its bytes\<close>

lemma hex_value_upper [simp]: "hex_value (upper_hex_digit d) = d"
  by (simp add: hex_value_def upper_hex_digit_def)

lemma unquote_quote_byte: "unquote_plus_bytes (quote_byte b @ s) = b # unquote_plus_bytes s"
  by (auto simp: quote_byte_def url_safe_byte_def is_digit_def is_upper_def is_lower_def mult.commute)

lemma unquote_quoted: "unquote_plus_bytes (concat (map quote_byte bs)) = bs"
  by (induction bs) (simp_all add: unquote_quote_byte del: unquote_plus_bytes.simps(2))

lemma quote_byte_separators: "38 \<notin> set (quote_byte b)" "61 \<notin> set (quote_byte b)"
  by (auto simp: quote_byte_def url_safe_byte_def upper_hex_digit_def is_digit_def is_upper_def is_lower_def)

lemma quote_plus_Inr:
  assumes "quote_plus s = Inr t"
  shows "utf8 s = Some (unquote_plus_bytes t)" and "38 \<notin> set t" and "61 \<notin> set t"
  using assms quote_byte_separators
  by (auto simp: quote_plus_def unquote_quoted split: option.split_asm)

lemma surrogate_free_utf8: "utf8 s = None \<longleftrightarrow> \<not> surrogate_free s"
  by (auto simp: utf8_None surrogate_free_def list_all_iff)

lemma quote_plus_surrogate: "\<not> surrogate_free s \<Longrightarrow> quote_plus s = Inl s"
  using surrogate_free_utf8 [of s] by (auto simp: quote_plus_def)

lemma quote_plus_clean: "surrogate_free s \<Longrightarrow> \<exists>t. quote_plus s = Inr t"
  using surrogate_free_utf8 [of s] by (auto simp: quote_plus_def split: option.split)

lemma decode_field_quoted:
  assumes "quote_plus k = Inr k'" and "quote_plus v = Inr v'"
  shows "map_prod Some Some (decode_field (k' @ [61] @ v')) = (utf8 k, utf8 v)" and "38 \<notin> set (k' @ [61] @ v')"
proof -
  note k = quote_plus_Inr [OF assms(1)] and v = quote_plus_Inr [OF assms(2)]
  have "takeWhile (\<lambda>c. c \<noteq> 61) (k' @ 61 # v') = k'" "dropWhile (\<lambda>c. c \<noteq> 61) (k' @ 61 # v') = 61 # v'"
    using k(3) by (induction k') auto
  then show "map_prod Some Some (decode_field (k' @ [61] @ v')) = (utf8 k, utf8 v)"
    using k v by (simp add: decode_field_def)
  show "38 \<notin> set (k' @ [61] @ v')" using k v by simp
qed

lemma urlencode_fields_Inr:
  "urlencode_fields ps = Inr fields \<Longrightarrow>
     map (map_prod Some Some \<circ> decode_field) fields = map (map_prod utf8 utf8) ps \<and> (\<forall>f \<in> set fields. 38 \<notin> set f)"
proof (induction ps arbitrary: fields rule: urlencode_fields.induct)
  case (2 k v ps)
  then obtain k' v' fs where parts: "quote_plus k = Inr k'" "quote_plus v = Inr v'"
    "urlencode_fields ps = Inr fs" "fields = (k' @ [61] @ v') # fs"
    by (auto simp: exc_simps)
  then show ?case using 2(1) [OF parts(1,2,3)] decode_field_quoted [OF parts(1,2)] by simp
qed simp

text \<open>No value can add, drop or rename a parameter: the query reads back as the parameters.\<close>

lemma decode_urlencode:
  assumes "urlencode ps = Inr query" and "ps \<noteq> []"
  shows "map (map_prod Some Some) (decode_query query) = map (map_prod utf8 utf8) ps"
proof -
  obtain fields where f: "urlencode_fields ps = Inr fields" "query = join [38] fields"
    using assms(1) by (auto simp: urlencode_def exc_simps)
  note fields = urlencode_fields_Inr [OF f(1)]
  have "fields \<noteq> []" using fields assms(2) by auto
  then have "split_on 38 query = fields" using fields f(2) by (simp add: split_on_join)
  then show ?thesis using fields by (simp add: decode_query_def comp_def)
qed

lemma urlencode_clean:
  assumes "list_all (\<lambda>(k, v). surrogate_free k \<and> surrogate_free v) ps"
  shows "\<exists>query. urlencode ps = Inr query"
proof -
  have "\<exists>fields. urlencode_fields ps = Inr fields"
    using assms
  proof (induction ps)
    case (Cons p ps)
    then obtain fields where "urlencode_fields ps = Inr fields" by auto
    then show ?case using Cons.prems by (cases p) (auto dest!: quote_plus_clean)
  qed simp
  then show ?thesis by (auto simp: urlencode_def)
qed

text \<open>The first text that cannot be encoded is the one the error carries.\<close>

lemma urlencode_surrogate:
  assumes "surrogate_free k" and "\<not> surrogate_free v"
  shows "urlencode ((k, v) # ps) = Inl v"
  using quote_plus_clean [OF assms(1)] quote_plus_surrogate [OF assms(2)] by (auto simp: urlencode_def)

text \<open>The end of a query, for a reader that looks for its last parameters.\<close>

lemma quote_plus_digits: "all_digits s \<Longrightarrow> quote_plus s = Inr s"
proof -
  assume d: "all_digits s"
  then have "utf8 s = Some s"
    by (induction s) (auto simp: all_digits_def utf8_char_def is_digit_def)
  moreover have "concat (map quote_byte s) = s"
    using d by (induction s) (auto simp: all_digits_def quote_byte_def url_safe_byte_def is_digit_def)
  ultimately show ?thesis by (simp add: quote_plus_def)
qed

end
