(* ===== verification/Historical_Client.thy ===== *)
theory Historical_Client
  imports Historical_Contract Url_Encoding
begin

text \<open>
  Preparation of a historical request (\<open>grocery/source/historical_client.py\<close>): the value-free
  request shape that errors may show, the digest of the scope, and the request of one page. A
  request is its URL (the endpoint and the encoded query), its headers and its method. Building
  one fails with a contract error, or with the interpreter's encoding error, which carries the text
  that could not be encoded.
\<close>

record http_request =
  rq_url :: pystr
  rq_headers :: "(pystr \<times> pystr) list"
  rq_method :: pystr

definition get_request :: "pystr \<Rightarrow> pystr \<Rightarrow> http_request" where
  "get_request endpoint query =
     \<lparr>rq_url = endpoint @ [63] @ query,
      rq_headers = [(lit ''Accept'', lit ''application/json'')], rq_method = lit ''GET''\<rparr>"

datatype request_error =
    ContractViolation historical_contract_error
  | TextNotEncodable pystr

definition COMMON_PARAMETER_NAMES :: "pystr list" where
  "COMMON_PARAMETER_NAMES = map lit [''serviceKey'', ''returnType'', ''pageNo'', ''numOfRows'']"

definition COMMON_REDACTED_NAMES :: "pystr list" where
  "COMMON_REDACTED_NAMES = map lit [''numOfRows'', ''pageNo'', ''returnType'']"

record prepared_historical_request =
  ph_query :: validated_historical_query
  ph_request_shape :: pystr
  ph_scope_sha256 :: pystr

section \<open>Preparation\<close>

definition shape_prefix :: "historical_endpoint_contract \<Rightarrow> pystr" where
  "shape_prefix c = lit ''GET '' @ contract_path c @ lit '' parameters=[''"

definition request_shape_of :: "historical_endpoint_contract \<Rightarrow> pystr list \<Rightarrow> pystr" where
  "request_shape_of c condition_names =
     (let names = sort (remdups (COMMON_REDACTED_NAMES @ condition_names))
                  @ [lit ''serviceKey:<redacted>'']
      in shape_prefix c @ join (lit '','') names @ lit '']'')"

definition scope_json :: "validated_historical_query \<Rightarrow> json" where
  "scope_json v = JObj
     [(lit ''conditions'', JArr (map (\<lambda>(k, x). JArr [JStr k, JStr x]) (sort (vq_conditions v)))),
      (lit ''dataset'', JStr (dataset_value (vq_dataset v)))]"

definition prepare_historical_request ::
    "historical_dataset \<Rightarrow> historical_price_query
      \<Rightarrow> historical_contract_error + prepared_historical_request" where
  "prepare_historical_request d q =
     ebind (validate_historical_query d q) (\<lambda>v.
       let c = endpoint_contract (vq_dataset v); names = map fst (vq_conditions v)
       in if \<not> set names \<subseteq> set (allowed_condition_names c)
          then raise_code ''request_parameter_allowlist_violation''
          else Inr \<lparr>ph_query = v, ph_request_shape = request_shape_of c names,
                    ph_scope_sha256 = canonical_hash_ascii (scope_json v)\<rparr>)"

definition build_historical_request ::
    "prepared_historical_request \<Rightarrow> pystr \<Rightarrow> nat \<Rightarrow> nat \<Rightarrow> request_error + http_request" where
  "build_historical_request p key page_number page_size =
     (let c = endpoint_contract (vq_dataset (ph_query p)); conditions = vq_conditions (ph_query p) in
      if \<not> fst ` set conditions \<subseteq> set (allowed_condition_names c)
      then Inl (ContractViolation (HistoricalContractError ''request_parameter_allowlist_violation''))
      else let parameters =
             [(lit ''serviceKey'', key), (lit ''returnType'', lit ''JSON''),
              (lit ''pageNo'', nat_text page_number), (lit ''numOfRows'', nat_text page_size)] @ conditions
           in if fst ` set parameters \<noteq> set COMMON_PARAMETER_NAMES \<union> fst ` set conditions
              then Inl (ContractViolation (HistoricalContractError ''request_parameter_allowlist_violation''))
              else (case urlencode parameters of
                  Inl text \<Rightarrow> Inl (TextNotEncodable text)
                | Inr query \<Rightarrow> Inr (get_request (ec_endpoint c) query)))"

section \<open>Recognising a safe shape\<close>

definition starts_with :: "pystr \<Rightarrow> pystr \<Rightarrow> bool" where
  "starts_with prefix s \<longleftrightarrow> take (length prefix) s = prefix"

definition ends_with :: "pystr \<Rightarrow> pystr \<Rightarrow> bool" where
  "ends_with suffix s \<longleftrightarrow> length suffix \<le> length s \<and> drop (length s - length suffix) s = suffix"

fun safe_shape_for :: "historical_endpoint_contract list \<Rightarrow> pystr \<Rightarrow> bool" where
  "safe_shape_for [] s = False"
| "safe_shape_for (c # cs) s =
     (if \<not> starts_with (shape_prefix c) s \<or> \<not> ends_with (lit '']'') s then safe_shape_for cs s
      else let names = split_on 44 (butlast (drop (length (shape_prefix c)) s)) in
           if names = [] \<or> last names \<noteq> lit ''serviceKey:<redacted>'' then False
           else set (butlast names) \<subseteq> set (allowed_condition_names c) \<union> set COMMON_REDACTED_NAMES
                \<and> set COMMON_REDACTED_NAMES \<subseteq> set (butlast names))"

definition is_safe_historical_request_shape :: "pystr \<Rightarrow> bool" where
  "is_safe_historical_request_shape s = safe_shape_for (map endpoint_contract all_datasets) s"


section \<open>Every prepared shape is safe\<close>

lemma shape_prefixes:
  "shape_prefix (endpoint_contract MONTHLY) = lit ''GET /B552845/perYearMonth/price parameters=[''"
  "shape_prefix (endpoint_contract REGIONAL) = lit ''GET /B552845/perRegion/price parameters=[''"
  "shape_prefix (endpoint_contract MARKET) = lit ''GET /B552845/periodRetail/price parameters=[''"
  by (simp_all add: shape_prefix_def contract_path_def lit_def numeral_eq_Suc)

lemma starts_with_self: "starts_with p (p @ s)"
  by (simp add: starts_with_def)

lemma starts_with_other:
  assumes "d \<noteq> d'"
  shows "\<not> starts_with (shape_prefix (endpoint_contract d)) (shape_prefix (endpoint_contract d') @ s)"
  using assms by (cases d; cases d') (simp_all add: shape_prefixes starts_with_def lit_def del: endpoint_contract.simps)

lemma names_without_comma:
  assumes "f \<in> set (allowed_condition_names (endpoint_contract d)) \<union> set COMMON_REDACTED_NAMES"
  shows "(44::nat) \<notin> set f"
proof -
  have "list_all (\<lambda>f. (44::nat) \<notin> set f)
      (allowed_condition_names (endpoint_contract d) @ COMMON_REDACTED_NAMES)"
    by (cases d) (simp_all add: allowed_condition_names_def condition_name_def COMMON_REDACTED_NAMES_def lit_def)
  then show ?thesis using assms by (auto simp: list_all_iff)
qed

lemma safe_shape_for_own:
  assumes "set names \<subseteq> set (allowed_condition_names (endpoint_contract d))"
  shows "safe_shape_for (endpoint_contract d # cs) (request_shape_of (endpoint_contract d) names)"
proof -
  let ?c = "endpoint_contract d"
  let ?ns = "sort (remdups (COMMON_REDACTED_NAMES @ names)) @ [lit ''serviceKey:<redacted>'']"
  have comma: "(44::nat) \<notin> set x" if "x \<in> set ?ns" for x
  proof (cases "x = lit ''serviceKey:<redacted>''")
    case True
    then show ?thesis by (simp add: lit_def)
  next
    case False
    then have "x \<in> set (allowed_condition_names ?c) \<union> set COMMON_REDACTED_NAMES" using that assms by auto
    then show ?thesis by (rule names_without_comma)
  qed
  have j: "split_on 44 (join (lit '','') ?ns) = ?ns"
    using split_on_join [of ?ns 44] comma by (simp add: lit_def)
  have shape: "request_shape_of ?c names = shape_prefix ?c @ join (lit '','') ?ns @ [93]"
    by (simp add: request_shape_of_def Let_def lit_def)
  have "ends_with (lit '']'') (shape_prefix ?c @ join (lit '','') ?ns @ [93])"
    by (simp add: ends_with_def lit_def)
  then show ?thesis
    using assms j unfolding shape by (auto simp: starts_with_self Let_def)
qed

lemma safe_shape_for_skip:
  "\<not> starts_with (shape_prefix c) s \<Longrightarrow> safe_shape_for (c # cs) s = safe_shape_for cs s"
  by simp

lemma safe_shape:
  assumes "set names \<subseteq> set (allowed_condition_names (endpoint_contract d))"
  shows "is_safe_historical_request_shape (request_shape_of (endpoint_contract d) names)"
proof -
  have other: "\<not> starts_with (shape_prefix (endpoint_contract d')) (request_shape_of (endpoint_contract d) names)"
    if "d' \<noteq> d" for d'
    using starts_with_other [OF that] by (simp add: request_shape_of_def Let_def)
  show ?thesis
    using safe_shape_for_own [OF assms] other
    by (cases d) (simp_all add: is_safe_historical_request_shape_def all_datasets_def safe_shape_for_skip
                    del: endpoint_contract.simps safe_shape_for.simps)
qed

lemma prepared_request:
  assumes "prepare_historical_request d q = Inr p"
  shows "validate_historical_query d q = Inr (ph_query p)"
    and "ph_request_shape p = request_shape_of (endpoint_contract d) (map fst (vq_conditions (ph_query p)))"
    and "set (map fst (vq_conditions (ph_query p))) \<subseteq> set (allowed_condition_names (endpoint_contract d))"
proof -
  obtain v where v: "validate_historical_query d q = Inr v"
    "p = \<lparr>ph_query = v, ph_request_shape =
         request_shape_of (endpoint_contract (vq_dataset v)) (map fst (vq_conditions v)),
         ph_scope_sha256 = canonical_hash_ascii (scope_json v)\<rparr>"
    using assms by (auto simp: prepare_historical_request_def exc_simps Let_def split: if_splits)
  show "validate_historical_query d q = Inr (ph_query p)"
    and "ph_request_shape p = request_shape_of (endpoint_contract d) (map fst (vq_conditions (ph_query p)))"
    and "set (map fst (vq_conditions (ph_query p))) \<subseteq> set (allowed_condition_names (endpoint_contract d))"
    using v validated_condition_names(1) [OF v(1)] validated_conditions_allowed [OF v(1)] by simp_all
qed

text \<open>
  C14: the shape of a prepared historical request, the only part of it that errors and logs show,
  is recognised as safe, and depends only on the dataset and on which optional filters are set,
  never on a value of the query.
\<close>

theorem prepared_shape_is_safe_and_value_free:
  assumes "prepare_historical_request d q = Inr p" and "prepare_historical_request d q' = Inr p'"
    and "query_fields d q = query_fields d q'"
  shows "is_safe_historical_request_shape (ph_request_shape p) \<and> ph_request_shape p = ph_request_shape p'"
proof -
  note p = prepared_request [OF assms(1)] and p' = prepared_request [OF assms(2)]
  have "map fst (vq_conditions (ph_query p)) = map fst (vq_conditions (ph_query p'))"
    using validated_condition_names(2) [OF p(1)] validated_condition_names(2) [OF p'(1)] assms(3) by simp
  then show ?thesis using p p' safe_shape by simp
qed

text \<open>A validated condition is ASCII: fixed names, dates and codes of digits.\<close>

lemma add_filters_digits:
  "add_filters c fs acc = Inr out \<Longrightarrow> list_all (\<lambda>(_, v). all_digits v) acc \<Longrightarrow> list_all (\<lambda>(_, v). all_digits v) out"
  by (induction c fs acc rule: add_filters.induct) (auto simp: filter_code_def split: if_splits)

lemma category_digits: "v \<in> {lit ''200'', lit ''400''} \<Longrightarrow> all_digits v"
  by (auto simp: lit_def all_digits_def is_digit_def)

lemma validated_conditions_digits:
  assumes "validate_historical_query d q = Inr v"
  shows "list_all (\<lambda>(_, x). all_digits x) (vq_conditions v)"
proof -
  let ?c = "endpoint_contract d"
  obtain fs where fs: "add_filters ?c (optional_filters q) (initial_filters ?c q) = Inr fs"
    and category: "hq_category_code q \<in> {lit ''200'', lit ''400''}"
    and range: "validate_range ?c (hq_start q) (hq_end q) = Inr ()"
    and v: "vq_conditions v =
        (condition_name (ec_date_field ?c) ''GTE'', hq_start q)
        # (condition_name (ec_date_field ?c) ''LTE'', hq_end q)
        # map (\<lambda>(field, x). (condition_name field ''EQ'', x)) fs"
    using assms by (auto simp: validate_historical_query_def Let_def exc_simps split: if_splits)
  have "all_digits (lit ''01'')" by (simp add: lit_def all_digits_def is_digit_def)
  then have "list_all (\<lambda>(_, x). all_digits x) fs"
    using add_filters_digits [OF fs] category_digits [OF category] by (simp add: initial_filters_def)
  moreover have "all_digits (hq_start q)" "all_digits (hq_end q)"
    using range by (auto simp: validate_range_def exc_simps parse_month_def parse_day_def split: if_splits)
  ultimately show ?thesis by (auto simp: v list_all_iff)
qed

lemma surrogate_free_names:
  assumes "f \<in> set (allowed_condition_names (endpoint_contract d))"
  shows "surrogate_free f"
  using assms by (cases d) (auto simp: allowed_condition_names_def condition_name_def surrogate_def)

definition historical_parameters ::
    "prepared_historical_request \<Rightarrow> pystr \<Rightarrow> nat \<Rightarrow> nat \<Rightarrow> (pystr \<times> pystr) list" where
  "historical_parameters p key page_number page_size =
     [(lit ''serviceKey'', key), (lit ''returnType'', lit ''JSON''),
      (lit ''pageNo'', nat_text page_number), (lit ''numOfRows'', nat_text page_size)]
     @ vq_conditions (ph_query p)"

lemma historical_parameters_clean:
  assumes "prepare_historical_request d q = Inr p" and "surrogate_free key"
  shows "list_all (\<lambda>(k, v). surrogate_free k \<and> surrogate_free v) (historical_parameters p key n page_size)"
proof -
  note p = prepared_request [OF assms(1)]
  have "list_all (\<lambda>(k, v). surrogate_free k \<and> surrogate_free v) (vq_conditions (ph_query p))"
    unfolding list_all_iff
  proof (intro ballI, clarify)
    fix k v
    assume kv: "(k, v) \<in> set (vq_conditions (ph_query p))"
    then have "k \<in> set (map fst (vq_conditions (ph_query p)))" by (metis fst_conv image_eqI list.set_map)
    then have "surrogate_free k" using p(3) surrogate_free_names by blast
    moreover have "surrogate_free v"
      using kv validated_conditions_digits [OF p(1)] by (auto simp: list_all_iff intro: surrogate_free_digits)
    ultimately show "surrogate_free k \<and> surrogate_free v" by simp
  qed
  then show ?thesis
    using assms(2) by (simp add: historical_parameters_def surrogate_free_digits all_digits_nat_text)
qed

lemma build_historical_request_prepared:
  assumes "prepare_historical_request d q = Inr p"
  shows "build_historical_request p key n page_size =
    (case urlencode (historical_parameters p key n page_size) of
       Inl text \<Rightarrow> Inl (TextNotEncodable text)
     | Inr query \<Rightarrow> Inr (get_request (ec_endpoint (endpoint_contract d)) query))"
proof -
  note p = prepared_request [OF assms]
  have "vq_dataset (ph_query p) = d" using validated_condition_names(1) [OF p(1)] .
  then show ?thesis
    using p(3) by (auto simp: build_historical_request_def historical_parameters_def Let_def
        COMMON_PARAMETER_NAMES_def)
qed

text \<open>
  C15: what building a page of a prepared request answers. With a credential that UTF-8 can encode
  it is a GET request of the fixed endpoint of the dataset whose query reads back, part by part, as
  the four common parameters and the validated conditions: no value, the credential included, adds,
  drops or renames a parameter. With a credential that holds a lone surrogate it is not the
  redacted contract error but the interpreter's encoding error, which carries the credential.
\<close>

theorem build_historical_request_outcome:
  assumes "prepare_historical_request d q = Inr p"
  shows "(surrogate_free key \<longrightarrow>
      (\<exists>query. build_historical_request p key page_number page_size
           = Inr (get_request (ec_endpoint (endpoint_contract d)) query)
         \<and> map (map_prod Some Some) (decode_query query) = map (map_prod utf8 utf8)
             ([(lit ''serviceKey'', key), (lit ''returnType'', lit ''JSON''),
               (lit ''pageNo'', nat_text page_number), (lit ''numOfRows'', nat_text page_size)]
              @ vq_conditions (ph_query p))))
    \<and> (\<not> surrogate_free key \<longrightarrow>
        build_historical_request p key page_number page_size = Inl (TextNotEncodable key))"
proof (intro conjI impI)
  assume "surrogate_free key"
  then obtain query where "urlencode (historical_parameters p key page_number page_size) = Inr query"
    using urlencode_clean historical_parameters_clean [OF assms] by blast
  then show "\<exists>query. build_historical_request p key page_number page_size
       = Inr (get_request (ec_endpoint (endpoint_contract d)) query)
     \<and> map (map_prod Some Some) (decode_query query) = map (map_prod utf8 utf8)
         ([(lit ''serviceKey'', key), (lit ''returnType'', lit ''JSON''),
           (lit ''pageNo'', nat_text page_number), (lit ''numOfRows'', nat_text page_size)]
          @ vq_conditions (ph_query p))"
    using decode_urlencode
    by (intro exI [of _ query]) (simp add: build_historical_request_prepared [OF assms] historical_parameters_def)
next
  assume "\<not> surrogate_free key"
  then show "build_historical_request p key page_number page_size = Inl (TextNotEncodable key)"
    by (simp add: build_historical_request_prepared [OF assms] historical_parameters_def urlencode_surrogate)
qed

lemma example_prepared:
  "prepare_historical_request MONTHLY example_query =
     Inr \<lparr>ph_query = example_validated,
          ph_request_shape = request_shape_of (endpoint_contract MONTHLY) (map fst (vq_conditions example_validated)),
          ph_scope_sha256 = canonical_hash_ascii (scope_json example_validated)\<rparr>"
  using validated_conditions_allowed [OF example_query_valid] validated_condition_names(1) [OF example_query_valid]
  by (simp add: prepare_historical_request_def example_query_valid Let_def)

lemma prepared_shape_is_safe_and_value_free_witness:
  "is_safe_historical_request_shape
     (request_shape_of (endpoint_contract MONTHLY) (map fst (vq_conditions example_validated)))"
  using prepared_shape_is_safe_and_value_free [OF example_prepared example_prepared] by simp

lemma build_historical_request_outcome_witness:
  "\<exists>p. prepare_historical_request MONTHLY example_query = Inr p
     \<and> succeeds (build_historical_request p (lit ''secret'') 1 100)
     \<and> build_historical_request p [115, 56512] 1 100 = Inl (TextNotEncodable [115, 56512])"
  using example_prepared build_historical_request_outcome [OF example_prepared, of "lit ''secret''" 1 100]
    build_historical_request_outcome [OF example_prepared, of "[115, 56512]" 1 100]
  by (auto simp: surrogate_def)

end
