(* ===== verification/Kamis_Client.thy ===== *)
theory Kamis_Client
  imports Historical_Client
begin

text \<open>
  The bounded HTTP client (\<open>grocery/source/client.py\<close>): the redacted error, one exchange, the
  decoding of a page, the retries of a page and the loop over pages. The other side is a
  parameter: what an opened request yields (\<open>cl_exchange\<close>, a function of the request and of the
  number of calls made so far, so a server may answer differently every time), and three
  functions of the standard library (\<open>json.loads\<close> of a body, the parse of a content type and
  \<open>unquote\<close>). The state is the call budget with the log of calls and of pauses.
\<close>

section \<open>Constants\<close>

definition KAMIS_ENDPOINT :: pystr where
  "KAMIS_ENDPOINT = lit ''https://apis.data.go.kr/B552845/recent/price''"

definition REDACTED_REQUEST_SHAPE :: pystr where
  "REDACTED_REQUEST_SHAPE = lit (''GET /B552845/recent/price ''
     @ ''parameters=[numOfRows,pageNo,returnType,serviceKey:<redacted>]'')"

definition MAX_PAGE_BYTES :: nat where "MAX_PAGE_BYTES = 4 * 1024 * 1024"
definition MAX_PAGES :: nat where "MAX_PAGES = 12"
definition MAX_CALLS :: nat where "MAX_CALLS = 12"
definition MAX_ATTEMPTS_PER_PAGE :: nat where "MAX_ATTEMPTS_PER_PAGE = 3"
definition MAX_PAGE_SIZE :: int where "MAX_PAGE_SIZE = 1000"

definition SUCCESS_TOP_LEVEL_KEYS :: "pystr list" where
  "SUCCESS_TOP_LEVEL_KEYS = [lit ''response'']"
definition SUCCESS_RESPONSE_KEYS :: "pystr list" where
  "SUCCESS_RESPONSE_KEYS = map lit [''header'', ''body'']"
definition HEADER_KEYS :: "pystr list" where
  "HEADER_KEYS = map lit [''resultCode'', ''resultMsg'']"
definition BODY_KEYS :: "pystr list" where
  "BODY_KEYS = map lit [''dataType'', ''items'', ''numOfRows'', ''pageNo'', ''totalCount'']"
definition ITEMS_KEYS :: "pystr list" where
  "ITEMS_KEYS = [lit ''item'']"

text \<open>\<open>-?[0-9]{1,3}\Z\<close>\<close>

definition safe_provider_code :: "pystr \<Rightarrow> bool" where
  "safe_provider_code s \<longleftrightarrow>
     (let digits = (case s of c # cs \<Rightarrow> if c = 45 then cs else s | [] \<Rightarrow> s)
      in 1 \<le> length digits \<and> length digits \<le> 3 \<and> all_digits digits)"

definition RETRYABLE_PROVIDER_CODES :: "pystr list" where
  "RETRYABLE_PROVIDER_CODES = map lit [''-1'', ''-5'', ''-10'', ''22'', ''23'']"

text \<open>Milliseconds; the source gives 0.25 and 1.0 seconds.\<close>

definition RETRY_DELAYS :: "nat list" where
  "RETRY_DELAYS = [250, 1000]"

definition SAFE_TRANSPORT_ERROR_CODES :: "string list" where
  "SAFE_TRANSPORT_ERROR_CODES =
     [''call_budget_exceeded'', ''declared_page_mismatch'', ''declared_page_size_mismatch'',
      ''declared_total_changed'', ''invalid_body'', ''invalid_content_length'',
      ''invalid_declared_page'', ''invalid_declared_page_size'', ''invalid_declared_total'',
      ''invalid_envelope'', ''invalid_header'', ''invalid_http_status'', ''invalid_items_envelope'',
      ''invalid_json'', ''invalid_page_size'', ''invalid_historical_dataset'',
      ''invalid_historical_filter'', ''invalid_historical_range'', ''invalid_historical_date'',
      ''missing_historical_region'', ''invalid_provider_header'', ''invalid_response_state'',
      ''invalid_retry_state'', ''item_not_object'', ''items_not_array'', ''missing_charset'',
      ''missing_content_type'', ''page_budget_exceeded'', ''page_row_count_mismatch'',
      ''page_too_large'', ''redirect_not_allowed'', ''request_parameter_allowlist_violation'',
      ''response_body_not_bytes'', ''retry_exhausted'', ''row_total_exceeded'',
      ''service_key_missing'', ''terminal_http_status'', ''terminal_provider_error'', ''tls_error'',
      ''tls_verification_failed'', ''transport_internal_error'', ''unexpected_charset'',
      ''unexpected_content_type'', ''unexpected_data_type'', ''unexpected_envelope_keys'']"

section \<open>Receipts, results and errors\<close>

record page_receipt =
  pr_ordinal :: nat
  pr_requested_page_number :: nat
  pr_declared_page_number :: nat
  pr_declared_page_size :: nat
  pr_declared_total_count :: nat
  pr_row_count :: nat
  pr_http_status :: int
  pr_provider_result_code :: pystr
  pr_byte_length :: nat
  pr_body_sha256 :: pystr

type_synonym json_object = "(pystr \<times> json) list"

record kamis_fetch_result =
  fr_rows :: "json_object list"
  fr_page_receipts :: "page_receipt list"
  fr_ordered_manifest_sha256 :: pystr
  fr_call_count :: nat
  fr_request_scope_sha256 :: "pystr option"

record decoded_page =
  dp_items :: "json_object list"
  dp_declared_page_number :: nat
  dp_declared_page_size :: nat
  dp_declared_total_count :: nat
  dp_provider_result_code :: pystr
  dp_byte_length :: nat
  dp_body_sha256 :: pystr

record retry_signal =
  rs_code :: string
  rs_http_status :: "int option"
  rs_provider_result_code :: "pystr option"

record transport_error =
  te_code :: string
  te_page_number :: "nat option"
  te_attempt :: "nat option"
  te_http_status :: "int option"
  te_provider_result_code :: "pystr option"
  te_partial_page_receipts :: "page_receipt list"
  te_request_shape :: pystr

text \<open>
  \<open>KamisTransportError.__init__\<close> keeps only what is on its allowlists; here each argument has
  its declared type already.
\<close>

definition kamis_transport_error ::
    "string \<Rightarrow> nat option \<Rightarrow> nat option \<Rightarrow> int option \<Rightarrow> pystr option \<Rightarrow> transport_error" where
  "kamis_transport_error code page attempt status provider_code =
     \<lparr>te_code = (if code \<in> set SAFE_TRANSPORT_ERROR_CODES then code else ''unclassified_transport_error''),
      te_page_number = (case page of Some p \<Rightarrow> if 0 < p then Some p else None | None \<Rightarrow> None),
      te_attempt = (case attempt of Some a \<Rightarrow> if 0 < a then Some a else None | None \<Rightarrow> None),
      te_http_status = (case status of Some s \<Rightarrow> if 100 \<le> s \<and> s \<le> 599 then Some s else None | None \<Rightarrow> None),
      te_provider_result_code =
        (case provider_code of Some c \<Rightarrow> if safe_provider_code c then Some c else None | None \<Rightarrow> None),
      te_partial_page_receipts = [], te_request_shape = REDACTED_REQUEST_SHAPE\<rparr>"

text \<open>
  An exception of the client: the redacted one, or one of the interpreter that escapes it. The
  encoding error of \<open>urlencode\<close> is told apart, since its object is the text it could not encode.
\<close>

datatype fetch_error = Transport transport_error | Escaped | EncodeFailure pystr

abbreviation fail_code :: "string \<Rightarrow> fetch_error + 'a" where
  "fail_code code \<equiv> Inl (Transport (kamis_transport_error code None None None None))"

abbreviation fail_page :: "string \<Rightarrow> nat \<Rightarrow> fetch_error + 'a" where
  "fail_page code page \<equiv> Inl (Transport (kamis_transport_error code (Some page) None None None))"

abbreviation fail_status :: "string \<Rightarrow> nat \<Rightarrow> int option \<Rightarrow> fetch_error + 'a" where
  "fail_status code page status \<equiv> Inl (Transport (kamis_transport_error code (Some page) None status None))"

definition retain_completed_pages :: "page_receipt list \<Rightarrow> transport_error \<Rightarrow> transport_error" where
  "retain_completed_pages receipts e = e\<lparr>te_partial_page_receipts := receipts\<rparr>"

definition use_request_shape :: "pystr \<Rightarrow> transport_error \<Rightarrow> transport_error" where
  "use_request_shape shape e =
     (if shape \<noteq> REDACTED_REQUEST_SHAPE \<and> \<not> is_safe_historical_request_shape shape then e
      else e\<lparr>te_request_shape := shape\<rparr>)"


section \<open>The other side\<close>

datatype header_value = HeaderMissing | HeaderText pystr | HeaderNotText

text \<open>What opening a request or reading a body may raise, in the classes the client tells apart.\<close>

datatype open_failure =
    HttpFailure "int option"
  | CertificateFailure
  | TlsFailure
  | TimeoutFailure
  | NetworkFailure
  | OtherFailure

datatype status_value = StatusInt int | StatusNotInt

datatype body_read = ReadBytes "nat list" | ReadNotBytes | ReadRaises open_failure

record http_response =
  rsp_status :: status_value
  rsp_content_type :: header_value
  rsp_content_length :: header_value
  rsp_read :: body_read

datatype exchange = Opened http_response | OpenRaises open_failure

text \<open>
  \<open>json.loads\<close> of the decoded bytes, before its hook rejects duplicate keys: a tree whose
  objects list every pair of the text, a decoding or syntax error, or another exception.
\<close>

datatype loads_result = Loaded json | JsonDecodeFailure | OtherLoadFailure

record transport =
  cl_exchange :: "http_request \<Rightarrow> nat \<Rightarrow> exchange"
  cl_loads :: "nat list \<Rightarrow> loads_result"
  cl_content_type :: "pystr \<Rightarrow> pystr \<times> pystr option"
  cl_unquote :: "pystr \<Rightarrow> pystr"

section \<open>One exchange\<close>

definition is_ascii :: "pystr \<Rightarrow> bool" where
  "is_ascii s \<longleftrightarrow> list_all (\<lambda>c. c < 128) s"

definition ascii_lower :: "pystr \<Rightarrow> pystr" where
  "ascii_lower s = map (\<lambda>c. if is_upper c then c + 32 else c) s"

definition validated_content_type :: "transport \<Rightarrow> header_value \<Rightarrow> fetch_error + pystr" where
  "validated_content_type tr h =
     (case h of
        HeaderText raw \<Rightarrow>
          (case cl_content_type tr raw of (media_type, charset) \<Rightarrow>
             if ascii_lower media_type \<noteq> lit ''application/json'' then fail_code ''unexpected_content_type''
             else (case charset of
                None \<Rightarrow> fail_code ''missing_charset''
              | Some c \<Rightarrow>
                  if \<not> is_ascii c then fail_code ''unexpected_charset''
                  else if map (\<lambda>x. if x = 95 then 45 else x) (ascii_lower c) \<notin> {lit ''utf-8'', lit ''utf8''}
                  then fail_code ''unexpected_charset''
                  else Inr (ascii_lower media_type)))
      | _ \<Rightarrow> fail_code ''missing_content_type'')"

text \<open>\<open>int(text)\<close> refuses more than 4300 digits with a \<open>ValueError\<close>, which the caller turns
  into its internal error (\<open>None\<close> here).\<close>

definition content_length :: "header_value \<Rightarrow> fetch_error + nat option option" where
  "content_length h =
     (case h of
        HeaderMissing \<Rightarrow> Inr (Some None)
      | HeaderNotText \<Rightarrow> fail_code ''invalid_content_length''
      | HeaderText t \<Rightarrow>
          if t = [] \<or> \<not> all_digits t then fail_code ''invalid_content_length''
          else if 4300 < length t then Inr None
          else Inr (Some (Some (text_nat t))))"

definition classify_failure :: "nat \<Rightarrow> open_failure \<Rightarrow> fetch_error + retry_signal" where
  "classify_failure page f =
     (case f of
        HttpFailure status \<Rightarrow>
          (case status of
             None \<Rightarrow> fail_status ''terminal_http_status'' page None
           | Some s \<Rightarrow>
               if 300 \<le> s \<and> s < 400 then fail_status ''redirect_not_allowed'' page status
               else if s = 429 \<or> 500 \<le> s \<and> s < 600
               then Inr \<lparr>rs_code = ''retryable_http_status'', rs_http_status = status,
                         rs_provider_result_code = None\<rparr>
               else fail_status ''terminal_http_status'' page status)
      | CertificateFailure \<Rightarrow> fail_page ''tls_verification_failed'' page
      | TlsFailure \<Rightarrow> fail_page ''tls_error'' page
      | TimeoutFailure \<Rightarrow>
          Inr \<lparr>rs_code = ''timeout'', rs_http_status = None, rs_provider_result_code = None\<rparr>
      | NetworkFailure \<Rightarrow>
          Inr \<lparr>rs_code = ''network_error'', rs_http_status = None, rs_provider_result_code = None\<rparr>
      | OtherFailure \<Rightarrow> fail_page ''transport_internal_error'' page)"

text \<open>The body of a response with status 200: the bytes read, or a reason to retry.\<close>

definition read_ok_response ::
    "transport \<Rightarrow> nat \<Rightarrow> http_response \<Rightarrow> fetch_error + (nat list + retry_signal)" where
  "read_ok_response tr page rsp =
     ebind (validated_content_type tr (rsp_content_type rsp)) (\<lambda>_.
     ebind (content_length (rsp_content_length rsp)) (\<lambda>declared.
       (case declared of
          None \<Rightarrow> fail_page ''transport_internal_error'' page
        | Some declared_length \<Rightarrow>
            if (case declared_length of None \<Rightarrow> False | Some n \<Rightarrow> MAX_PAGE_BYTES < n)
            then fail_status ''page_too_large'' page (Some 200)
            else (case rsp_read rsp of
                ReadBytes bs \<Rightarrow> Inr (Inl bs)
              | ReadNotBytes \<Rightarrow> fail_page ''response_body_not_bytes'' page
              | ReadRaises f \<Rightarrow> ebind (classify_failure page f) (\<lambda>r. Inr (Inr r))))))"

definition read_exchange ::
    "transport \<Rightarrow> nat \<Rightarrow> exchange \<Rightarrow> fetch_error + (nat list + retry_signal)" where
  "read_exchange tr page x =
     (case x of
        OpenRaises f \<Rightarrow> ebind (classify_failure page f) (\<lambda>r. Inr (Inr r))
      | Opened rsp \<Rightarrow>
          (case rsp_status rsp of
             StatusNotInt \<Rightarrow> fail_page ''invalid_http_status'' page
           | StatusInt s \<Rightarrow>
               if 300 \<le> s \<and> s < 400 then fail_status ''redirect_not_allowed'' page (Some s)
               else if s = 429 \<or> 500 \<le> s \<and> s < 600
               then Inr (Inr \<lparr>rs_code = ''retryable_http_status'', rs_http_status = Some s,
                              rs_provider_result_code = None\<rparr>)
               else if s \<noteq> 200 then fail_status ''terminal_http_status'' page (Some s)
               else read_ok_response tr page rsp))"

section \<open>Decoding a page\<close>

text \<open>\<open>_reject_duplicate_keys\<close>, called on every object of the text.\<close>

fun unique_keys :: "json \<Rightarrow> bool" where
  "unique_keys (JArr xs) = list_all unique_keys xs"
| "unique_keys (JObj kvs) = (distinct (map fst kvs) \<and> list_all (\<lambda>(_, v). unique_keys v) kvs)"
| "unique_keys _ = True"

fun require_object :: "json \<Rightarrow> string \<Rightarrow> nat \<Rightarrow> fetch_error + json_object" where
  "require_object (JObj kvs) code page = Inr kvs"
| "require_object _ code page = fail_page code page"

definition require_exact_keys :: "json_object \<Rightarrow> pystr list \<Rightarrow> nat \<Rightarrow> fetch_error + unit" where
  "require_exact_keys obj expected page =
     (if set (map fst obj) = set expected then Inr () else fail_page ''unexpected_envelope_keys'' page)"

fun require_nonnegative_int :: "json \<Rightarrow> string \<Rightarrow> nat \<Rightarrow> fetch_error + nat" where
  "require_nonnegative_int (JInt i) code page = (if 0 \<le> i then Inr (nat i) else fail_page code page)"
| "require_nonnegative_int _ code page = fail_page code page"

text \<open>\<open>object[key]\<close>; a missing key would escape as \<open>KeyError\<close>.\<close>

definition member :: "json_object \<Rightarrow> string \<Rightarrow> fetch_error + json" where
  "member obj key = of_option Escaped (map_of obj (lit key))"


definition load_body :: "transport \<Rightarrow> nat list \<Rightarrow> nat \<Rightarrow> fetch_error + json" where
  "load_body tr raw page =
     (case cl_loads tr raw of
        JsonDecodeFailure \<Rightarrow> fail_page ''invalid_json'' page
      | OtherLoadFailure \<Rightarrow> Inl Escaped
      | Loaded j \<Rightarrow> if unique_keys j then Inr j else fail_page ''invalid_json'' page)"

text \<open>The provider header: \<open>None\<close> for success, else the code of a retryable provider error.\<close>

definition provider_header :: "json_object \<Rightarrow> nat \<Rightarrow> fetch_error + (pystr + pystr)" where
  "provider_header header page =
     ebind (member header ''resultCode'') (\<lambda>code.
     ebind (member header ''resultMsg'') (\<lambda>msg.
       (case (code, msg) of
          (JStr c, JStr _) \<Rightarrow>
            if \<not> safe_provider_code c then fail_page ''invalid_provider_header'' page
            else if c = lit ''0'' then Inr (Inl c)
            else if c \<in> set RETRYABLE_PROVIDER_CODES then Inr (Inr c)
            else Inl (Transport (kamis_transport_error ''terminal_provider_error'' (Some page) None None (Some c)))
        | _ \<Rightarrow> fail_page ''invalid_provider_header'' page)))"

fun require_items :: "json list \<Rightarrow> nat \<Rightarrow> fetch_error + json_object list" where
  "require_items [] page = Inr []"
| "require_items (JObj kvs # xs) page = ebind (require_items xs page) (\<lambda>ys. Inr (kvs # ys))"
| "require_items (_ # xs) page = fail_page ''item_not_object'' page"

definition decode_body ::
    "transport \<Rightarrow> nat list \<Rightarrow> json_object \<Rightarrow> pystr \<Rightarrow> nat \<Rightarrow> nat \<Rightarrow> fetch_error + decoded_page" where
  "decode_body tr raw response provider_code page page_size =
     ebind (ebind (member response ''body'') (\<lambda>j. require_object j ''invalid_body'' page)) (\<lambda>body.
     ebind (require_exact_keys body BODY_KEYS page) (\<lambda>_.
     ebind (member body ''dataType'') (\<lambda>data_type.
     if data_type \<noteq> JStr (lit ''JSON'') then fail_page ''unexpected_data_type'' page else
     ebind (ebind (member body ''pageNo'')
              (\<lambda>j. require_nonnegative_int j ''invalid_declared_page'' page)) (\<lambda>declared_page.
     ebind (ebind (member body ''numOfRows'')
              (\<lambda>j. require_nonnegative_int j ''invalid_declared_page_size'' page)) (\<lambda>declared_size.
     ebind (ebind (member body ''totalCount'')
              (\<lambda>j. require_nonnegative_int j ''invalid_declared_total'' page)) (\<lambda>declared_total.
     if declared_page \<noteq> page then fail_page ''declared_page_mismatch'' page
     else if declared_size \<noteq> page_size then fail_page ''declared_page_size_mismatch'' page else
     ebind (ebind (member body ''items'')
              (\<lambda>j. require_object j ''invalid_items_envelope'' page)) (\<lambda>container.
     ebind (require_exact_keys container ITEMS_KEYS page) (\<lambda>_.
     ebind (member container ''item'') (\<lambda>raw_items.
       (case raw_items of
          JArr xs \<Rightarrow> ebind (require_items xs page) (\<lambda>items.
            Inr \<lparr>dp_items = items, dp_declared_page_number = declared_page,
                 dp_declared_page_size = declared_size, dp_declared_total_count = declared_total,
                 dp_provider_result_code = provider_code, dp_byte_length = length raw,
                 dp_body_sha256 = sha256 raw\<rparr>)
        | _ \<Rightarrow> fail_page ''items_not_array'' page))))))))))"

definition decode_page ::
    "transport \<Rightarrow> nat list \<Rightarrow> nat \<Rightarrow> nat \<Rightarrow> fetch_error + (decoded_page + retry_signal)" where
  "decode_page tr raw page page_size =
     ebind (load_body tr raw page) (\<lambda>decoded.
     ebind (require_object decoded ''invalid_envelope'' page) (\<lambda>top.
     ebind (require_exact_keys top SUCCESS_TOP_LEVEL_KEYS page) (\<lambda>_.
     ebind (ebind (member top ''response'') (\<lambda>j. require_object j ''invalid_envelope'' page)) (\<lambda>response.
     ebind (require_exact_keys response SUCCESS_RESPONSE_KEYS page) (\<lambda>_.
     ebind (ebind (member response ''header'') (\<lambda>j. require_object j ''invalid_header'' page)) (\<lambda>header.
     ebind (require_exact_keys header HEADER_KEYS page) (\<lambda>_.
     ebind (provider_header header page) (\<lambda>code.
       (case code of
          Inr c \<Rightarrow> Inr (Inr \<lparr>rs_code = ''retryable_provider_error'', rs_http_status = None,
                              rs_provider_result_code = Some c\<rparr>)
        | Inl c \<Rightarrow> ebind (decode_body tr raw response c page page_size) (\<lambda>p. Inr (Inl p)))))))))))"

section \<open>Requests\<close>

definition normalize_service_key :: "transport \<Rightarrow> pystr \<Rightarrow> fetch_error + pystr" where
  "normalize_service_key tr key =
     (if key = [] \<or> cl_unquote tr key = [] then fail_code ''service_key_missing''
      else Inr (cl_unquote tr key))"

definition validate_page_size :: "int \<Rightarrow> fetch_error + unit" where
  "validate_page_size page_size =
     (if page_size < 1 \<or> MAX_PAGE_SIZE < page_size then fail_code ''invalid_page_size'' else Inr ())"

type_synonym request_builder = "pystr \<Rightarrow> nat \<Rightarrow> nat \<Rightarrow> fetch_error + http_request"

definition build_request :: request_builder where
  "build_request key page page_size =
     (let parameters = [(lit ''serviceKey'', key), (lit ''returnType'', lit ''json''),
                        (lit ''pageNo'', nat_text page), (lit ''numOfRows'', nat_text page_size)]
      in if set (map fst parameters) \<noteq> set COMMON_PARAMETER_NAMES
         then fail_code ''request_parameter_allowlist_violation''
         else (case urlencode parameters of
             Inl text \<Rightarrow> Inl (EncodeFailure text)
           | Inr query \<Rightarrow> Inr (get_request KAMIS_ENDPOINT query)))"

definition request_once ::
    "transport \<Rightarrow> http_request \<Rightarrow> nat \<Rightarrow> nat \<Rightarrow> nat \<Rightarrow> fetch_error + (decoded_page + retry_signal)" where
  "request_once tr request calls page page_size =
     ebind (read_exchange tr page (cl_exchange tr request calls)) (\<lambda>out. case out of
        Inr r \<Rightarrow> Inr (Inr r)
      | Inl raw \<Rightarrow>
          if MAX_PAGE_BYTES < length raw then fail_status ''page_too_large'' page (Some 200)
          else decode_page tr raw page page_size)"

section \<open>Retries of one page\<close>

record client_state =
  cs_count :: nat
  cs_requests :: "http_request list"
  cs_sleeps :: "nat list"

definition initial_client_state :: client_state where
  "initial_client_state = \<lparr>cs_count = 0, cs_requests = [], cs_sleeps = []\<rparr>"

definition consume :: "nat \<Rightarrow> nat \<Rightarrow> client_state \<Rightarrow> fetch_error + client_state" where
  "consume page attempt st =
     (if MAX_CALLS \<le> cs_count st
      then Inl (Transport (kamis_transport_error ''call_budget_exceeded'' (Some page) (Some attempt) None None))
      else Inr (st\<lparr>cs_count := cs_count st + 1\<rparr>))"

text \<open>\<open>remaining\<close> attempts are left, the next one being \<open>attempt\<close>.\<close>

fun fetch_attempts ::
    "transport \<Rightarrow> request_builder \<Rightarrow> pystr \<Rightarrow> nat \<Rightarrow> nat \<Rightarrow> nat \<Rightarrow> nat \<Rightarrow> retry_signal option
      \<Rightarrow> client_state \<Rightarrow> (fetch_error + decoded_page) \<times> client_state" where
  "fetch_attempts tr build key page page_size attempt 0 last_retry st =
     ((case last_retry of
         None \<Rightarrow> fail_page ''invalid_retry_state'' page
       | Some r \<Rightarrow> Inl (Transport (kamis_transport_error ''retry_exhausted'' (Some page)
                     (Some MAX_ATTEMPTS_PER_PAGE) (rs_http_status r) (rs_provider_result_code r)))), st)"
| "fetch_attempts tr build key page page_size attempt (Suc remaining) last_retry st =
     (case consume page attempt st of
        Inl e \<Rightarrow> (Inl e, st)
      | Inr st1 \<Rightarrow>
          (case build key page page_size of
             Inl e \<Rightarrow> (Inl e, st1)
           | Inr request \<Rightarrow>
               let st2 = st1\<lparr>cs_requests := cs_requests st1 @ [request]\<rparr> in
               (case request_once tr request (cs_count st1) page page_size of
                  Inl e \<Rightarrow> (Inl e, st2)
                | Inr (Inl decoded) \<Rightarrow> (Inr decoded, st2)
                | Inr (Inr r) \<Rightarrow>
                    let st3 = (if attempt < MAX_ATTEMPTS_PER_PAGE
                               then st2\<lparr>cs_sleeps := cs_sleeps st2 @ [RETRY_DELAYS ! (attempt - 1)]\<rparr>
                               else st2)
                    in fetch_attempts tr build key page page_size (attempt + 1) remaining (Some r) st3)))"

definition fetch_page ::
    "transport \<Rightarrow> request_builder \<Rightarrow> pystr \<Rightarrow> nat \<Rightarrow> nat \<Rightarrow> client_state
      \<Rightarrow> (fetch_error + decoded_page) \<times> client_state" where
  "fetch_page tr build key page page_size st =
     fetch_attempts tr build key page page_size 1 MAX_ATTEMPTS_PER_PAGE None st"


section \<open>All pages\<close>

definition required_pages :: "nat \<Rightarrow> nat \<Rightarrow> nat" where
  "required_pages total_rows page_size = max 1 ((total_rows + page_size - 1) div page_size)"

definition page_receipt_of :: "nat \<Rightarrow> nat \<Rightarrow> decoded_page \<Rightarrow> page_receipt" where
  "page_receipt_of received page d =
     \<lparr>pr_ordinal = received + 1, pr_requested_page_number = page,
      pr_declared_page_number = dp_declared_page_number d,
      pr_declared_page_size = dp_declared_page_size d,
      pr_declared_total_count = dp_declared_total_count d, pr_row_count = length (dp_items d),
      pr_http_status = 200, pr_provider_result_code = dp_provider_result_code d,
      pr_byte_length = dp_byte_length d, pr_body_sha256 = dp_body_sha256 d\<rparr>"

text \<open>The total every page must declare, fixed by the first page.\<close>

definition check_total :: "nat option \<Rightarrow> nat \<Rightarrow> nat \<Rightarrow> nat \<Rightarrow> fetch_error + nat" where
  "check_total expected page page_size declared =
     (case expected of
        None \<Rightarrow> if MAX_PAGES < required_pages declared page_size
                then fail_page ''page_budget_exceeded'' page else Inr declared
      | Some total_rows \<Rightarrow> if declared \<noteq> total_rows then fail_page ''declared_total_changed'' page else Inr total_rows)"

text \<open>
  The loop from \<open>page\<close> on, with the rows and receipts so far. An error is returned with the
  receipts of the pages completed before it.
\<close>

function fetch_loop ::
    "transport \<Rightarrow> request_builder \<Rightarrow> pystr \<Rightarrow> nat \<Rightarrow> nat \<Rightarrow> nat option \<Rightarrow> json_object list
      \<Rightarrow> page_receipt list \<Rightarrow> client_state
      \<Rightarrow> ((fetch_error \<times> page_receipt list) + (json_object list \<times> page_receipt list)) \<times> client_state" where
  "fetch_loop tr build key page_size page expected rows receipts st =
     (case fetch_page tr build key page page_size st of
        (Inl e, st1) \<Rightarrow> (Inl (e, receipts), st1)
      | (Inr d, st1) \<Rightarrow>
          (case check_total expected page page_size (dp_declared_total_count d) of
             Inl e \<Rightarrow> (Inl (e, receipts), st1)
           | Inr total_rows \<Rightarrow>
               if length (dp_items d) \<noteq> min page_size (total_rows - length rows)
               then (Inl (Transport (kamis_transport_error ''page_row_count_mismatch'' (Some page) None None None),
                          receipts), st1)
               else
                 let rows' = rows @ dp_items d;
                     receipts' = receipts @ [page_receipt_of (length receipts) page d]
                 in if length rows' = total_rows then (Inr (rows', receipts'), st1)
                    else if length rows' > total_rows
                    then (Inl (Transport (kamis_transport_error ''row_total_exceeded'' (Some page) None None None),
                               receipts'), st1)
                    else if page + 1 > MAX_PAGES
                    then (Inl (Transport (kamis_transport_error ''page_budget_exceeded'' (Some (page + 1)) None None None),
                               receipts'), st1)
                    else fetch_loop tr build key page_size (page + 1) (Some total_rows) rows' receipts' st1))"
  by pat_completeness auto

termination
  by (relation "measure (\<lambda>(_, _, _, _, page, _). MAX_PAGES + 1 - page)") (auto simp: MAX_PAGES_def)

declare fetch_loop.simps [simp del]

definition ordered_manifest_sha256 :: "page_receipt list \<Rightarrow> pystr" where
  "ordered_manifest_sha256 receipts =
     canonical_hash_ascii (JArr (map (\<lambda>r. JStr (pr_body_sha256 r)) receipts))"

definition finish_fetch_error :: "pystr \<Rightarrow> fetch_error \<Rightarrow> page_receipt list \<Rightarrow> fetch_error" where
  "finish_fetch_error shape e receipts =
     (case e of Transport t \<Rightarrow> Transport (use_request_shape shape (retain_completed_pages receipts t))
      | Escaped \<Rightarrow> Escaped
      | EncodeFailure text \<Rightarrow> EncodeFailure text)"

definition fetch_prices ::
    "transport \<Rightarrow> pystr \<Rightarrow> int \<Rightarrow> request_builder \<Rightarrow> pystr \<Rightarrow> pystr option
      \<Rightarrow> (fetch_error + kamis_fetch_result) \<times> client_state" where
  "fetch_prices tr key page_size build shape scope =
     (case validate_page_size page_size of
        Inl e \<Rightarrow> (Inl e, initial_client_state)
      | Inr _ \<Rightarrow>
          (case fetch_loop tr build key (nat page_size) 1 None [] [] initial_client_state of
             (Inl (e, receipts), st) \<Rightarrow> (Inl (finish_fetch_error shape e receipts), st)
           | (Inr (rows, receipts), st) \<Rightarrow>
               (Inr \<lparr>fr_rows = rows, fr_page_receipts = receipts,
                     fr_ordered_manifest_sha256 = ordered_manifest_sha256 receipts,
                     fr_call_count = cs_count st, fr_request_scope_sha256 = scope\<rparr>, st)))"

definition fetch_recent_prices ::
    "transport \<Rightarrow> pystr \<Rightarrow> int \<Rightarrow> (fetch_error + kamis_fetch_result) \<times> client_state" where
  "fetch_recent_prices tr service_key page_size =
     (case normalize_service_key tr service_key of
        Inl e \<Rightarrow> (Inl e, initial_client_state)
      | Inr key \<Rightarrow> fetch_prices tr key page_size build_request REDACTED_REQUEST_SHAPE None)"

text \<open>
  A contract error is translated to a transport error with its code; an encoding error of the
  builder is not a contract error and passes.
\<close>

definition translate_contract :: "historical_contract_error + 'a \<Rightarrow> fetch_error + 'a" where
  "translate_contract m = (case m of Inl (HistoricalContractError code) \<Rightarrow> fail_code code | Inr x \<Rightarrow> Inr x)"

definition translate_build :: "request_error + 'a \<Rightarrow> fetch_error + 'a" where
  "translate_build m =
     (case m of
        Inl (ContractViolation (HistoricalContractError code)) \<Rightarrow> fail_code code
      | Inl (TextNotEncodable text) \<Rightarrow> Inl (EncodeFailure text)
      | Inr x \<Rightarrow> Inr x)"

definition fetch_historical_prices ::
    "transport \<Rightarrow> historical_dataset \<Rightarrow> pystr \<Rightarrow> historical_price_query \<Rightarrow> int
      \<Rightarrow> (fetch_error + kamis_fetch_result) \<times> client_state" where
  "fetch_historical_prices tr d service_key q page_size =
     (case translate_contract (prepare_historical_request d q) of
        Inl e \<Rightarrow> (Inl e, initial_client_state)
      | Inr prepared \<Rightarrow>
          (case normalize_service_key tr service_key of
             Inl e \<Rightarrow> (Inl e, initial_client_state)
           | Inr key \<Rightarrow>
               fetch_prices tr key page_size
                 (\<lambda>k page size. translate_build (build_historical_request prepared k page size))
                 (ph_request_shape prepared) (Some (ph_scope_sha256 prepared))))"

end
