(* ===== verification/Kamis_Identity.thy ===== *)
theory Kamis_Identity
  imports Py_Json
begin

text \<open>
  The reviewed identity contract of the recent source (\<open>grocery/source/kamis.py\<close>, first half,
  and \<open>grocery/source/registry.py\<close>): the observation of one row, the exact registry of names and
  units, its validation, and the initial registry of ten series. Korean literals are written as
  their code points. A mapping is an association list read with \<open>map_of\<close>.
\<close>

section \<open>Errors\<close>

text \<open>
  \<open>KamisParseError code row field\<close> is the redacted error of the module; the others are the
  exceptions of Python's own operations that the parser does not catch.
\<close>

datatype kamis_error =
    KamisParseError string "nat option" "pystr option"
  | UnhashableTypeError
  | UnicodeEncodeError
  | KeyError pystr
  | ValueError string

section \<open>Data\<close>

definition KAMIS_RETAIL_COVERAGE_IDENTITY :: pystr where
  "KAMIS_RETAIL_COVERAGE_IDENTITY = lit ''KAMIS_RETAIL_ALL_REGIONS_22_CITIES_V1''"

definition KAMIS_RETAIL_PRODUCT_CLASS_CODE :: pystr where
  "KAMIS_RETAIL_PRODUCT_CLASS_CODE = lit ''01''"

definition KAMIS_RETAIL_PRODUCT_CLASS_NAME :: pystr where
  "KAMIS_RETAIL_PRODUCT_CLASS_NAME = [49548, 47588]"

definition KAMIS_ALLOWED_CATEGORIES :: "(pystr \<times> pystr) list" where
  "KAMIS_ALLOWED_CATEGORIES =
     [(lit ''200'', [52292, 49548, 47448]), (lit ''400'', [44284, 51068, 47448])]"

type_synonym item_code_key = "pystr \<times> pystr"
type_synonym variety_code_key = "pystr \<times> pystr \<times> pystr"
type_synonym grade_code_key = "pystr \<times> pystr \<times> pystr \<times> pystr"
type_synonym series_code_key = "pystr \<times> pystr \<times> pystr \<times> pystr"

record identity_observation =
  io_product_class_code :: pystr
  io_product_class_name :: pystr
  io_category_code :: pystr
  io_category_name :: pystr
  io_item_code :: pystr
  io_item_name :: pystr
  io_variety_code :: pystr
  io_variety_name :: pystr
  io_grade_code :: pystr
  io_grade_name :: pystr
  io_raw_unit :: pystr
  io_raw_unit_size :: pystr
  io_coverage_identity :: pystr

definition observed_series :: "identity_observation \<Rightarrow> series_code_key" where
  "observed_series ob =
     (io_category_code ob, io_item_code ob, io_variety_code ob, io_grade_code ob)"

record identity_contract_evidence =
  ie_codebook_sha256 :: pystr
  ie_unit_contract_sha256 :: pystr
  ie_coverage_evidence_revision :: pystr

record exact_identity_registry =
  reg_item_names :: "(item_code_key \<times> pystr) list"
  reg_variety_names :: "(variety_code_key \<times> pystr) list"
  reg_grade_names :: "(grade_code_key \<times> pystr) list"
  reg_units :: "(series_code_key \<times> pystr \<times> pystr) list"
  reg_evidence :: identity_contract_evidence
  reg_coverage_identity :: pystr

section \<open>Construction\<close>

definition identity_contract_evidence_init ::
    "identity_contract_evidence \<Rightarrow> kamis_error + identity_contract_evidence" where
  "identity_contract_evidence_init e =
     ebind (require (sha256_text (ie_codebook_sha256 e))
              (ValueError ''codebook_sha256 must be a lowercase SHA-256'')) (\<lambda>_.
     ebind (require (sha256_text (ie_unit_contract_sha256 e))
              (ValueError ''unit_contract_sha256 must be a lowercase SHA-256'')) (\<lambda>_.
     ebind (require (strip (ie_coverage_evidence_revision e) \<noteq> [])
              (ValueError ''coverage_evidence_revision is required'')) (\<lambda>_. Inr e)))"

definition exact_identity_registry_init ::
    "exact_identity_registry \<Rightarrow> kamis_error + exact_identity_registry" where
  "exact_identity_registry_init r =
     ebind (require (strip (reg_coverage_identity r) \<noteq> [])
              (ValueError ''coverage_identity is required'')) (\<lambda>_.
     ebind (require (reg_item_names r \<noteq> [] \<and> reg_variety_names r \<noteq> []
                     \<and> reg_grade_names r \<noteq> [] \<and> reg_units r \<noteq> [])
              (ValueError ''reviewed identity registry cannot be empty'')) (\<lambda>_.
     ebind (eall (\<lambda>(k, _). require (map_of (reg_grade_names r) k \<noteq> None)
                    (ValueError ''unit contract has no matching reviewed grade code''))
              (reg_units r)) (\<lambda>_. Inr r)))"

definition build_identity_registry_from_reviewed_evidence where
  "build_identity_registry_from_reviewed_evidence items varieties grades units evidence coverage =
     exact_identity_registry_init
       \<lparr>reg_item_names = items, reg_variety_names = varieties, reg_grade_names = grades,
        reg_units = units, reg_evidence = evidence, reg_coverage_identity = coverage\<rparr>"

section \<open>Validation of an observation\<close>

definition validate_identity ::
    "exact_identity_registry \<Rightarrow> identity_observation \<Rightarrow> nat \<Rightarrow> kamis_error + unit" where
  "validate_identity r ob i =
     ebind (require (io_coverage_identity ob = reg_coverage_identity r)
              (KamisParseError ''coverage_identity_drift'' (Some i) None)) (\<lambda>_.
     ebind (require (io_product_class_code ob = KAMIS_RETAIL_PRODUCT_CLASS_CODE)
              (KamisParseError ''unsupported_product_class'' (Some i) (Some (lit ''se_cd'')))) (\<lambda>_.
     ebind (require (io_product_class_name ob = KAMIS_RETAIL_PRODUCT_CLASS_NAME)
              (KamisParseError ''product_class_name_drift'' (Some i) (Some (lit ''se_nm'')))) (\<lambda>_.
     (case map_of KAMIS_ALLOWED_CATEGORIES (io_category_code ob) of
        None \<Rightarrow> Inl (KamisParseError ''unsupported_category'' (Some i) (Some (lit ''ctgry_cd'')))
      | Some expected \<Rightarrow>
     ebind (require (io_category_name ob = expected)
              (KamisParseError ''category_name_drift'' (Some i) (Some (lit ''ctgry_nm'')))) (\<lambda>_.
     ebind (require (map_of (reg_item_names r) (io_category_code ob, io_item_code ob)
                       = Some (io_item_name ob))
              (KamisParseError ''item_code_name_drift'' (Some i) None)) (\<lambda>_.
     ebind (require (map_of (reg_variety_names r)
                       (io_category_code ob, io_item_code ob, io_variety_code ob)
                       = Some (io_variety_name ob))
              (KamisParseError ''variety_code_name_drift'' (Some i) None)) (\<lambda>_.
     ebind (require (map_of (reg_grade_names r)
                       (io_category_code ob, io_item_code ob, io_variety_code ob, io_grade_code ob)
                       = Some (io_grade_name ob))
              (KamisParseError ''grade_code_name_drift'' (Some i) None)) (\<lambda>_.
     require (map_of (reg_units r) (observed_series ob)
                = Some (io_raw_unit ob, io_raw_unit_size ob))
       (KamisParseError ''unit_identity_drift'' (Some i) None)))))))))"

section \<open>The initial registry\<close>

definition OFFICIAL_DOCS_ZIP_SHA256 :: pystr where
  "OFFICIAL_DOCS_ZIP_SHA256 =
     lit ''07417ea9eb882a33615721256ff8be3b131cdb10bbc9c7b40472bf049a7e0f88''"

definition IDENTITY_EVIDENCE_REVISION :: pystr where
  "IDENTITY_EVIDENCE_REVISION = lit ''15156063-codebook-live-canary-2026-08-30-v1''"

definition ITEM_NAMES :: "(item_code_key \<times> pystr) list" where
  "ITEM_NAMES =
    [
     ((lit ''200'', lit ''212''), [50577, 48176, 52628]),
     ((lit ''200'', lit ''213''), [49884, 44552, 52824]),
     ((lit ''200'', lit ''214''), [49345, 52628]),
     ((lit ''200'', lit ''215''), [50620, 44040, 51060, 48176, 52628]),
     ((lit ''400'', lit ''411''), [49324, 44284]),
     ((lit ''400'', lit ''414''), [54252, 46020]),
     ((lit ''400'', lit ''419''), [52280, 45796, 47000]),
     ((lit ''400'', lit ''420''), [54028, 51064, 50528, 54540]),
     ((lit ''400'', lit ''430''), [50500, 48372, 52852, 46020])]"

definition VARIETY_NAMES :: "(variety_code_key \<times> pystr) list" where
  "VARIETY_NAMES =
    [
     ((lit ''200'', lit ''212'', lit ''00''), [50577, 48176, 52628]),
     ((lit ''200'', lit ''213'', lit ''00''), [49884, 44552, 52824]),
     ((lit ''200'', lit ''214'', lit ''01''), [51201]),
     ((lit ''200'', lit ''214'', lit ''02''), [52397]),
     ((lit ''200'', lit ''215'', lit ''00''), [50620, 44040, 51060, 48176, 52628]),
     ((lit ''400'', lit ''411'', lit ''06''), [50416, 44032, 47336, 40, 50500, 50724, 47532, 41]),
     ((lit ''400'', lit ''414'', lit ''12''), [49380, 51064, 47672, 49828, 53011]),
     ((lit ''400'', lit ''419'', lit ''02''), [44536, 47536, 32, 45684, 51656, 47004, 46300]),
     ((lit ''400'', lit ''420'', lit ''02''), [49688, 51077]),
     ((lit ''400'', lit ''430'', lit ''00''), [49688, 51077])]"

definition GRADE_NAMES :: "(grade_code_key \<times> pystr) list" where
  "GRADE_NAMES =
    [
     ((lit ''200'', lit ''212'', lit ''00'', lit ''04''), [49345, 54408]),
     ((lit ''200'', lit ''213'', lit ''00'', lit ''04''), [49345, 54408]),
     ((lit ''200'', lit ''214'', lit ''01'', lit ''04''), [49345, 54408]),
     ((lit ''200'', lit ''214'', lit ''02'', lit ''04''), [49345, 54408]),
     ((lit ''200'', lit ''215'', lit ''00'', lit ''04''), [49345, 54408]),
     ((lit ''400'', lit ''411'', lit ''06'', lit ''04''), [49345, 54408]),
     ((lit ''400'', lit ''414'', lit ''12'', lit ''24''), [76, 44284]),
     ((lit ''400'', lit ''419'', lit ''02'', lit ''04''), [49345, 54408]),
     ((lit ''400'', lit ''420'', lit ''02'', lit ''04''), [49345, 54408]),
     ((lit ''400'', lit ''430'', lit ''00'', lit ''04''), [49345, 54408])]"

definition UNITS :: "(series_code_key \<times> pystr \<times> pystr) list" where
  "UNITS =
    [
     ((lit ''200'', lit ''212'', lit ''00'', lit ''04''), ([54252, 44592], lit ''1'')),
     ((lit ''200'', lit ''213'', lit ''00'', lit ''04''), (lit ''g'', lit ''100'')),
     ((lit ''200'', lit ''214'', lit ''01'', lit ''04''), (lit ''g'', lit ''100'')),
     ((lit ''200'', lit ''214'', lit ''02'', lit ''04''), (lit ''g'', lit ''100'')),
     ((lit ''200'', lit ''215'', lit ''00'', lit ''04''), (lit ''kg'', lit ''1'')),
     ((lit ''400'', lit ''411'', lit ''06'', lit ''04''), ([44060], lit ''10'')),
     ((lit ''400'', lit ''414'', lit ''12'', lit ''24''), (lit ''kg'', lit ''2'')),
     ((lit ''400'', lit ''419'', lit ''02'', lit ''04''), ([44060], lit ''10'')),
     ((lit ''400'', lit ''420'', lit ''02'', lit ''04''), ([44060], lit ''1'')),
     ((lit ''400'', lit ''430'', lit ''00'', lit ''04''), ([44060], lit ''1''))]"

text \<open>\<open>json.dumps\<close> without \<open>sort_keys\<close>: the rows are lists, so the flag is irrelevant.\<close>

definition unit_contract_json :: json where
  "unit_contract_json =
     JArr (map (\<lambda>((c, i, v, g), u, z). JArr [JStr c, JStr i, JStr v, JStr g, JStr u, JStr z])
              (sort UNITS))"

definition unit_contract_hash :: "kamis_error + pystr" where
  "unit_contract_hash = of_option UnicodeEncodeError (canonical_hash unit_contract_json)"

definition INITIAL_RETAIL_IDENTITY_REGISTRY :: "kamis_error + exact_identity_registry" where
  "INITIAL_RETAIL_IDENTITY_REGISTRY =
     ebind unit_contract_hash (\<lambda>h.
     ebind (identity_contract_evidence_init
              \<lparr>ie_codebook_sha256 = OFFICIAL_DOCS_ZIP_SHA256, ie_unit_contract_sha256 = h,
               ie_coverage_evidence_revision = IDENTITY_EVIDENCE_REVISION\<rparr>) (\<lambda>evidence.
     build_identity_registry_from_reviewed_evidence ITEM_NAMES VARIETY_NAMES GRADE_NAMES UNITS
       evidence KAMIS_RETAIL_COVERAGE_IDENTITY))"

section \<open>What the registry accepts\<close>

lemma validate_identity_iff [exc_simps]:
  "validate_identity r ob i = Inr u \<longleftrightarrow>
     io_coverage_identity ob = reg_coverage_identity r
     \<and> io_product_class_code ob = KAMIS_RETAIL_PRODUCT_CLASS_CODE
     \<and> io_product_class_name ob = KAMIS_RETAIL_PRODUCT_CLASS_NAME
     \<and> map_of KAMIS_ALLOWED_CATEGORIES (io_category_code ob) = Some (io_category_name ob)
     \<and> map_of (reg_item_names r) (io_category_code ob, io_item_code ob) = Some (io_item_name ob)
     \<and> map_of (reg_variety_names r) (io_category_code ob, io_item_code ob, io_variety_code ob)
         = Some (io_variety_name ob)
     \<and> map_of (reg_grade_names r) (observed_series ob) = Some (io_grade_name ob)
     \<and> map_of (reg_units r) (observed_series ob) = Some (io_raw_unit ob, io_raw_unit_size ob)"
  by (auto simp: validate_identity_def exc_simps observed_series_def split: option.splits)

text \<open>An accepted observation is determined by its series codes.\<close>

lemma validate_identity_functional:
  assumes "validate_identity r a i = Inr u" and "validate_identity r b j = Inr v"
    and "observed_series a = observed_series b"
  shows "a = b"
  using assms by (simp add: exc_simps observed_series_def)


definition accepted_observations :: "exact_identity_registry \<Rightarrow> identity_observation set" where
  "accepted_observations r = {ob. \<forall>i. validate_identity r ob i = Inr ()}"

lemma accepted_observation_of_series:
  assumes "map_of KAMIS_ALLOWED_CATEGORIES c = Some cn" and "map_of (reg_item_names r) (c, i) = Some itn"
    and "map_of (reg_variety_names r) (c, i, v) = Some vn"
    and "map_of (reg_grade_names r) (c, i, v, g) = Some gn"
    and "map_of (reg_units r) (c, i, v, g) = Some (u, z)"
  shows "(c, i, v, g) \<in> observed_series ` accepted_observations r"
proof
  let ?ob = "\<lparr>io_product_class_code = KAMIS_RETAIL_PRODUCT_CLASS_CODE,
    io_product_class_name = KAMIS_RETAIL_PRODUCT_CLASS_NAME, io_category_code = c,
    io_category_name = cn, io_item_code = i, io_item_name = itn, io_variety_code = v,
    io_variety_name = vn, io_grade_code = g, io_grade_name = gn, io_raw_unit = u,
    io_raw_unit_size = z, io_coverage_identity = reg_coverage_identity r\<rparr>"
  show "?ob \<in> accepted_observations r"
    using assms by (simp add: accepted_observations_def exc_simps observed_series_def)
  show "(c, i, v, g) = observed_series ?ob" by (simp add: observed_series_def)
qed

lemma accepted_series:
  assumes "\<And>c i v g. (c, i, v, g) \<in> fst ` set (reg_units r) \<Longrightarrow>
      map_of KAMIS_ALLOWED_CATEGORIES c \<noteq> None \<and> map_of (reg_item_names r) (c, i) \<noteq> None
      \<and> map_of (reg_variety_names r) (c, i, v) \<noteq> None \<and> map_of (reg_grade_names r) (c, i, v, g) \<noteq> None"
  shows "observed_series ` accepted_observations r = fst ` set (reg_units r)"
proof (intro set_eqI iffI)
  fix k
  assume "k \<in> observed_series ` accepted_observations r"
  then show "k \<in> fst ` set (reg_units r)"
    by (auto simp: accepted_observations_def exc_simps dest!: map_of_SomeD intro: rev_image_eqI)
next
  fix k
  assume k: "k \<in> fst ` set (reg_units r)"
  obtain c i v g where e: "k = (c, i, v, g)" by (metis prod_cases4)
  obtain u z where u: "map_of (reg_units r) k = Some (u, z)"
    using k by (metis map_of_eq_None_iff not_Some_eq surj_pair)
  show "k \<in> observed_series ` accepted_observations r"
    using assms [of c i v g] k u accepted_observation_of_series [of c _ r i _ v _ g] unfolding e by fast
qed

lemma units_have_names:
  "list_all (\<lambda>((c, i, v, g), _). map_of KAMIS_ALLOWED_CATEGORIES c \<noteq> None
     \<and> map_of ITEM_NAMES (c, i) \<noteq> None \<and> map_of VARIETY_NAMES (c, i, v) \<noteq> None
     \<and> map_of GRADE_NAMES (c, i, v, g) \<noteq> None) UNITS"
  by (simp add: UNITS_def ITEM_NAMES_def VARIETY_NAMES_def GRADE_NAMES_def KAMIS_ALLOWED_CATEGORIES_def)

lemma unit_contract_hash_defined: "\<exists>h. unit_contract_hash = Inr h \<and> sha256_text h"
proof -
  have "list_all (\<lambda>((c, i, v, g), u, z). surrogate_free c \<and> surrogate_free i \<and> surrogate_free v
          \<and> surrogate_free g \<and> surrogate_free u \<and> surrogate_free z) UNITS"
    by (simp add: UNITS_def surrogate_def)
  then have "clean_json unit_contract_json"
    by (auto simp: unit_contract_json_def list_all_iff split: prod.splits)
  then obtain h where "canonical_hash unit_contract_json = Some h"
    using canonical_hash_Some by blast
  then show ?thesis using canonical_hash_text by (auto simp: unit_contract_hash_def)
qed

lemma initial_evidence:
  assumes "sha256_text h"
  shows "identity_contract_evidence_init \<lparr>ie_codebook_sha256 = OFFICIAL_DOCS_ZIP_SHA256,
     ie_unit_contract_sha256 = h, ie_coverage_evidence_revision = IDENTITY_EVIDENCE_REVISION\<rparr>
   = Inr \<lparr>ie_codebook_sha256 = OFFICIAL_DOCS_ZIP_SHA256,
     ie_unit_contract_sha256 = h, ie_coverage_evidence_revision = IDENTITY_EVIDENCE_REVISION\<rparr>"
proof -
  have "sha256_text OFFICIAL_DOCS_ZIP_SHA256" "strip IDENTITY_EVIDENCE_REVISION \<noteq> []"
    by code_simp+
  then show ?thesis using assms by (simp add: identity_contract_evidence_init_def)
qed

lemma initial_registry_ten_observations:
  "\<exists>r. INITIAL_RETAIL_IDENTITY_REGISTRY = Inr r
     \<and> observed_series ` accepted_observations r = set (map fst UNITS)
     \<and> inj_on observed_series (accepted_observations r)
     \<and> card (accepted_observations r) = 10"
proof -
  obtain h where h: "unit_contract_hash = Inr h" "sha256_text h"
    using unit_contract_hash_defined by blast
  define r where "r = \<lparr>reg_item_names = ITEM_NAMES, reg_variety_names = VARIETY_NAMES,
    reg_grade_names = GRADE_NAMES, reg_units = UNITS,
    reg_evidence = \<lparr>ie_codebook_sha256 = OFFICIAL_DOCS_ZIP_SHA256, ie_unit_contract_sha256 = h,
      ie_coverage_evidence_revision = IDENTITY_EVIDENCE_REVISION\<rparr>,
    reg_coverage_identity = KAMIS_RETAIL_COVERAGE_IDENTITY\<rparr>"
  have ne: "strip KAMIS_RETAIL_COVERAGE_IDENTITY \<noteq> []" by code_simp
  have g: "\<forall>x \<in> set UNITS. \<exists>n. map_of GRADE_NAMES (fst x) = Some n"
    using units_have_names by (auto simp: list_all_iff split: prod.splits)
  have "exact_identity_registry_init r = Inr r"
  proof -
    have "ITEM_NAMES \<noteq> []" "VARIETY_NAMES \<noteq> []" "GRADE_NAMES \<noteq> []" "UNITS \<noteq> []"
      by (simp_all add: ITEM_NAMES_def VARIETY_NAMES_def GRADE_NAMES_def UNITS_def)
    moreover have "eall (\<lambda>(k, _). require (map_of GRADE_NAMES k \<noteq> None)
        (ValueError ''unit contract has no matching reviewed grade code'')) UNITS = Inr ()"
      using g by (auto simp: exc_simps split: prod.splits)
    ultimately show ?thesis using ne by (simp add: exact_identity_registry_init_def r_def)
  qed
  then have init: "INITIAL_RETAIL_IDENTITY_REGISTRY = Inr r"
    by (simp add: INITIAL_RETAIL_IDENTITY_REGISTRY_def h initial_evidence
                  build_identity_registry_from_reviewed_evidence_def r_def)
  have series: "observed_series ` accepted_observations r = set (map fst UNITS)"
  proof -
    have "observed_series ` accepted_observations r = fst ` set (reg_units r)"
      using units_have_names by (intro accepted_series) (auto simp: r_def list_all_iff split: prod.splits)
    then show ?thesis by (simp add: r_def)
  qed
  have inj: "inj_on observed_series (accepted_observations r)"
    by (auto simp: inj_on_def accepted_observations_def intro: validate_identity_functional)
  have "card (set (map fst UNITS)) = 10" by (simp add: UNITS_def)
  then have "card (accepted_observations r) = 10"
    using card_image [OF inj] series by simp
  then show ?thesis using init series inj by blast
qed

text \<open>
  C4: building the initial registry succeeds, and its validation accepts exactly ten
  observations, one for each reviewed series: the codes of an accepted row fix its names, unit
  and size.
\<close>

theorem initial_registry_accepts_ten_series:
  "\<exists>r. INITIAL_RETAIL_IDENTITY_REGISTRY = Inr r
     \<and> observed_series ` accepted_observations r = set (map fst UNITS)
     \<and> inj_on observed_series (accepted_observations r)
     \<and> card (accepted_observations r) = 10"
  by (rule initial_registry_ten_observations)

end
