(* ===== verification/Source_Config.thy ===== *)
theory Source_Config
  imports Db_Models Kamis_Client Kamis_Identity
begin

text \<open>
  The lifecycle of a source configuration (\<open>SourceConfiguration\<close> and its timestamp correction in
  \<open>grocery/models.py\<close>) and the bootstrap of the approved one
  (\<open>grocery/source/configuration.py\<close>). A revision that a fetch attempt refers to never changes
  again; the bootstrap pins every public field of the contract and is idempotent.
\<close>

section \<open>Saving a configuration\<close>

definition source_in_use :: "uuid \<Rightarrow> 'a fetch_db_scheme \<Rightarrow> bool" where
  "source_in_use k db \<longleftrightarrow> list_ex (\<lambda>a. fa_source_configuration a = k) (db_attempts db)"

definition source_unique :: "bool \<Rightarrow> source_configuration \<Rightarrow> source_configuration list \<Rightarrow> bool" where
  "source_unique adding s rows \<longleftrightarrow>
     \<not> list_ex (\<lambda>x. sc_dataset_id x = sc_dataset_id s
                 \<and> sc_configuration_revision x = sc_configuration_revision s
                 \<and> (adding \<or> sc_id x \<noteq> sc_id s)) rows
     \<and> (adding \<longrightarrow> sc_id s \<notin> set (map sc_id rows))"

definition source_full_clean ::
    "(pystr \<Rightarrow> bool) \<Rightarrow> bool \<Rightarrow> source_configuration \<Rightarrow> source_configuration list \<Rightarrow> db_error + unit" where
  "source_full_clean url_ok adding s rows =
     require (source_configuration_fields url_ok s \<and> succeeds (source_configuration_clean s)
              \<and> source_unique adding s rows
              \<and> source_endpoint_constraints s \<and> source_policy_constraints s)
       (FullClean ''SourceConfiguration'')"

text \<open>\<open>adding\<close> is \<open>_state.adding\<close>: the instance was not read from the database.\<close>

definition save_source_configuration ::
    "(pystr \<Rightarrow> bool) \<Rightarrow> bool \<Rightarrow> source_configuration \<Rightarrow> 'a fetch_db_scheme
      \<Rightarrow> db_error + 'a fetch_db_scheme" where
  "save_source_configuration url_ok adding s db =
     ebind (require (adding \<or> (case get_row sc_id (sc_id s) (db_sources db) of
                None \<Rightarrow> True
              | Some persisted \<Rightarrow> \<not> (source_in_use (sc_id s) db \<and> s \<noteq> persisted)))
              (ValidationError ''Source configuration revisions are immutable after the first fetch attempt.'')) (\<lambda>_.
     ebind (source_full_clean url_ok adding s (db_sources db)) (\<lambda>_.
     Inr (db\<lparr>db_sources := upsert_row sc_id s (db_sources db)\<rparr>)))"

section \<open>The timestamp correction\<close>

definition SOURCE_GATE_CONFIGURATION_ID :: uuid where
  "SOURCE_GATE_CONFIGURATION_ID = 308055370076525918564512380050022468161"

definition SOURCE_GATE_DECISION_RECORDED_AT :: instant where
  "SOURCE_GATE_DECISION_RECORDED_AT = 1788056624"

definition SOURCE_GATE_ORIGINAL_DATE_TIMESTAMP :: instant where
  "SOURCE_GATE_ORIGINAL_DATE_TIMESTAMP = 1788015600"

definition SOURCE_GATE_DATASET_ID :: pystr where
  "SOURCE_GATE_DATASET_ID = lit ''15156063''"

definition SOURCE_GATE_CONFIGURATION_REVISION :: pystr where
  "SOURCE_GATE_CONFIGURATION_REVISION = lit ''kamis-15156063-recent-comparison-v1''"

definition correction_constraints :: "gate_timestamp_correction \<Rightarrow> bool" where
  "correction_constraints c \<longleftrightarrow>
     gc_source_configuration c = SOURCE_GATE_CONFIGURATION_ID
     \<and> gc_original_state_changed_at c = SOURCE_GATE_ORIGINAL_DATE_TIMESTAMP
     \<and> gc_original_rights_confirmed_at c = SOURCE_GATE_ORIGINAL_DATE_TIMESTAMP
     \<and> gc_effective_gate_decision_recorded_at c = SOURCE_GATE_DECISION_RECORDED_AT
     \<and> gc_effective_gate_decision_recorded_at c > gc_original_state_changed_at c
     \<and> gc_effective_gate_decision_recorded_at c > gc_original_rights_confirmed_at c"

definition correction_clean :: "source_configuration \<Rightarrow> gate_timestamp_correction \<Rightarrow> db_error + unit" where
  "correction_clean s c =
     require (\<not> (sc_id s \<noteq> SOURCE_GATE_CONFIGURATION_ID
        \<or> sc_dataset_id s \<noteq> SOURCE_GATE_DATASET_ID
        \<or> sc_configuration_revision s \<noteq> SOURCE_GATE_CONFIGURATION_REVISION
        \<or> gc_original_state_changed_at c \<noteq> SOURCE_GATE_ORIGINAL_DATE_TIMESTAMP
        \<or> gc_original_rights_confirmed_at c \<noteq> SOURCE_GATE_ORIGINAL_DATE_TIMESTAMP
        \<or> gc_effective_gate_decision_recorded_at c \<noteq> SOURCE_GATE_DECISION_RECORDED_AT
        \<or> gc_original_state_changed_at c \<noteq> sc_state_changed_at s
        \<or> Some (gc_original_rights_confirmed_at c) \<noteq> sc_rights_confirmed_at s))
       (ValidationError ''Source gate timestamp correction must match its base row.'')"

text \<open>
  The trigger on inserted corrections (migration 0010, \<open>grocery_gate_time_validate_insert\<close>): the
  base row has the pinned dataset and revision and the original timestamps, and the effective time
  lies before the first fetch of the configuration, which must exist.
\<close>

definition correction_trigger :: "gate_timestamp_correction \<Rightarrow> 'a fetch_db_scheme \<Rightarrow> bool" where
  "correction_trigger c db \<longleftrightarrow>
     (case get_row sc_id (gc_source_configuration c) (db_sources db) of
        None \<Rightarrow> False
      | Some s \<Rightarrow>
          sc_dataset_id s = SOURCE_GATE_DATASET_ID
          \<and> sc_configuration_revision s = SOURCE_GATE_CONFIGURATION_REVISION
          \<and> sc_state_changed_at s = gc_original_state_changed_at c
          \<and> sc_rights_confirmed_at s = Some (gc_original_rights_confirmed_at c)
          \<and> (let started = map fa_started_at
                (filter (\<lambda>a. fa_source_configuration a = gc_source_configuration c) (db_attempts db))
             in started \<noteq> [] \<and> gc_effective_gate_decision_recorded_at c < Min (set started)))"

definition save_correction ::
    "bool \<Rightarrow> gate_timestamp_correction \<Rightarrow> 'a fetch_db_scheme \<Rightarrow> db_error + 'a fetch_db_scheme" where
  "save_correction adding c db =
     ebind (require adding (ValidationError ''Source gate timestamp corrections are append-only.'')) (\<lambda>_.
     ebind (require ((case get_row sc_id (gc_source_configuration c) (db_sources db) of
                 None \<Rightarrow> False | Some s \<Rightarrow> succeeds (correction_clean s c))
              \<and> gc_id c \<notin> set (map gc_id (db_corrections db))
              \<and> gc_source_configuration c \<notin> set (map gc_source_configuration (db_corrections db))
              \<and> correction_constraints c)
            (FullClean ''SourceConfigurationGateTimestampCorrection'')) (\<lambda>_.
     ebind (require (correction_trigger c db)
            (IntegrityError ''SourceConfigurationGateTimestampCorrection'')) (\<lambda>_.
     Inr (db\<lparr>db_corrections := db_corrections db @ [c]\<rparr>))))"

definition delete_correction :: "gate_timestamp_correction \<Rightarrow> db_error + unit" where
  "delete_correction c = Inl (ValidationError ''Source gate timestamp corrections are append-only.'')"

definition effective_gate_timestamps ::
    "source_configuration \<Rightarrow> 'a fetch_db_scheme \<Rightarrow> db_error + (instant \<times> instant option)" where
  "effective_gate_timestamps s db =
     (case get_row gc_source_configuration (sc_id s) (db_corrections db) of
        None \<Rightarrow> Inr (sc_state_changed_at s, sc_rights_confirmed_at s)
      | Some c \<Rightarrow>
          if gc_original_state_changed_at c \<noteq> sc_state_changed_at s
             \<or> Some (gc_original_rights_confirmed_at c) \<noteq> sc_rights_confirmed_at s
          then Inl (ValidationError ''Source gate timestamp correction does not match its base row.'')
          else Inr (gc_effective_gate_decision_recorded_at c,
                    Some (gc_effective_gate_decision_recorded_at c)))"

section \<open>The approved contract\<close>

definition KAMIS_DATASET_ID :: pystr where
  "KAMIS_DATASET_ID = lit ''15156063''"

definition KAMIS_CONFIGURATION_REVISION :: pystr where
  "KAMIS_CONFIGURATION_REVISION = lit ''kamis-15156063-recent-comparison-v1''"

definition KAMIS_INTERFACE_REVISION :: pystr where
  "KAMIS_INTERFACE_REVISION = lit ''recent-price-v1''"

definition KAMIS_ENDPOINT_HOST :: pystr where
  "KAMIS_ENDPOINT_HOST = lit ''apis.data.go.kr''"

definition KAMIS_ENDPOINT_PATH :: pystr where
  "KAMIS_ENDPOINT_PATH = lit ''/B552845/recent/price''"

definition KAMIS_LOGICAL_SECRET_NAME :: pystr where
  "KAMIS_LOGICAL_SECRET_NAME = lit ''KAMIS_API_KEY''"

definition KAMIS_RIGHTS_EVIDENCE_LOCATOR :: pystr where
  "KAMIS_RIGHTS_EVIDENCE_LOCATOR = lit ''https://www.data.go.kr/data/15156063/openapi.do''"

definition KAMIS_GATE_CONFIRMED_AT :: instant where
  "KAMIS_GATE_CONFIRMED_AT = SOURCE_GATE_DECISION_RECORDED_AT"

definition CONNECT_READ_TIMEOUT_SECONDS :: nat where
  "CONNECT_READ_TIMEOUT_SECONDS = 10"

definition EXPECTED_CONTRACT_FIELDS :: "uuid \<Rightarrow> instant \<Rightarrow> source_configuration" where
  "EXPECTED_CONTRACT_FIELDS k created =
     \<lparr>sc_id = k,
      sc_source_owner_name = [54620, 44397, 45453, 49688, 49328, 49885, 54408, 50976, 53685, 44277, 49324],
      sc_dataset_id = KAMIS_DATASET_ID,
      sc_configuration_revision = KAMIS_CONFIGURATION_REVISION,
      sc_interface_revision = KAMIS_INTERFACE_REVISION,
      sc_state = ACTIVE,
      sc_state_changed_at = KAMIS_GATE_CONFIRMED_AT,
      sc_publication_mode = RECENT_COMPARISON,
      sc_coverage_identity = KAMIS_RETAIL_COVERAGE_IDENTITY,
      sc_coverage_evidence_revision = IDENTITY_EVIDENCE_REVISION,
      sc_endpoint_scheme = HTTPS,
      sc_endpoint_host = KAMIS_ENDPOINT_HOST,
      sc_endpoint_path = KAMIS_ENDPOINT_PATH,
      sc_endpoint_method = GET,
      sc_authentication_mode = DATA_GO_KR_SERVICE_KEY,
      sc_logical_secret_name = KAMIS_LOGICAL_SECRET_NAME,
      sc_provider_quota_limit = 10000,
      sc_provider_quota_period = UNSPECIFIED,
      sc_request_timeout_seconds = CONNECT_READ_TIMEOUT_SECONDS,
      sc_retry_policy = BOUNDED_TRANSIENT_ONLY,
      sc_schedule_execution_mode = PLATFORM_SINGLETON,
      sc_schedule_interval_hours = 24,
      sc_max_retries = MAX_ATTEMPTS_PER_PAGE - 1,
      sc_max_requests_per_attempt = MAX_CALLS,
      sc_max_pages_per_attempt = MAX_PAGES,
      sc_max_page_bytes = MAX_PAGE_BYTES,
      sc_rights_evidence_locator = KAMIS_RIGHTS_EVIDENCE_LOCATOR,
      sc_rights_evidence_sha256 = OFFICIAL_DOCS_ZIP_SHA256,
      sc_rights_confirmed_at = Some KAMIS_GATE_CONFIRMED_AT,
      sc_raw_retention = HASH_ONLY,
      sc_created_at = created\<rparr>"

text \<open>The names of the fields in which a row differs from the contract, as \<open>sorted\<close> lists them.\<close>

definition drifted_fields :: "source_configuration \<Rightarrow> source_configuration \<Rightarrow> pystr list" where
  "drifted_fields s e =
     sort (map (\<lambda>(name, _). lit name) (filter (\<lambda>(_, same). \<not> same)
       [(''source_owner_name'', sc_source_owner_name s = sc_source_owner_name e),
        (''dataset_id'', sc_dataset_id s = sc_dataset_id e),
        (''configuration_revision'', sc_configuration_revision s = sc_configuration_revision e),
        (''interface_revision'', sc_interface_revision s = sc_interface_revision e),
        (''state'', sc_state s = sc_state e),
        (''state_changed_at'', sc_state_changed_at s = sc_state_changed_at e),
        (''publication_mode'', sc_publication_mode s = sc_publication_mode e),
        (''coverage_identity'', sc_coverage_identity s = sc_coverage_identity e),
        (''coverage_evidence_revision'', sc_coverage_evidence_revision s = sc_coverage_evidence_revision e),
        (''endpoint_scheme'', sc_endpoint_scheme s = sc_endpoint_scheme e),
        (''endpoint_host'', sc_endpoint_host s = sc_endpoint_host e),
        (''endpoint_path'', sc_endpoint_path s = sc_endpoint_path e),
        (''endpoint_method'', sc_endpoint_method s = sc_endpoint_method e),
        (''authentication_mode'', sc_authentication_mode s = sc_authentication_mode e),
        (''logical_secret_name'', sc_logical_secret_name s = sc_logical_secret_name e),
        (''provider_quota_limit'', sc_provider_quota_limit s = sc_provider_quota_limit e),
        (''provider_quota_period'', sc_provider_quota_period s = sc_provider_quota_period e),
        (''request_timeout_seconds'', sc_request_timeout_seconds s = sc_request_timeout_seconds e),
        (''retry_policy'', sc_retry_policy s = sc_retry_policy e),
        (''schedule_execution_mode'', sc_schedule_execution_mode s = sc_schedule_execution_mode e),
        (''schedule_interval_hours'', sc_schedule_interval_hours s = sc_schedule_interval_hours e),
        (''max_retries'', sc_max_retries s = sc_max_retries e),
        (''max_requests_per_attempt'', sc_max_requests_per_attempt s = sc_max_requests_per_attempt e),
        (''max_pages_per_attempt'', sc_max_pages_per_attempt s = sc_max_pages_per_attempt e),
        (''max_page_bytes'', sc_max_page_bytes s = sc_max_page_bytes e),
        (''rights_evidence_locator'', sc_rights_evidence_locator s = sc_rights_evidence_locator e),
        (''rights_evidence_sha256'', sc_rights_evidence_sha256 s = sc_rights_evidence_sha256 e),
        (''rights_confirmed_at'', sc_rights_confirmed_at s = sc_rights_confirmed_at e),
        (''raw_retention'', sc_raw_retention s = sc_raw_retention e)]))"

datatype bootstrap_error = SourceConfigurationDriftError "pystr list" | DatabaseError db_error

definition in_database :: "db_error + 'a \<Rightarrow> bootstrap_error + 'a" where
  "in_database m = (case m of Inl e \<Rightarrow> Inl (DatabaseError e) | Inr x \<Rightarrow> Inr x)"

definition get_or_create_source ::
    "(pystr \<Rightarrow> bool) \<Rightarrow> source_configuration \<Rightarrow> 'a fetch_db_scheme
      \<Rightarrow> db_error + (source_configuration \<times> 'a fetch_db_scheme)" where
  "get_or_create_source url_ok defaults db =
     (case find (\<lambda>x. sc_dataset_id x = KAMIS_DATASET_ID
                  \<and> sc_configuration_revision x = KAMIS_CONFIGURATION_REVISION) (db_sources db) of
        Some s \<Rightarrow> Inr (s, db)
      | None \<Rightarrow> ebind (save_source_configuration url_ok True defaults db) (\<lambda>db'. Inr (defaults, db')))"

text \<open>The row as the bootstrap compares it: with the effective timestamps in place.\<close>

definition effective_view ::
    "source_configuration \<Rightarrow> 'a fetch_db_scheme \<Rightarrow> db_error + source_configuration" where
  "effective_view s db =
     ebind (effective_gate_timestamps s db) (\<lambda>(changed, confirmed).
     Inr (s\<lparr>sc_state_changed_at := changed, sc_rights_confirmed_at := confirmed\<rparr>))"

definition bootstrap_kamis_source_configuration ::
    "(pystr \<Rightarrow> bool) \<Rightarrow> instant \<Rightarrow> 'a fetch_db_scheme
      \<Rightarrow> bootstrap_error + (source_configuration \<times> 'a fetch_db_scheme)" where
  "bootstrap_kamis_source_configuration url_ok now db =
     ebind (require (KAMIS_ENDPOINT = lit ''https'' @ lit ''://'' @ KAMIS_ENDPOINT_HOST @ KAMIS_ENDPOINT_PATH)
              (SourceConfigurationDriftError [lit ''transport_endpoint''])) (\<lambda>_.
     ebind (in_database (get_or_create_source url_ok
              (EXPECTED_CONTRACT_FIELDS SOURCE_GATE_CONFIGURATION_ID now) db)) (\<lambda>(s, db').
     ebind (in_database (effective_view s db')) (\<lambda>view.
     let drifted = drifted_fields view (EXPECTED_CONTRACT_FIELDS (sc_id s) (sc_created_at s))
     in ebind (require (drifted = []) (SourceConfigurationDriftError drifted)) (\<lambda>_.
     Inr (s, db')))))"

section \<open>Properties\<close>

lemma save_source_configuration_Inr:
  assumes "save_source_configuration url_ok adding s db = Inr db'"
  shows "db' = db\<lparr>db_sources := upsert_row sc_id s (db_sources db)\<rparr>
    \<and> source_endpoint_constraints s \<and> source_policy_constraints s"
  using assms
  by (auto simp: save_source_configuration_def source_full_clean_def require_eq_Inr elim!: ebind_InrE)

lemma save_keeps_used_row:
  assumes "save_source_configuration url_ok adding s db = Inr db'"
    and "get_row sc_id k (db_sources db) = Some row" and "source_in_use k db"
  shows "get_row sc_id k (db_sources db') = Some row"
proof (cases "sc_id s = k")
  case False
  then show ?thesis
    using save_source_configuration_Inr [OF assms(1)] assms(2) by (simp add: get_row_upsert)
next
  case True
  have k: "k \<in> sc_id ` set (db_sources db)"
    using assms(2) get_row_None by (metis option.distinct(1))
  have "\<not> adding"
    using assms(1) k True
    by (auto simp: save_source_configuration_def source_full_clean_def source_unique_def require_eq_Inr
          elim!: ebind_InrE)
  then have "s = row"
    using assms True by (auto simp: save_source_configuration_def require_eq_Inr elim!: ebind_InrE)
  then show ?thesis
    using save_source_configuration_Inr [OF assms(1)] True by (simp add: get_row_upsert)
qed

lemma drifted_fields_Nil:
  "drifted_fields s e = [] \<longleftrightarrow> s = e\<lparr>sc_id := sc_id s, sc_created_at := sc_created_at s\<rparr>"
  by (cases s; cases e) (simp add: drifted_fields_def filter_empty_conv conj_ac)

text \<open>The contract satisfies every validator and constraint of the model.\<close>

lemma contract_texts:
  "validate_endpoint_host KAMIS_ENDPOINT_HOST" "validate_endpoint_path KAMIS_ENDPOINT_PATH"
  "take 1 KAMIS_ENDPOINT_PATH = lit ''/''"
  "63 \<notin> set KAMIS_ENDPOINT_PATH" "35 \<notin> set KAMIS_ENDPOINT_PATH"
  "upper_code KAMIS_LOGICAL_SECRET_NAME" "SHA256_PATTERN OFFICIAL_DOCS_ZIP_SHA256"
  by (simp_all add: KAMIS_ENDPOINT_HOST_def KAMIS_ENDPOINT_PATH_def KAMIS_LOGICAL_SECRET_NAME_def
      OFFICIAL_DOCS_ZIP_SHA256_def validate_endpoint_host_def validate_endpoint_path_def
      host_end_def host_inner_def is_lower_def is_digit_def is_upper_def upper_code_def
      SHA256_PATTERN_def sha256_text_def is_lower_hex_def lit_def)

lemma contract_lengths:
  "char_field 64 KAMIS_DATASET_ID" "char_field 64 KAMIS_CONFIGURATION_REVISION"
  "char_field 64 KAMIS_INTERFACE_REVISION" "char_field 128 KAMIS_RETAIL_COVERAGE_IDENTITY"
  "char_field 64 IDENTITY_EVIDENCE_REVISION" "char_field 253 KAMIS_ENDPOINT_HOST"
  "char_field 512 KAMIS_ENDPOINT_PATH" "blank_field 128 KAMIS_LOGICAL_SECRET_NAME"
  "blank_field 500 KAMIS_RIGHTS_EVIDENCE_LOCATOR" "KAMIS_RIGHTS_EVIDENCE_LOCATOR \<noteq> []"
  "KAMIS_LOGICAL_SECRET_NAME \<noteq> []" "2 \<le> length KAMIS_ENDPOINT_HOST"
  by (simp_all add: char_field_def blank_field_def KAMIS_DATASET_ID_def KAMIS_CONFIGURATION_REVISION_def
      KAMIS_INTERFACE_REVISION_def KAMIS_RETAIL_COVERAGE_IDENTITY_def IDENTITY_EVIDENCE_REVISION_def
      KAMIS_ENDPOINT_HOST_def KAMIS_ENDPOINT_PATH_def KAMIS_LOGICAL_SECRET_NAME_def
      KAMIS_RIGHTS_EVIDENCE_LOCATOR_def)

lemma contract_fields:
  assumes "url_ok KAMIS_RIGHTS_EVIDENCE_LOCATOR"
  shows "source_configuration_fields url_ok (EXPECTED_CONTRACT_FIELDS k t)"
  using assms contract_texts contract_lengths
  by (simp add: source_configuration_fields_def EXPECTED_CONTRACT_FIELDS_def char_field_def
      integer_field_def small_field_def MAX_CALLS_def MAX_PAGES_def MAX_PAGE_BYTES_def
      MAX_ATTEMPTS_PER_PAGE_def CONNECT_READ_TIMEOUT_SECONDS_def code_validator_def dollar_def)

lemma contract_constraints:
  "source_endpoint_constraints (EXPECTED_CONTRACT_FIELDS k t)"
  "source_policy_constraints (EXPECTED_CONTRACT_FIELDS k t)"
  "succeeds (source_configuration_clean (EXPECTED_CONTRACT_FIELDS k t))"
proof -
  have host: "host_end (hd KAMIS_ENDPOINT_HOST)" "host_end (last KAMIS_ENDPOINT_HOST)"
    "list_all host_inner KAMIS_ENDPOINT_HOST"
    using contract_texts(1) by (simp_all add: validate_endpoint_host_def)
  have digest: "OFFICIAL_DOCS_ZIP_SHA256 \<noteq> []"
    using SHA256_PATTERN_length contract_texts(7) by blast
  show "source_endpoint_constraints (EXPECTED_CONTRACT_FIELDS k t)"
    using contract_texts contract_lengths host
    by (simp add: source_endpoint_constraints_def EXPECTED_CONTRACT_FIELDS_def
        historical_dataset_mode_def historical_endpoint_def historical_modes_def
        source_secret_reference_valid_def KAMIS_DATASET_ID_def)
  show "source_policy_constraints (EXPECTED_CONTRACT_FIELDS k t)"
    using contract_texts contract_lengths digest
    by (simp add: source_policy_constraints_def EXPECTED_CONTRACT_FIELDS_def
        MAX_CALLS_def MAX_PAGES_def MAX_PAGE_BYTES_def CONNECT_READ_TIMEOUT_SECONDS_def)
  show "succeeds (source_configuration_clean (EXPECTED_CONTRACT_FIELDS k t))"
    using contract_lengths digest
    by (simp add: source_configuration_clean_def EXPECTED_CONTRACT_FIELDS_def Let_def)
qed

lemma endpoint_agrees:
  "KAMIS_ENDPOINT = lit ''https'' @ lit ''://'' @ KAMIS_ENDPOINT_HOST @ KAMIS_ENDPOINT_PATH"
  unfolding KAMIS_ENDPOINT_def KAMIS_ENDPOINT_HOST_def KAMIS_ENDPOINT_PATH_def lit_append [symmetric]
  by simp

definition has_contract_key :: "source_configuration \<Rightarrow> bool" where
  "has_contract_key x \<longleftrightarrow> sc_dataset_id x = KAMIS_DATASET_ID
     \<and> sc_configuration_revision x = KAMIS_CONFIGURATION_REVISION"

lemma get_or_create_source_Inr:
  assumes "get_or_create_source url_ok e db = Inr (s, db')"
    and "has_contract_key e"
  shows "find has_contract_key (db_sources db') = Some s
    \<and> (db' = db \<or> s = e \<and> sc_id s \<notin> sc_id ` set (db_sources db) \<and> db' = db\<lparr>db_sources := db_sources db @ [s]\<rparr>)"
proof (cases "find has_contract_key (db_sources db)")
  case (Some x)
  then show ?thesis using assms by (auto simp: get_or_create_source_def has_contract_key_def [abs_def])
next
  case None
  then have "save_source_configuration url_ok True e db = Inr db'" and s: "s = e"
    using assms by (auto simp: get_or_create_source_def has_contract_key_def [abs_def] elim!: ebind_InrE)
  then have "db' = db\<lparr>db_sources := upsert_row sc_id e (db_sources db)\<rparr>"
    "sc_id e \<notin> sc_id ` set (db_sources db)"
    using save_source_configuration_Inr
    by (auto simp: save_source_configuration_def source_full_clean_def source_unique_def require_eq_Inr
          elim!: ebind_InrE)
  moreover have "find has_contract_key (xs @ [e]) = Some e" if "find has_contract_key xs = None" for xs
    using that assms(2) by (induction xs) (auto split: if_splits)
  ultimately show ?thesis using None s by (simp add: upsert_row_def)
qed

lemma contract_sel [simp]:
  "sc_id (EXPECTED_CONTRACT_FIELDS k t) = k" "sc_created_at (EXPECTED_CONTRACT_FIELDS k t) = t"
  by (simp_all add: EXPECTED_CONTRACT_FIELDS_def)

lemma drifted_fields_self [simp]: "drifted_fields s s = []"
  by (simp add: drifted_fields_Nil)

lemma contract_has_key: "has_contract_key (EXPECTED_CONTRACT_FIELDS k t)"
  by (simp add: has_contract_key_def EXPECTED_CONTRACT_FIELDS_def)

lemma effective_view_sources [simp]: "effective_view s (db\<lparr>db_sources := rows\<rparr>) = effective_view s db"
  by (simp add: effective_view_def effective_gate_timestamps_def)

text \<open>
  C16: a bootstrap that succeeds returns a row whose every public field, read with its effective
  timestamps, is the approved one; it changes nothing but perhaps adding that row, and running it
  again, at any later time, returns the same row and changes nothing.
\<close>

theorem bootstrap_pins_the_contract:
  assumes "bootstrap_kamis_source_configuration url_ok now db = Inr (s, db')"
  shows "effective_view s db' = Inr (EXPECTED_CONTRACT_FIELDS (sc_id s) (sc_created_at s))
    \<and> (db' = db \<or> db' = db\<lparr>db_sources := db_sources db @ [s]\<rparr>) \<and> s \<in> set (db_sources db')
    \<and> bootstrap_kamis_source_configuration url_ok later db' = Inr (s, db')"
proof -
  let ?e = "\<lambda>t. EXPECTED_CONTRACT_FIELDS SOURCE_GATE_CONFIGURATION_ID t"
  obtain view where g: "get_or_create_source url_ok (?e now) db = Inr (s, db')"
    and v: "effective_view s db' = Inr view"
    and d: "drifted_fields view (EXPECTED_CONTRACT_FIELDS (sc_id s) (sc_created_at s)) = []"
    using assms
    by (auto simp: bootstrap_kamis_source_configuration_def in_database_def Let_def require_eq_Inr
          elim!: ebind_InrE split: sum.split_asm prod.split_asm)
  have same: "sc_id view = sc_id s" "sc_created_at view = sc_created_at s"
    using v by (auto simp: effective_view_def elim!: ebind_InrE)
  have view: "view = EXPECTED_CONTRACT_FIELDS (sc_id s) (sc_created_at s)"
    using d same by (simp add: drifted_fields_Nil EXPECTED_CONTRACT_FIELDS_def)
  note found = get_or_create_source_Inr [OF g contract_has_key]
  then have "get_or_create_source url_ok (?e later) db' = Inr (s, db')"
    by (simp add: get_or_create_source_def has_contract_key_def [abs_def])
  then have "bootstrap_kamis_source_configuration url_ok later db' = Inr (s, db')"
    using v d endpoint_agrees
    by (simp add: bootstrap_kamis_source_configuration_def in_database_def)
  moreover have "s \<in> set (db_sources db')"
    using found by (auto simp: find_Some_iff in_set_conv_nth)
  ultimately show ?thesis using v view found by auto
qed

lemma bootstrap_creates:
  assumes "url_ok KAMIS_RIGHTS_EVIDENCE_LOCATOR"
    and "\<not> list_ex has_contract_key (db_sources db)"
    and "SOURCE_GATE_CONFIGURATION_ID \<notin> set (map sc_id (db_sources db))"
    and "SOURCE_GATE_CONFIGURATION_ID \<notin> set (map gc_source_configuration (db_corrections db))"
  shows "bootstrap_kamis_source_configuration url_ok now db
    = Inr (EXPECTED_CONTRACT_FIELDS SOURCE_GATE_CONFIGURATION_ID now,
           db\<lparr>db_sources := db_sources db @ [EXPECTED_CONTRACT_FIELDS SOURCE_GATE_CONFIGURATION_ID now]\<rparr>)"
proof -
  let ?e = "EXPECTED_CONTRACT_FIELDS SOURCE_GATE_CONFIGURATION_ID now"
  have "find has_contract_key (db_sources db) = None"
    using assms(2) by (auto simp: find_None_iff list_ex_iff)
  moreover have "source_unique True ?e (db_sources db)"
    using assms(2,3) contract_has_key [of SOURCE_GATE_CONFIGURATION_ID now]
    by (auto simp: source_unique_def list_ex_iff has_contract_key_def)
  ultimately have create: "get_or_create_source url_ok ?e db = Inr (?e, db\<lparr>db_sources := db_sources db @ [?e]\<rparr>)"
    using contract_fields [of url_ok, OF assms(1)] contract_constraints assms(3)
    by (simp add: get_or_create_source_def has_contract_key_def [abs_def] save_source_configuration_def
        source_full_clean_def upsert_row_def)
  have "effective_view ?e db = Inr ?e"
    using assms(4) get_row_None [of gc_source_configuration SOURCE_GATE_CONFIGURATION_ID "db_corrections db"]
    by (simp add: effective_view_def effective_gate_timestamps_def)
  then show ?thesis
    using create endpoint_agrees
    by (simp add: bootstrap_kamis_source_configuration_def in_database_def)
qed

text \<open>
  C17: on a database that has neither this revision nor its identifier, and no correction for it,
  the bootstrap creates the row with exactly the contract's fields; nothing in the contract is
  refused by a validator or a constraint of the model.
\<close>

theorem bootstrap_creates_the_contract:
  assumes "url_ok KAMIS_RIGHTS_EVIDENCE_LOCATOR"
    and "\<not> list_ex has_contract_key (db_sources db)"
    and "SOURCE_GATE_CONFIGURATION_ID \<notin> set (map sc_id (db_sources db))"
    and "SOURCE_GATE_CONFIGURATION_ID \<notin> set (map gc_source_configuration (db_corrections db))"
  shows "bootstrap_kamis_source_configuration url_ok now db
    = Inr (EXPECTED_CONTRACT_FIELDS SOURCE_GATE_CONFIGURATION_ID now,
           db\<lparr>db_sources := db_sources db @ [EXPECTED_CONTRACT_FIELDS SOURCE_GATE_CONFIGURATION_ID now]\<rparr>)"
  using assms by (rule bootstrap_creates)

text \<open>
  C18: no save changes a configuration that a fetch attempt refers to, and whatever a save writes
  satisfies the constraints on endpoint, secret reference, budgets and rights evidence.
\<close>

theorem fetched_configuration_is_immutable:
  assumes "save_source_configuration url_ok adding s db = Inr db'"
    and "get_row sc_id k (db_sources db) = Some row" and "source_in_use k db"
  shows "get_row sc_id k (db_sources db') = Some row
    \<and> source_endpoint_constraints s \<and> source_policy_constraints s"
  using save_keeps_used_row [OF assms] save_source_configuration_Inr [OF assms(1)] by simp

section \<open>Examples\<close>

definition empty_db :: fetch_db where
  "empty_db = \<lparr>db_sources = [], db_corrections = [], db_artifacts = [], db_attempts = [], db_receipts = []\<rparr>"

abbreviation contract_row :: source_configuration where
  "contract_row \<equiv> EXPECTED_CONTRACT_FIELDS SOURCE_GATE_CONFIGURATION_ID 0"

definition example_attempt :: fetch_attempt where
  "example_attempt =
     \<lparr>fa_id = 1, fa_source_configuration = SOURCE_GATE_CONFIGURATION_ID, fa_artifact = None,
      fa_acquisition_run_id = 2, fa_attempt_ordinal = 1, fa_state = STARTED, fa_started_at = 10,
      fa_completed_at = None, fa_redacted_request_shape = REDACTED_REQUEST_SHAPE,
      fa_request_scope_sha256 = [], fa_received_page_count = 0, fa_received_row_count = 0,
      fa_received_byte_count = 0, fa_failure_class = None, fa_failure_code = []\<rparr>"

definition example_db :: fetch_db where
  "example_db = empty_db\<lparr>db_sources := [contract_row], db_attempts := [example_attempt]\<rparr>"

lemma bootstrap_empty:
  "bootstrap_kamis_source_configuration (\<lambda>_. True) 0 empty_db
     = Inr (contract_row, empty_db\<lparr>db_sources := [contract_row]\<rparr>)"
  using bootstrap_creates [of "\<lambda>_. True" empty_db 0] by (simp add: empty_db_def)

lemma bootstrap_creates_the_contract_witness:
  "bootstrap_kamis_source_configuration (\<lambda>_. True) 0 empty_db
     = Inr (contract_row, empty_db\<lparr>db_sources := [contract_row]\<rparr>)"
  using bootstrap_creates_the_contract [of "\<lambda>_. True" empty_db 0] by (simp add: empty_db_def)

lemma example_bootstrap: "bootstrap_kamis_source_configuration (\<lambda>_. True) 5 example_db = Inr (contract_row, example_db)"
  using endpoint_agrees contract_has_key [of SOURCE_GATE_CONFIGURATION_ID 0]
  by (simp add: bootstrap_kamis_source_configuration_def get_or_create_source_def in_database_def
      example_db_def empty_db_def has_contract_key_def effective_view_def effective_gate_timestamps_def)

lemma bootstrap_pins_the_contract_witness:
  "bootstrap_kamis_source_configuration (\<lambda>_. True) 6 example_db = Inr (contract_row, example_db)"
  using bootstrap_pins_the_contract [OF example_bootstrap, of 6] by simp

lemma fetched_configuration_is_immutable_witness:
  "save_source_configuration (\<lambda>_. True) False contract_row example_db = Inr example_db
   \<and> get_row sc_id SOURCE_GATE_CONFIGURATION_ID (db_sources example_db) = Some contract_row"
proof -
  have saved: "save_source_configuration (\<lambda>_. True) False contract_row example_db = Inr example_db"
    using contract_fields [of "\<lambda>_. True"] contract_constraints
    by (simp add: save_source_configuration_def source_full_clean_def source_unique_def example_db_def
        empty_db_def upsert_row_def put_row_def)
  have "get_row sc_id SOURCE_GATE_CONFIGURATION_ID (db_sources example_db) = Some contract_row"
    "source_in_use SOURCE_GATE_CONFIGURATION_ID example_db"
    by (simp_all add: example_db_def source_in_use_def example_attempt_def)
  then show ?thesis
    using fetched_configuration_is_immutable [OF saved] saved by blast
qed

end
