(* ===== verification/Fetch_Persistence.thy ===== *)
theory Fetch_Persistence
  imports Source_Config
begin

text \<open>
  Persisting what a fetch received (\<open>grocery/source/persistence.py\<close> and
  \<open>build_source_artifact\<close> with the \<open>save\<close> methods of \<open>grocery/models.py\<close>). An attempt is
  started, then completed with the client's result or failed with its redacted error; each of
  the three is one transaction, a function of the database that returns the new one or raises.
  \<open>ids n\<close> is the identifier \<open>uuid.uuid4\<close> draws for the receipt with ordinal \<open>n\<close>, \<open>ids 0\<close> the
  one for an artifact or an attempt; \<open>now\<close> is \<open>timezone.now\<close>.
\<close>

section \<open>Saving the models\<close>

definition attempt_clean :: "fetch_attempt \<Rightarrow> 'a fetch_db_scheme \<Rightarrow> db_error + unit" where
  "attempt_clean a db =
     (case fa_artifact a of
        None \<Rightarrow> Inr ()
      | Some k \<Rightarrow>
          ebind (of_option (DoesNotExist ''SourceArtifact'') (get_row ar_id k (db_artifacts db))) (\<lambda>artifact.
          ebind (of_option (DoesNotExist ''SourceConfiguration'')
                   (get_row sc_id (fa_source_configuration a) (db_sources db))) (\<lambda>source.
          ebind (require (fa_state a = SUCCEEDED)
                   (ValidationError ''Only a succeeded attempt can reference an artifact.'')) (\<lambda>_.
          require (ar_source_identity artifact = fa_artifact_source_identity source a)
            (ValidationError ''Artifact and attempt source identities differ.'')))))"

definition attempt_unique :: "bool \<Rightarrow> fetch_attempt \<Rightarrow> fetch_attempt list \<Rightarrow> bool" where
  "attempt_unique adding a rows \<longleftrightarrow>
     \<not> list_ex (\<lambda>x. fa_acquisition_run_id x = fa_acquisition_run_id a
                 \<and> fa_attempt_ordinal x = fa_attempt_ordinal a
                 \<and> (adding \<or> fa_id x \<noteq> fa_id a)) rows
     \<and> (adding \<longrightarrow> fa_id a \<notin> set (map fa_id rows))"

definition save_attempt :: "bool \<Rightarrow> fetch_attempt \<Rightarrow> 'a fetch_db_scheme \<Rightarrow> db_error + 'a fetch_db_scheme" where
  "save_attempt adding a db =
     ebind (require (fetch_attempt_fields a
              \<and> fa_source_configuration a \<in> set (map sc_id (db_sources db))
              \<and> succeeds (attempt_clean a db) \<and> attempt_unique adding a (db_attempts db)
              \<and> fetch_attempt_constraints a) (FullClean ''FetchAttempt'')) (\<lambda>_.
     Inr (db\<lparr>db_attempts := upsert_row fa_id a (db_attempts db)\<rparr>))"

definition save_artifact :: "bool \<Rightarrow> source_artifact \<Rightarrow> 'a fetch_db_scheme \<Rightarrow> db_error + 'a fetch_db_scheme" where
  "save_artifact adding a db =
     ebind (require adding (ValidationError ''Source artifacts are immutable.'')) (\<lambda>_.
     ebind (require (source_artifact_fields a \<and> source_artifact_constraints a
              \<and> ar_id a \<notin> set (map ar_id (db_artifacts db))
              \<and> \<not> list_ex (\<lambda>x. ar_source_identity x = ar_source_identity a
                      \<and> ar_ordered_manifest_sha256 x = ar_ordered_manifest_sha256 a) (db_artifacts db))
              (FullClean ''SourceArtifact'')) (\<lambda>_.
     Inr (db\<lparr>db_artifacts := db_artifacts db @ [a]\<rparr>)))"

text \<open>
  \<open>bulk_create\<close> runs neither \<open>save\<close> nor \<open>full_clean\<close>: only the database checks the rows, each
  against its constraints and against the rows before it.
\<close>

definition receipt_clashes :: "stored_receipt \<Rightarrow> stored_receipt \<Rightarrow> bool" where
  "receipt_clashes r x \<longleftrightarrow> rc_id x = rc_id r
     \<or> rc_fetch_attempt x = rc_fetch_attempt r \<and> rc_request_ordinal x = rc_request_ordinal r
     \<or> rc_fetch_attempt x = rc_fetch_attempt r \<and> rc_page_number x = rc_page_number r"

fun bulk_create_receipts ::
    "stored_receipt list \<Rightarrow> 'a fetch_db_scheme \<Rightarrow> db_error + 'a fetch_db_scheme" where
  "bulk_create_receipts [] db = Inr db"
| "bulk_create_receipts (r # rs) db =
     ebind (require (stored_receipt_columns r \<and> stored_receipt_constraints r
              \<and> rc_fetch_attempt r \<in> set (map fa_id (db_attempts db))
              \<and> \<not> list_ex (receipt_clashes r) (db_receipts db)) (IntegrityError ''PageReceipt'')) (\<lambda>_.
     bulk_create_receipts rs (db\<lparr>db_receipts := db_receipts db @ [r]\<rparr>))"

section \<open>Building the artifact\<close>

definition ordered_page_manifest_sha256 :: "stored_receipt list \<Rightarrow> pystr" where
  "ordered_page_manifest_sha256 receipts =
     canonical_hash_ascii (JArr (map (\<lambda>r. JStr (rc_body_sha256 r)) receipts))"

definition artifact_page :: "stored_receipt \<Rightarrow> bool" where
  "artifact_page r \<longleftrightarrow> rc_body_state r = RECEIVED \<and> rc_http_status r = Some 200
     \<and> rc_provider_result_code r = lit ''0'' \<and> rc_media_type r = Some MEDIA_JSON
     \<and> rc_encoding r = Some UTF_8"

text \<open>The checks on the receipts of an attempt, which return its declared total.\<close>

definition reconciled_total :: "fetch_attempt \<Rightarrow> stored_receipt list \<Rightarrow> db_error + nat" where
  "reconciled_total attempt receipts =
     (let received_rows = sum_list (map rc_received_row_count receipts);
          received_bytes = sum_list (map rc_body_byte_length receipts);
          totals = remdups (map rc_declared_total_count receipts) in
     ebind (require (receipts \<noteq> [])
              (ValidationError ''A source artifact requires at least one page receipt.'')) (\<lambda>_.
     ebind (require (contiguous_from_one (map rc_request_ordinal receipts))
              (ValidationError ''Page receipt request ordinals must be contiguous from one.'')) (\<lambda>_.
     ebind (require (contiguous_from_one (map rc_page_number receipts))
              (ValidationError ''Page receipt page numbers must be contiguous from one.'')) (\<lambda>_.
     ebind (require (list_all artifact_page receipts)
              (ValidationError ''Every artifact page must be a successful JSON UTF-8 receipt.'')) (\<lambda>_.
     (case totals of
        [Some declared_total] \<Rightarrow>
          ebind (require (received_rows = declared_total)
                   (ValidationError ''Received rows do not reconcile with the declared total.'')) (\<lambda>_.
          ebind (require (fa_received_page_count attempt = length receipts
                   \<and> fa_received_row_count attempt = received_rows
                   \<and> fa_received_byte_count attempt = received_bytes)
                   (ValidationError ''Attempt counters do not reconcile with its page receipts.'')) (\<lambda>_.
          Inr declared_total))
      | _ \<Rightarrow> Inl (ValidationError ''Every page must declare the same total row count.'')))))))"

definition get_or_create_artifact ::
    "source_artifact \<Rightarrow> 'a fetch_db_scheme \<Rightarrow> db_error + (source_artifact \<times> bool \<times> 'a fetch_db_scheme)" where
  "get_or_create_artifact candidate db =
     (case find (\<lambda>x. ar_source_identity x = ar_source_identity candidate
                  \<and> ar_ordered_manifest_sha256 x = ar_ordered_manifest_sha256 candidate) (db_artifacts db) of
        Some artifact \<Rightarrow> Inr (artifact, False, db)
      | None \<Rightarrow> ebind (save_artifact True candidate db) (\<lambda>db'. Inr (candidate, True, db')))"

definition same_artifact_fields :: "source_artifact \<Rightarrow> source_artifact \<Rightarrow> bool" where
  "same_artifact_fields a b \<longleftrightarrow> ar_page_count a = ar_page_count b \<and> ar_total_bytes a = ar_total_bytes b
     \<and> ar_media_type a = ar_media_type b \<and> ar_encoding a = ar_encoding b
     \<and> ar_retention_mode a = ar_retention_mode b"

definition get_attempt ::
    "uuid \<Rightarrow> 'a fetch_db_scheme \<Rightarrow> db_error + (fetch_attempt \<times> source_configuration)" where
  "get_attempt k db =
     ebind (of_option (DoesNotExist ''FetchAttempt'') (get_row fa_id k (db_attempts db))) (\<lambda>attempt.
     ebind (of_option (DoesNotExist ''FetchAttempt'')
              (get_row sc_id (fa_source_configuration attempt) (db_sources db))) (\<lambda>source.
     Inr (attempt, source)))"

definition build_source_artifact ::
    "(nat \<Rightarrow> uuid) \<Rightarrow> uuid \<Rightarrow> 'a fetch_db_scheme \<Rightarrow> db_error + (source_artifact \<times> bool \<times> 'a fetch_db_scheme)" where
  "build_source_artifact ids attempt_id db =
     ebind (get_attempt attempt_id db) (\<lambda>(attempt, source).
     ebind (require (fa_state attempt = SUCCEEDED)
              (ValidationError ''Only one completed, succeeded attempt can build an artifact.'')) (\<lambda>_.
     let receipts = sort_key rc_request_ordinal (receipts_of (fa_id attempt) db) in
     ebind (reconciled_total attempt receipts) (\<lambda>_.
     ebind (of_option (FullClean ''SourceArtifact'') (fa_completed_at attempt)) (\<lambda>completed.
     let candidate =
       \<lparr>ar_id = ids 0, ar_source_identity = fa_artifact_source_identity source attempt,
        ar_ordered_manifest_sha256 = ordered_page_manifest_sha256 receipts,
        ar_page_count = length receipts, ar_total_bytes = sum_list (map rc_body_byte_length receipts),
        ar_media_type = MEDIA_JSON, ar_encoding = UTF_8, ar_retention_mode = HASH_ONLY,
        ar_first_seen_at = completed\<rparr> in
     ebind (get_or_create_artifact candidate db) (\<lambda>(artifact, created, db1).
     ebind (require (same_artifact_fields artifact candidate)
              (ValidationError ''An existing artifact conflicts with the reconciled manifest.'')) (\<lambda>_.
     ebind (require (fa_artifact attempt \<in> {None, Some (ar_id artifact)})
              (ValidationError ''The attempt already references a different artifact.'')) (\<lambda>_.
     if fa_artifact attempt = None
     then ebind (save_attempt False (attempt\<lparr>fa_artifact := Some (ar_id artifact)\<rparr>) db1) (\<lambda>db2.
          Inr (artifact, created, db2))
     else Inr (artifact, created, db1))))))))"

section \<open>Starting\<close>

definition start_kamis_fetch ::
    "(nat \<Rightarrow> uuid) \<Rightarrow> instant \<Rightarrow> uuid \<Rightarrow> uuid option \<Rightarrow> nat \<Rightarrow> 'a fetch_db_scheme
      \<Rightarrow> db_error + (fetch_attempt \<times> 'a fetch_db_scheme)" where
  "start_kamis_fetch ids now source_id run_id attempt_ordinal db =
     ebind (of_option (DoesNotExist ''SourceConfiguration'') (get_row sc_id source_id (db_sources db))) (\<lambda>source.
     ebind (require (sc_state source = ACTIVE)
              (ValidationError ''KAMIS fetches require an active source configuration.'')) (\<lambda>_.
     ebind (require (sc_publication_mode source = RECENT_COMPARISON)
              (ValidationError ''KAMIS recent fetches require the recent-comparison mode.'')) (\<lambda>_.
     let attempt =
       \<lparr>fa_id = ids 0, fa_source_configuration = source_id, fa_artifact = None,
        fa_acquisition_run_id = (case run_id of None \<Rightarrow> ids 1 | Some k \<Rightarrow> k),
        fa_attempt_ordinal = attempt_ordinal, fa_state = STARTED, fa_started_at = now,
        fa_completed_at = None, fa_redacted_request_shape = REDACTED_REQUEST_SHAPE,
        fa_request_scope_sha256 = [], fa_received_page_count = 0, fa_received_row_count = 0,
        fa_received_byte_count = 0, fa_failure_class = None, fa_failure_code = []\<rparr>
     in ebind (save_attempt True attempt db) (\<lambda>db'. Inr (attempt, db')))))"

section \<open>Completing\<close>

definition validate_result_budget ::
    "source_configuration \<Rightarrow> fetch_attempt \<Rightarrow> kamis_fetch_result \<Rightarrow> db_error + unit" where
  "validate_result_budget source attempt result =
     ebind (if fa_request_scope_sha256 attempt \<noteq> []
            then require (fr_request_scope_sha256 result = Some (fa_request_scope_sha256 attempt))
                   (ValidationError ''The fetch result does not match its historical request scope.'')
            else require (fr_request_scope_sha256 result = None)
                   (ValidationError ''A recent fetch result cannot carry a historical request scope.'')) (\<lambda>_.
     ebind (require (fr_page_receipts result \<noteq> [])
              (ValidationError ''A successful fetch requires at least one page receipt.'')) (\<lambda>_.
     ebind (require (length (fr_page_receipts result) \<le> fr_call_count result)
              (ValidationError ''The call count cannot be smaller than the page count.'')) (\<lambda>_.
     ebind (require (fr_call_count result \<le> sc_max_requests_per_attempt source)
              (ValidationError ''The fetch exceeded its configured request budget.'')) (\<lambda>_.
     ebind (require (length (fr_page_receipts result) \<le> sc_max_pages_per_attempt source)
              (ValidationError ''The fetch exceeded its configured page budget.'')) (\<lambda>_.
     require (\<not> list_ex (\<lambda>r. sc_max_page_bytes source < pr_byte_length r) (fr_page_receipts result))
       (ValidationError ''A fetch page exceeded its configured byte budget.''))))))"

definition page_receipt_candidate ::
    "(nat \<Rightarrow> uuid) \<Rightarrow> instant \<Rightarrow> fetch_attempt \<Rightarrow> page_receipt \<Rightarrow> stored_receipt" where
  "page_receipt_candidate ids now attempt r =
     \<lparr>rc_id = ids (pr_ordinal r), rc_fetch_attempt = fa_id attempt, rc_request_ordinal = pr_ordinal r,
      rc_page_number = pr_requested_page_number r, rc_received_at = now,
      rc_http_status = Some (pr_http_status r), rc_provider_result_code = pr_provider_result_code r,
      rc_declared_total_count = Some (pr_declared_total_count r), rc_received_row_count = pr_row_count r,
      rc_body_state = RECEIVED, rc_body_byte_length = pr_byte_length r, rc_body_sha256 = pr_body_sha256 r,
      rc_body_absence_reason = None, rc_media_type = Some MEDIA_JSON, rc_encoding = Some UTF_8\<rparr>"

definition receipt_candidates ::
    "(nat \<Rightarrow> uuid) \<Rightarrow> instant \<Rightarrow> fetch_attempt \<Rightarrow> kamis_fetch_result \<Rightarrow> db_error + stored_receipt list" where
  "receipt_candidates ids now attempt result =
     (let receipts = fr_page_receipts result;
          declared_totals = set (map pr_declared_total_count receipts) in
     ebind (require (contiguous_from_one (map pr_ordinal receipts))
              (ValidationError ''Client page receipt ordinals must be contiguous from one.'')) (\<lambda>_.
     ebind (require (contiguous_from_one (map pr_requested_page_number receipts))
              (ValidationError ''Client requested page numbers must be contiguous from one.'')) (\<lambda>_.
     ebind (require (card declared_totals = 1 \<and> sum_list (map pr_row_count receipts) = length (fr_rows result))
              (ValidationError ''Client page rows do not reconcile with the result row count.'')) (\<lambda>_.
     ebind (require (declared_totals = {length (fr_rows result)})
              (ValidationError ''Client declared total does not match the result row count.'')) (\<lambda>_.
     emap (\<lambda>r.
       ebind (require (pr_requested_page_number r = pr_declared_page_number r)
                (ValidationError ''Client requested and declared page numbers differ.'')) (\<lambda>_.
       ebind (require (pr_http_status r = 200 \<and> pr_provider_result_code r = lit ''0'')
                (ValidationError ''A successful result contains a failed page receipt.'')) (\<lambda>_.
       Inr (page_receipt_candidate ids now attempt r)))) receipts)))))"

definition receipt_shape ::
    "stored_receipt \<Rightarrow> nat \<times> nat \<times> nat option \<times> nat \<times> nat \<times> pystr" where
  "receipt_shape r = (rc_request_ordinal r, rc_page_number r, rc_declared_total_count r,
     rc_received_row_count r, rc_body_byte_length r, rc_body_sha256 r)"

record completed_fetch =
  cf_attempt :: fetch_attempt
  cf_artifact :: source_artifact
  cf_artifact_created :: bool

definition validate_completed_replay ::
    "(nat \<Rightarrow> uuid) \<Rightarrow> instant \<Rightarrow> source_configuration \<Rightarrow> fetch_attempt \<Rightarrow> kamis_fetch_result
      \<Rightarrow> 'a fetch_db_scheme \<Rightarrow> db_error + completed_fetch" where
  "validate_completed_replay ids now source attempt result db =
     ebind (validate_result_budget source attempt result) (\<lambda>_.
     ebind (receipt_candidates ids now attempt result) (\<lambda>candidates.
     ebind (require (map receipt_shape (sort_key rc_request_ordinal (receipts_of (fa_id attempt) db))
                = map receipt_shape candidates)
              (ValidationError ''A completed fetch replay conflicts with its receipts.'')) (\<lambda>_.
     (case Option.bind (fa_artifact attempt) (\<lambda>k. get_row ar_id k (db_artifacts db)) of
        None \<Rightarrow> Inl (ValidationError ''A completed fetch replay conflicts with its artifact.'')
      | Some artifact \<Rightarrow>
          if ar_ordered_manifest_sha256 artifact \<noteq> fr_ordered_manifest_sha256 result
          then Inl (ValidationError ''A completed fetch replay conflicts with its artifact.'')
          else Inr \<lparr>cf_attempt = attempt, cf_artifact = artifact, cf_artifact_created = False\<rparr>))))"

definition complete_started ::
    "(nat \<Rightarrow> uuid) \<Rightarrow> instant \<Rightarrow> source_configuration \<Rightarrow> fetch_attempt \<Rightarrow> kamis_fetch_result
      \<Rightarrow> 'a fetch_db_scheme \<Rightarrow> db_error + (completed_fetch \<times> 'a fetch_db_scheme)" where
  "complete_started ids now source attempt result db =
     ebind (validate_result_budget source attempt result) (\<lambda>_.
     ebind (receipt_candidates ids now attempt result) (\<lambda>receipts.
     ebind (require (ordered_page_manifest_sha256 receipts = fr_ordered_manifest_sha256 result)
              (ValidationError ''The client and persistence ordered manifests differ.'')) (\<lambda>_.
     ebind (bulk_create_receipts receipts db) (\<lambda>db1.
     ebind (save_attempt False (attempt\<lparr>fa_state := SUCCEEDED, fa_completed_at := Some now,
              fa_received_page_count := length receipts,
              fa_received_row_count := length (fr_rows result),
              fa_received_byte_count := sum_list (map rc_body_byte_length receipts)\<rparr>) db1) (\<lambda>db2.
     ebind (build_source_artifact ids (fa_id attempt) db2) (\<lambda>(artifact, created, db3).
     ebind (require (ar_ordered_manifest_sha256 artifact = fr_ordered_manifest_sha256 result)
              (ValidationError ''The persisted artifact manifest differs from the client result.'')) (\<lambda>_.
     ebind (get_attempt (fa_id attempt) db3) (\<lambda>(refreshed, _).
     Inr (\<lparr>cf_attempt = refreshed, cf_artifact = artifact, cf_artifact_created = created\<rparr>, db3)))))))))"

definition complete_kamis_fetch ::
    "(nat \<Rightarrow> uuid) \<Rightarrow> instant \<Rightarrow> uuid \<Rightarrow> kamis_fetch_result \<Rightarrow> 'a fetch_db_scheme
      \<Rightarrow> db_error + (completed_fetch \<times> 'a fetch_db_scheme)" where
  "complete_kamis_fetch ids now attempt_id result db =
     ebind (get_attempt attempt_id db) (\<lambda>(attempt, source).
     if fa_state attempt = SUCCEEDED
     then ebind (validate_completed_replay ids now source attempt result db) (\<lambda>c. Inr (c, db))
     else ebind (require (fa_state attempt = STARTED)
            (ValidationError ''Only a started fetch attempt can be completed.'')) (\<lambda>_.
          complete_started ids now source attempt result db))"

section \<open>Failing\<close>

definition RESPONSE_LIMIT_CODES :: "string list" where
  "RESPONSE_LIMIT_CODES = [''call_budget_exceeded'', ''page_budget_exceeded'', ''page_too_large'']"

definition RECONCILIATION_CODES :: "string list" where
  "RECONCILIATION_CODES =
     [''declared_page_mismatch'', ''declared_page_size_mismatch'', ''declared_total_changed'',
      ''page_row_count_mismatch'', ''row_total_exceeded'']"

definition SCHEMA_CODES :: "string list" where
  "SCHEMA_CODES =
     [''invalid_json'', ''invalid_envelope'', ''invalid_header'', ''invalid_provider_header'',
      ''invalid_body'', ''unexpected_data_type'', ''invalid_declared_page'',
      ''invalid_declared_page_size'', ''invalid_declared_total'', ''invalid_items_envelope'',
      ''items_not_array'', ''item_not_object'', ''unexpected_envelope_keys'',
      ''unexpected_content_type'', ''missing_content_type'', ''unexpected_charset'',
      ''missing_charset'', ''invalid_content_length'', ''response_body_not_bytes'']"

definition KNOWN_TRANSPORT_CODES :: "string list" where
  "KNOWN_TRANSPORT_CODES = RESPONSE_LIMIT_CODES @ RECONCILIATION_CODES @ SCHEMA_CODES @
     [''invalid_http_status'', ''invalid_page_size'', ''invalid_response_state'',
      ''invalid_retry_state'', ''redirect_not_allowed'', ''request_parameter_allowlist_violation'',
      ''retry_exhausted'', ''service_key_missing'', ''terminal_http_status'',
      ''terminal_provider_error'', ''tls_error'', ''tls_verification_failed'',
      ''transport_internal_error'']"

definition classify_transport_failure :: "transport_error \<Rightarrow> attempt_state \<times> failure_class" where
  "classify_transport_failure e =
     (if te_code e = ''retry_exhausted'' then
        (RETRYABLE_FAILED,
         (case te_http_status e of
            Some s \<Rightarrow> if s = 429 then HTTP_429
                      else if 500 \<le> s \<and> s < 600 then HTTP_5XX
                      else if te_provider_result_code e \<noteq> None then PROVIDER_TRANSIENT else NETWORK
          | None \<Rightarrow> if te_provider_result_code e \<noteq> None then PROVIDER_TRANSIENT else NETWORK))
      else
        (TERMINAL_FAILED,
         (if te_code e \<in> set RESPONSE_LIMIT_CODES then RESPONSE_LIMIT
          else if te_code e \<in> set RECONCILIATION_CODES then RECONCILIATION
          else if te_code e \<in> set SCHEMA_CODES then SCHEMA
          else if te_code e \<in> {''tls_error'', ''tls_verification_failed''} then NETWORK
          else if te_code e = ''terminal_http_status'' \<and> te_http_status e \<in> {Some 401, Some 403}
          then AUTHENTICATION
          else if te_code e = ''terminal_provider_error''
               \<and> te_provider_result_code e = Some (lit ''-3'')
          then AUTHENTICATION
          else INVALID_REQUEST)))"

definition has_safe_partial_shape :: "page_receipt \<Rightarrow> bool" where
  "has_safe_partial_shape r \<longleftrightarrow>
     pr_ordinal r > 0 \<and> pr_requested_page_number r = pr_declared_page_number r
     \<and> pr_declared_page_size r > 0 \<and> pr_declared_total_count r > 0
     \<and> pr_row_count r = pr_declared_page_size r \<and> pr_http_status r = 200
     \<and> pr_provider_result_code r = lit ''0'' \<and> pr_byte_length r > 0 \<and> sha256_text (pr_body_sha256 r)"

text \<open>\<open>error.attempt or 1\<close>\<close>

definition attempt_or_one :: "nat option \<Rightarrow> nat" where
  "attempt_or_one a = (case a of None \<Rightarrow> 1 | Some n \<Rightarrow> if n = 0 then 1 else n)"

definition check_partial_run ::
    "source_configuration \<Rightarrow> transport_error \<Rightarrow> page_receipt list \<Rightarrow> db_error + unit" where
  "check_partial_run source e receipts =
     ebind (require (length receipts \<le> sc_max_pages_per_attempt source)
              (ValidationError ''Partial receipts exceed the configured page budget.'')) (\<lambda>_.
     ebind (require (length receipts \<le> sc_max_requests_per_attempt source)
              (ValidationError ''Partial receipts exceed the configured request budget.'')) (\<lambda>_.
     ebind (require (contiguous_from_one (map pr_ordinal receipts))
              (ValidationError ''Partial receipt ordinals must be contiguous from one.'')) (\<lambda>_.
     ebind (require (contiguous_from_one (map pr_requested_page_number receipts))
              (ValidationError ''Partial receipt page numbers must be contiguous from one.'')) (\<lambda>_.
     ebind (require (te_page_number e = Some (length receipts + 1))
              (ValidationError ''Partial receipts do not precede the failed page.'')) (\<lambda>_.
     require (length receipts + attempt_or_one (te_attempt e) \<le> sc_max_requests_per_attempt source)
       (ValidationError ''Partial evidence exceeds the configured request budget.''))))))"

definition check_partial_totals ::
    "source_configuration \<Rightarrow> page_receipt list \<Rightarrow> db_error + unit" where
  "check_partial_totals source receipts =
     ebind (require (list_all has_safe_partial_shape receipts)
              (ValidationError ''Partial receipt evidence has an invalid safe shape.'')) (\<lambda>_.
     (case (remdups (map pr_declared_total_count receipts), remdups (map pr_declared_page_size receipts)) of
        ([declared_total], [declared_page_size]) \<Rightarrow>
          let pages = max 1 ((declared_total + declared_page_size - 1) div declared_page_size) in
          ebind (require (pages \<le> sc_max_pages_per_attempt source)
                   (ValidationError ''Partial receipts declare a total beyond the source page budget.'')) (\<lambda>_.
          ebind (require (pages \<le> sc_max_requests_per_attempt source)
                   (ValidationError ''Partial receipts declare a total beyond the source request budget.'')) (\<lambda>_.
          ebind (require (sum_list (map pr_row_count receipts) < declared_total)
                   (ValidationError ''Partial receipt rows must be an incomplete prefix.'')) (\<lambda>_.
          require (\<not> list_ex (\<lambda>r. sc_max_page_bytes source < pr_byte_length r) receipts)
            (ValidationError ''A partial receipt exceeds the configured byte budget.''))))
      | _ \<Rightarrow> Inl (ValidationError ''Partial receipt source pagination changed between pages.'')))"

definition exceeds :: "nat option \<Rightarrow> nat \<Rightarrow> bool" where
  "exceeds x n \<longleftrightarrow> (case x of None \<Rightarrow> False | Some k \<Rightarrow> n < k)"

definition partial_receipt_candidates ::
    "(nat \<Rightarrow> uuid) \<Rightarrow> instant \<Rightarrow> source_configuration \<Rightarrow> fetch_attempt \<Rightarrow> transport_error
      \<Rightarrow> db_error + stored_receipt list" where
  "partial_receipt_candidates ids now source attempt e =
     (let receipts = te_partial_page_receipts e in
     ebind (require (\<not> exceeds (te_page_number e) (sc_max_pages_per_attempt source))
              (ValidationError ''The failed page exceeds the configured page budget.'')) (\<lambda>_.
     ebind (require (\<not> exceeds (te_attempt e) (sc_max_retries source + 1))
              (ValidationError ''The failed page exceeds the configured retry budget.'')) (\<lambda>_.
     ebind (require (\<not> exceeds (te_attempt e) (sc_max_requests_per_attempt source))
              (ValidationError ''The failed page exceeds the configured request budget.'')) (\<lambda>_.
     if receipts = [] then Inr []
     else ebind (check_partial_run source e receipts) (\<lambda>_.
          ebind (check_partial_totals source receipts) (\<lambda>_.
          Inr (map (page_receipt_candidate ids now attempt) receipts)))))))"

definition upper_text :: "string \<Rightarrow> pystr" where
  "upper_text s = map (\<lambda>c. if is_lower c then c - 32 else c) (lit s)"

definition fail_kamis_fetch ::
    "(nat \<Rightarrow> uuid) \<Rightarrow> instant \<Rightarrow> uuid \<Rightarrow> transport_error \<Rightarrow> 'a fetch_db_scheme
      \<Rightarrow> db_error + (fetch_attempt \<times> 'a fetch_db_scheme)" where
  "fail_kamis_fetch ids now attempt_id e db =
     ebind (get_attempt attempt_id db) (\<lambda>(attempt, source).
     ebind (require (fa_state attempt = STARTED)
              (ValidationError ''Only a started fetch attempt can be failed.'')) (\<lambda>_.
     ebind (require (receipts_of (fa_id attempt) db = [])
              (ValidationError ''A started fetch attempt already has page receipts.'')) (\<lambda>_.
     ebind (partial_receipt_candidates ids now source attempt e) (\<lambda>receipts.
     ebind (bulk_create_receipts receipts db) (\<lambda>db1.
     let (state, class) = classify_transport_failure e;
         failed = attempt\<lparr>fa_state := state, fa_completed_at := Some now,
           fa_failure_class := Some class,
           fa_failure_code := (if te_code e \<in> set KNOWN_TRANSPORT_CODES then upper_text (te_code e)
                               else lit ''UNCLASSIFIED_TRANSPORT_ERROR''),
           fa_received_page_count := length receipts,
           fa_received_row_count := sum_list (map rc_received_row_count receipts),
           fa_received_byte_count := sum_list (map rc_body_byte_length receipts)\<rparr>
     in ebind (save_attempt False failed db1) (\<lambda>db2. Inr (failed, db2)))))))"

end
