(* ===== verification/Kamis_Parser.thy ===== *)
theory Kamis_Parser
  imports Kamis_Identity Pricing
begin

text \<open>
  The parser of the recent source (\<open>grocery/source/kamis.py\<close>): the shape of a row, its scope,
  its fields, and the canonical result. The enumerations of references are those of \<open>Pricing\<close>,
  whose members carry the same names. Python iterates a frozenset in an order that changes with
  the hash seed of the process; that order is a parameter (\<open>required_order\<close>,
  \<open>optional_order\<close>) and only the field an error names depends on it.
\<close>

section \<open>Data\<close>

text \<open>A key of a decoded mapping; only a string key can be a field name.\<close>

datatype pykey = StrKey pystr | OtherKey nat

datatype raw_row = NotMapping | RowMapping "(pykey \<times> json) list"

datatype raw_items = NotSequence | Items "raw_row list"

type_synonym row = "(pystr \<times> json) list"

type_synonym semantic_identity_key =
  "pystr \<times> pystr \<times> pystr \<times> pystr \<times> pystr \<times> pystr \<times> pystr \<times> pystr"

definition KAMIS_RECENT_PRICE_FIELDS :: "pystr list" where
  "KAMIS_RECENT_PRICE_FIELDS = map lit
     [''ctgry_cd'', ''ctgry_nm'', ''dd1_bfr_cnvs_prc'', ''dd1_bfr_prc'', ''exmn_dd_cnvs_prc'',
      ''exmn_dd_prc'', ''exmn_ymd'', ''grd_cd'', ''grd_nm'', ''item_cd'', ''item_nm'',
      ''mm1_bfr_cnvs_prc'', ''mm1_bfr_prc'', ''se_cd'', ''se_nm'', ''unit'', ''unit_sz'',
      ''vrty_cd'', ''vrty_nm'', ''ww1_bfr_cnvs_prc'', ''ww1_bfr_prc'', ''yy1_bfr_cnvs_prc'',
      ''yy1_bfr_prc'']"

definition IDENTITY_FIELDS :: "pystr list" where
  "IDENTITY_FIELDS = map lit
     [''se_cd'', ''se_nm'', ''ctgry_cd'', ''ctgry_nm'', ''item_cd'', ''item_nm'', ''vrty_cd'',
      ''vrty_nm'', ''grd_cd'', ''grd_nm'', ''unit'', ''unit_sz'']"

definition IGNORED_PRICE_FIELDS :: "pystr list" where
  "IGNORED_PRICE_FIELDS = map lit
     [''exmn_dd_cnvs_prc'', ''dd1_bfr_prc'', ''dd1_bfr_cnvs_prc'', ''ww1_bfr_cnvs_prc'',
      ''mm1_bfr_cnvs_prc'', ''yy1_bfr_cnvs_prc'']"

definition OPTIONAL_PRICE_FIELDS :: "pystr list" where
  "OPTIONAL_PRICE_FIELDS = map lit
     [''dd1_bfr_cnvs_prc'', ''dd1_bfr_prc'', ''mm1_bfr_cnvs_prc'', ''mm1_bfr_prc'',
      ''ww1_bfr_cnvs_prc'', ''ww1_bfr_prc'', ''yy1_bfr_cnvs_prc'', ''yy1_bfr_prc'']"

text \<open>The orders in which the two frozensets of \<open>_validate_contract_types\<close> may be iterated.\<close>

definition iteration_orders :: "pystr list \<Rightarrow> pystr list \<Rightarrow> bool" where
  "iteration_orders required_order optional_order \<longleftrightarrow>
     set required_order = set KAMIS_RECENT_PRICE_FIELDS - set OPTIONAL_PRICE_FIELDS
     \<and> set optional_order = set OPTIONAL_PRICE_FIELDS"

record parsed_reference_price =
  prf_period :: comparison_period
  prf_value_status :: value_status
  prf_value :: "decimal option"
  prf_unavailable_reason :: "pystr option"
  prf_reference_date_status :: reference_date_status
  prf_source_reference_date :: "date option"

record parsed_retail_price_row =
  prr_identity :: identity_observation
  prr_source_effective_date :: date
  prr_current_price :: decimal
  prr_references :: "parsed_reference_price list"
  prr_source_row_hash :: pystr

definition semantic_identity_key :: "parsed_retail_price_row \<Rightarrow> semantic_identity_key" where
  "semantic_identity_key p = (let ob = prr_identity p in
     (io_product_class_code ob, io_category_code ob, io_item_code ob, io_variety_code ob,
      io_grade_code ob, io_raw_unit ob, io_raw_unit_size ob, io_coverage_identity ob))"

record parsed_recent_price_result =
  res_rows :: "parsed_retail_price_row list"
  res_input_row_count :: nat
  res_out_of_scope_row_count :: nat
  res_out_of_scope_row_hashes :: "pystr list"
  res_result_hash :: pystr

definition accepted_row_count :: "parsed_recent_price_result \<Rightarrow> nat" where
  "accepted_row_count r = length (res_rows r)"

section \<open>Canonical data\<close>

text \<open>\<open>format(value, "f")\<close>: positional notation without an exponent.\<close>

fun decimal_text :: "decimal \<Rightarrow> pystr" where
  "decimal_text (Fin s m e) =
     (if s then lit ''-'' else []) @
     (if 0 \<le> e then nat_text (m * 10 ^ nat e)
      else let k = nat (- e); d = pad_left (k + 1) (nat_text m)
           in take (length d - k) d @ lit ''.'' @ drop (length d - k) d)"
| "decimal_text (Infinite s) = (if s then lit ''-Infinity'' else lit ''Infinity'')"
| "decimal_text (NotANumber s) = lit ''NaN''"

fun period_text :: "comparison_period \<Rightarrow> pystr" where
  "period_text WEEK = lit ''WEEK''"
| "period_text MONTH = lit ''MONTH''"
| "period_text YEAR = lit ''YEAR''"

fun value_status_text :: "value_status \<Rightarrow> pystr" where
  "value_status_text AVAILABLE = lit ''AVAILABLE''"
| "value_status_text UNAVAILABLE = lit ''UNAVAILABLE''"

fun reference_date_status_text :: "reference_date_status \<Rightarrow> pystr" where
  "reference_date_status_text PROVIDED = lit ''PROVIDED''"
| "reference_date_status_text SOURCE_REFERENCE_DATE_UNAVAILABLE
     = lit ''SOURCE_REFERENCE_DATE_UNAVAILABLE''"

definition reference_canonical_data :: "parsed_reference_price \<Rightarrow> json" where
  "reference_canonical_data r = JObj
     [(lit ''period'', JStr (period_text (prf_period r))),
      (lit ''reference_date_status'', JStr (reference_date_status_text (prf_reference_date_status r))),
      (lit ''source_reference_date'', JNull),
      (lit ''unavailable_reason'', jstr_opt (prf_unavailable_reason r)),
      (lit ''value'', jstr_opt (map_option decimal_text (prf_value r))),
      (lit ''value_status'', JStr (value_status_text (prf_value_status r)))]"

definition row_canonical_data :: "parsed_retail_price_row \<Rightarrow> json" where
  "row_canonical_data p = (let ob = prr_identity p in JObj
     [(lit ''category_code'', JStr (io_category_code ob)),
      (lit ''category_name'', JStr (io_category_name ob)),
      (lit ''coverage_identity'', JStr (io_coverage_identity ob)),
      (lit ''currency'', JStr (lit ''KRW'')),
      (lit ''current_price'', JStr (decimal_text (prr_current_price p))),
      (lit ''grade_code'', JStr (io_grade_code ob)),
      (lit ''grade_name'', JStr (io_grade_name ob)),
      (lit ''item_code'', JStr (io_item_code ob)),
      (lit ''item_name'', JStr (io_item_name ob)),
      (lit ''product_class_code'', JStr (io_product_class_code ob)),
      (lit ''product_class_name'', JStr (io_product_class_name ob)),
      (lit ''raw_unit'', JStr (io_raw_unit ob)),
      (lit ''raw_unit_size'', JStr (io_raw_unit_size ob)),
      (lit ''references'', JArr (map reference_canonical_data (prr_references p))),
      (lit ''source_effective_date'', JStr (date_isoformat (prr_source_effective_date p))),
      (lit ''source_row_hash'', JStr (prr_source_row_hash p)),
      (lit ''variety_code'', JStr (io_variety_code ob)),
      (lit ''variety_name'', JStr (io_variety_name ob))])"


section \<open>Fields\<close>

definition canonical_hash_or_raise :: "json \<Rightarrow> kamis_error + pystr" where
  "canonical_hash_or_raise j = of_option UnicodeEncodeError (canonical_hash j)"

fun required_text :: "json \<Rightarrow> nat \<Rightarrow> pystr \<Rightarrow> kamis_error + pystr" where
  "required_text (JStr v) i field =
     (if v = [] \<or> v \<noteq> strip v
      then Inl (KamisParseError ''invalid_identity_text'' (Some i) (Some field)) else Inr v)"
| "required_text _ i field = Inl (KamisParseError ''invalid_identity_text'' (Some i) (Some field))"

definition invalid_effective_date :: "nat \<Rightarrow> kamis_error" where
  "invalid_effective_date i =
     KamisParseError ''invalid_effective_date'' (Some i) (Some (lit ''exmn_ymd''))"

fun parse_effective_date :: "json \<Rightarrow> nat \<Rightarrow> kamis_error + date" where
  "parse_effective_date (JStr v) i =
     (if length v = 8 \<and> all_digits v
      then of_option (invalid_effective_date i) (strptime_ymd v)
      else Inl (invalid_effective_date i))"
| "parse_effective_date _ i = Inl (invalid_effective_date i)"

text \<open>\<open>Decimal\<close> of a digit string is the exact integer.\<close>

fun parse_required_price :: "json \<Rightarrow> nat \<Rightarrow> pystr \<Rightarrow> kamis_error + decimal" where
  "parse_required_price (JStr v) i field =
     (if \<not> integer_price_text v
      then Inl (KamisParseError ''invalid_positive_scale_zero_price'' (Some i) (Some field))
      else let parsed = Fin False (text_nat v) 0
           in if \<not> dec_pos parsed \<or> \<not> dec_exponent_is_zero parsed
              then Inl (KamisParseError ''invalid_positive_scale_zero_price'' (Some i) (Some field))
              else Inr parsed)"
| "parse_required_price _ i field =
     Inl (KamisParseError ''invalid_positive_scale_zero_price'' (Some i) (Some field))"

definition parse_reference ::
    "comparison_period \<Rightarrow> json \<Rightarrow> nat \<Rightarrow> pystr \<Rightarrow> kamis_error + parsed_reference_price" where
  "parse_reference period v i field =
     (if v = JNull
      then Inr \<lparr>prf_period = period, prf_value_status = UNAVAILABLE, prf_value = None,
                prf_unavailable_reason = Some (lit ''SOURCE_VALUE_MISSING''),
                prf_reference_date_status = SOURCE_REFERENCE_DATE_UNAVAILABLE,
                prf_source_reference_date = None\<rparr>
      else ebind (parse_required_price v i field) (\<lambda>price.
           Inr \<lparr>prf_period = period, prf_value_status = AVAILABLE, prf_value = Some price,
                prf_unavailable_reason = None,
                prf_reference_date_status = SOURCE_REFERENCE_DATE_UNAVAILABLE,
                prf_source_reference_date = None\<rparr>))"

fun price_text :: "json \<Rightarrow> bool" where
  "price_text (JStr v) = integer_price_text v"
| "price_text _ = False"

definition validate_ignored_price :: "json \<Rightarrow> nat \<Rightarrow> pystr \<Rightarrow> kamis_error + unit" where
  "validate_ignored_price v i field =
     (if v \<noteq> JNull \<and> \<not> price_text v
      then Inl (KamisParseError ''invalid_ignored_price'' (Some i) (Some field)) else Inr ())"

section \<open>Rows\<close>

text \<open>\<open>row[field]\<close>\<close>

definition row_at :: "row \<Rightarrow> pystr \<Rightarrow> kamis_error + json" where
  "row_at r field = of_option (KeyError field) (map_of r field)"

fun str_keys :: "(pykey \<times> json) list \<Rightarrow> row option" where
  "str_keys [] = Some []"
| "str_keys ((StrKey k, v) # kvs) = map_option ((#) (k, v)) (str_keys kvs)"
| "str_keys ((OtherKey _, v) # kvs) = None"

definition validate_row_shape :: "(pykey \<times> json) list \<Rightarrow> nat \<Rightarrow> kamis_error + row" where
  "validate_row_shape raw i =
     (case str_keys raw of
        None \<Rightarrow> Inl (KamisParseError ''non_string_field_name'' (Some i) None)
      | Some r \<Rightarrow>
          if set (map fst r) \<noteq> set KAMIS_RECENT_PRICE_FIELDS
          then (case sort (filter (\<lambda>f. f \<notin> set (map fst r)) KAMIS_RECENT_PRICE_FIELDS) of
                  field # _ \<Rightarrow> Inl (KamisParseError ''missing_field'' (Some i) (Some field))
                | [] \<Rightarrow> Inl (KamisParseError ''unknown_field'' (Some i) None))
          else Inr r)"

definition field_type_drift :: "nat \<Rightarrow> pystr \<Rightarrow> kamis_error" where
  "field_type_drift i field = KamisParseError ''field_type_drift'' (Some i) (Some field)"

definition validate_contract_types ::
    "pystr list \<Rightarrow> pystr list \<Rightarrow> row \<Rightarrow> nat \<Rightarrow> kamis_error + unit" where
  "validate_contract_types required_order optional_order r i =
     ebind (eall (\<lambda>f. ebind (row_at r f) (\<lambda>v. require (is_jstr v) (field_type_drift i f)))
              required_order) (\<lambda>_.
     ebind (eall (\<lambda>f. ebind (row_at r f) (\<lambda>v. require (v = JNull \<or> is_jstr v) (field_type_drift i f)))
              optional_order) (\<lambda>_.
     ebind (eall (\<lambda>f. ebind (row_at r f) (\<lambda>v. ebind (required_text v i f) (\<lambda>_. Inr ())))
              IDENTITY_FIELDS) (\<lambda>_.
     ebind (ebind (row_at r (lit ''exmn_ymd'')) (\<lambda>v. parse_effective_date v i)) (\<lambda>_.
     ebind (ebind (row_at r (lit ''exmn_dd_prc''))
              (\<lambda>v. parse_required_price v i (lit ''exmn_dd_prc''))) (\<lambda>_.
     ebind (eall (\<lambda>f. ebind (row_at r f) (\<lambda>v. validate_ignored_price v i f))
              IGNORED_PRICE_FIELDS) (\<lambda>_.
     eall (\<lambda>(f, p). ebind (row_at r f) (\<lambda>v. ebind (parse_reference p v i f) (\<lambda>_. Inr ())))
       [(lit ''ww1_bfr_prc'', WEEK), (lit ''mm1_bfr_prc'', MONTH), (lit ''yy1_bfr_prc'', YEAR)]))))))"

text \<open>
  A list or an object cannot be hashed, so looking it up in a mapping raises \<open>TypeError\<close>;
  any other value that is not a string is simply not a key.
\<close>

fun hashable :: "json \<Rightarrow> bool" where
  "hashable (JArr _) = False"
| "hashable (JObj _) = False"
| "hashable _ = True"

fun jstr_text :: "json \<Rightarrow> pystr option" where
  "jstr_text (JStr s) = Some s"
| "jstr_text _ = None"

definition is_target_scope :: "row \<Rightarrow> exact_identity_registry \<Rightarrow> kamis_error + bool" where
  "is_target_scope r reg =
     ebind (row_at r (lit ''se_cd'')) (\<lambda>se.
     if se \<noteq> JStr KAMIS_RETAIL_PRODUCT_CLASS_CODE then Inr False else
     ebind (row_at r (lit ''ctgry_cd'')) (\<lambda>c.
     if \<not> hashable c then Inl UnhashableTypeError
     else if Option.bind (jstr_text c) (map_of KAMIS_ALLOWED_CATEGORIES) = None then Inr False else
     ebind (row_at r (lit ''item_cd'')) (\<lambda>it.
     ebind (row_at r (lit ''vrty_cd'')) (\<lambda>v.
     ebind (row_at r (lit ''grd_cd'')) (\<lambda>g.
     if \<not> hashable it \<or> \<not> hashable v \<or> \<not> hashable g then Inl UnhashableTypeError
     else (case (jstr_text c, jstr_text it, jstr_text v, jstr_text g) of
             (Some c', Some it', Some v', Some g') \<Rightarrow>
               Inr (map_of (reg_units reg) (c', it', v', g') \<noteq> None)
           | _ \<Rightarrow> Inr False))))))"


definition identity_text :: "row \<Rightarrow> nat \<Rightarrow> pystr \<Rightarrow> kamis_error + pystr" where
  "identity_text r i field = ebind (row_at r field) (\<lambda>v. required_text v i field)"

definition observe_identity :: "row \<Rightarrow> nat \<Rightarrow> kamis_error + identity_observation" where
  "observe_identity r i =
     ebind (emap (identity_text r i) IDENTITY_FIELDS) (\<lambda>vs.
       Inr \<lparr>io_product_class_code = vs ! 0, io_product_class_name = vs ! 1,
            io_category_code = vs ! 2, io_category_name = vs ! 3,
            io_item_code = vs ! 4, io_item_name = vs ! 5,
            io_variety_code = vs ! 6, io_variety_name = vs ! 7,
            io_grade_code = vs ! 8, io_grade_name = vs ! 9,
            io_raw_unit = vs ! 10, io_raw_unit_size = vs ! 11,
            io_coverage_identity = KAMIS_RETAIL_COVERAGE_IDENTITY\<rparr>)"

definition row_reference ::
    "row \<Rightarrow> nat \<Rightarrow> comparison_period \<times> pystr \<Rightarrow> kamis_error + parsed_reference_price" where
  "row_reference r i pf =
     ebind (row_at r (snd pf)) (\<lambda>v. parse_reference (fst pf) v i (snd pf))"

definition REFERENCE_FIELDS :: "(comparison_period \<times> pystr) list" where
  "REFERENCE_FIELDS =
     [(WEEK, lit ''ww1_bfr_prc''), (MONTH, lit ''mm1_bfr_prc''), (YEAR, lit ''yy1_bfr_prc'')]"

definition parse_row ::
    "row \<Rightarrow> nat \<Rightarrow> exact_identity_registry \<Rightarrow> kamis_error + parsed_retail_price_row" where
  "parse_row r i reg =
     ebind (observe_identity r i) (\<lambda>ob.
     ebind (validate_identity reg ob i) (\<lambda>_.
     ebind (ebind (row_at r (lit ''exmn_ymd'')) (\<lambda>v. parse_effective_date v i)) (\<lambda>d.
     ebind (ebind (row_at r (lit ''exmn_dd_prc''))
              (\<lambda>v. parse_required_price v i (lit ''exmn_dd_prc''))) (\<lambda>price.
     ebind (emap (row_reference r i) REFERENCE_FIELDS) (\<lambda>refs.
     ebind (eall (\<lambda>f. ebind (row_at r f) (\<lambda>v. validate_ignored_price v i f))
              IGNORED_PRICE_FIELDS) (\<lambda>_.
     ebind (canonical_hash_or_raise (JObj r)) (\<lambda>h.
       Inr \<lparr>prr_identity = ob, prr_source_effective_date = d, prr_current_price = price,
            prr_references = refs, prr_source_row_hash = h\<rparr>)))))))"

section \<open>The complete list\<close>

text \<open>
  One turn of the loop: a row in scope becomes a parsed row (\<open>Inl\<close>), a row out of scope is
  checked against the provider contract and leaves its hash (\<open>Inr\<close>).
\<close>

definition parse_item ::
    "pystr list \<Rightarrow> pystr list \<Rightarrow> exact_identity_registry \<Rightarrow> nat \<Rightarrow> raw_row
      \<Rightarrow> kamis_error + (parsed_retail_price_row + pystr)" where
  "parse_item required_order optional_order reg i raw =
     (case raw of
        NotMapping \<Rightarrow> Inl (KamisParseError ''row_not_object'' (Some i) None)
      | RowMapping kvs \<Rightarrow>
          ebind (validate_row_shape kvs i) (\<lambda>r.
          ebind (is_target_scope r reg) (\<lambda>target.
          if \<not> target
          then ebind (validate_contract_types required_order optional_order r i) (\<lambda>_.
               ebind (canonical_hash_or_raise (JObj r)) (\<lambda>h. Inr (Inr h)))
          else ebind (parse_row r i reg) (\<lambda>p. Inr (Inl p)))))"

fun parse_loop ::
    "(nat \<Rightarrow> raw_row \<Rightarrow> kamis_error + (parsed_retail_price_row + pystr)) \<Rightarrow> nat \<Rightarrow> raw_row list
      \<Rightarrow> semantic_identity_key list
      \<Rightarrow> kamis_error + (parsed_retail_price_row list \<times> pystr list)" where
  "parse_loop item i [] seen = Inr ([], [])"
| "parse_loop item i (raw # raws) seen =
     ebind (item i raw) (\<lambda>out. case out of
        Inr h \<Rightarrow> ebind (parse_loop item (i + 1) raws seen) (\<lambda>(ps, hs). Inr (ps, h # hs))
      | Inl p \<Rightarrow>
          if semantic_identity_key p \<in> set seen
          then Inl (KamisParseError ''duplicate_semantic_identity'' (Some i) None)
          else ebind (parse_loop item (i + 1) raws (semantic_identity_key p # seen))
                 (\<lambda>(ps, hs). Inr (p # ps, hs)))"

definition result_json :: "parsed_retail_price_row list \<Rightarrow> pystr list \<Rightarrow> json" where
  "result_json rows hashes = JObj
     [(lit ''accepted_rows'', JArr (map row_canonical_data rows)),
      (lit ''out_of_scope_row_hashes'', JArr (map JStr hashes)),
      (lit ''parser_contract'', JStr (lit ''kamis-recent-price-v1''))]"

definition parse_recent_price_rows ::
    "pystr list \<Rightarrow> pystr list \<Rightarrow> exact_identity_registry \<Rightarrow> raw_items
      \<Rightarrow> kamis_error + parsed_recent_price_result" where
  "parse_recent_price_rows required_order optional_order reg items =
     (case items of
        NotSequence \<Rightarrow> Inl (KamisParseError ''items_not_array'' None None)
      | Items raws \<Rightarrow>
          ebind (parse_loop (parse_item required_order optional_order reg) 0 raws [])
            (\<lambda>(parsed_rows, hashes).
          let rows = sort_key semantic_identity_key parsed_rows; hashes' = sort hashes
          in ebind (canonical_hash_or_raise (result_json rows hashes')) (\<lambda>h.
             Inr \<lparr>res_rows = rows, res_input_row_count = length raws,
                  res_out_of_scope_row_count = length hashes',
                  res_out_of_scope_row_hashes = hashes', res_result_hash = h\<rparr>)))"

section \<open>Outcomes do not depend on positions or iteration orders\<close>

definition valid_text :: "json \<Rightarrow> pystr option" where
  "valid_text v = (case jstr_text v of None \<Rightarrow> None
     | Some t \<Rightarrow> if t = [] \<or> t \<noteq> strip t then None else Some t)"

definition valid_price :: "json \<Rightarrow> nat option" where
  "valid_price v = (case jstr_text v of None \<Rightarrow> None
     | Some t \<Rightarrow> if integer_price_text t then Some (text_nat t) else None)"

definition valid_day :: "json \<Rightarrow> date option" where
  "valid_day v = (case jstr_text v of None \<Rightarrow> None
     | Some t \<Rightarrow> if length t = 8 \<and> all_digits t then strptime_ymd t else None)"

lemma outcome_required_text [outcome_simps]: "outcome (required_text v i f) = valid_text v"
  by (cases v) (auto simp: valid_text_def)

lemma outcome_effective_date [outcome_simps]: "outcome (parse_effective_date v i) = valid_day v"
  by (cases v) (auto simp: valid_day_def outcome_simps)

lemma outcome_required_price [outcome_simps]:
  "outcome (parse_required_price v i f) = map_option (\<lambda>n. Fin False n 0) (valid_price v)"
  by (cases v) (auto simp: valid_price_def Let_def dest: integer_price_text_pos)

lemma valid_price_pos: "valid_price v = Some n \<Longrightarrow> 0 < n"
  by (auto simp: valid_price_def dest: integer_price_text_pos split: option.splits if_splits)

lemma outcome_validate_ignored [outcome_simps]:
  "outcome (validate_ignored_price v i f) = (if v = JNull \<or> price_text v then Some () else None)"
  by (simp add: validate_ignored_price_def)

lemma outcome_row_at [outcome_simps]: "outcome (row_at r f) = map_of r f"
  by (simp add: row_at_def outcome_simps)

definition row_reference_of :: "comparison_period \<Rightarrow> json \<Rightarrow> parsed_reference_price option" where
  "row_reference_of p v = outcome (parse_reference p v 0 [])"

lemma outcome_parse_reference [outcome_simps]:
  "outcome (parse_reference p v i f) = row_reference_of p v"
  by (auto simp: row_reference_of_def parse_reference_def outcome_simps)

lemma outcome_validate_identity: "outcome (validate_identity reg ob i) = outcome (validate_identity reg ob j)"
  by (rule outcome_eqI) (simp add: validate_identity_iff)

lemma outcome_observe_identity: "outcome (observe_identity r i) = outcome (observe_identity r j)"
proof -
  have "outcome (emap (identity_text r i) IDENTITY_FIELDS) = outcome (emap (identity_text r j) IDENTITY_FIELDS)"
    by (rule outcome_emap_cong) (simp add: identity_text_def outcome_simps)
  then show ?thesis unfolding observe_identity_def by (rule outcome_ebind_cong) simp
qed

lemma outcome_row_references:
  "outcome (emap (row_reference r i) fs) = outcome (emap (row_reference r j) fs)"
  by (rule outcome_emap_cong) (simp add: row_reference_def outcome_simps)

lemma outcome_parse_row: "outcome (parse_row r i reg) = outcome (parse_row r j reg)"
  unfolding parse_row_def
  by (intro outcome_ebind_cong outcome_observe_identity outcome_validate_identity
        outcome_row_references) (simp_all add: outcome_simps)

lemma outcome_row_shape: "outcome (validate_row_shape kvs i) = outcome (validate_row_shape kvs j)"
  by (auto simp: validate_row_shape_def split: option.splits list.splits)

lemma outcome_contract_types:
  assumes "iteration_orders ro oo" "iteration_orders ro' oo'"
  shows "outcome (validate_contract_types ro oo r i) = outcome (validate_contract_types ro' oo' r j)"
  using assms by (simp add: validate_contract_types_def outcome_simps iteration_orders_def)

lemma outcome_parse_item:
  assumes "iteration_orders ro oo" "iteration_orders ro' oo'"
  shows "outcome (parse_item ro oo reg i raw) = outcome (parse_item ro' oo' reg j raw)"
proof (cases raw)
  case (RowMapping kvs)
  have "outcome (ebind (validate_contract_types ro oo r i) f) = outcome (ebind (validate_contract_types ro' oo' r j) f)"
    "outcome (ebind (parse_row r i reg) g) = outcome (ebind (parse_row r j reg) g)"
    for r and f :: "unit \<Rightarrow> kamis_error + (parsed_retail_price_row + pystr)" and g :: "_ \<Rightarrow> kamis_error + (parsed_retail_price_row + pystr)"
    by (simp_all add: outcome_ebind outcome_contract_types [OF assms, of r i j] outcome_parse_row [of r i reg j])
  then show ?thesis
    by (simp add: parse_item_def RowMapping) (intro outcome_ebind_cong outcome_row_shape; simp)
qed (simp add: parse_item_def)

section \<open>What a successful parse returns\<close>

definition lefts :: "('a + 'b) list \<Rightarrow> 'a list" where
  "lefts xs = concat (map (\<lambda>x. case x of Inl a \<Rightarrow> [a] | Inr _ \<Rightarrow> []) xs)"

definition rights :: "('a + 'b) list \<Rightarrow> 'b list" where
  "rights xs = concat (map (\<lambda>x. case x of Inl _ \<Rightarrow> [] | Inr b \<Rightarrow> [b]) xs)"

lemma lefts_simps [simp]: "lefts [] = []" "lefts (Inl a # xs) = a # lefts xs" "lefts (Inr b # xs) = lefts xs"
  by (simp_all add: lefts_def)

lemma rights_simps [simp]: "rights [] = []" "rights (Inl a # xs) = rights xs" "rights (Inr b # xs) = b # rights xs"
  by (simp_all add: rights_def)

lemma set_lefts: "set (lefts xs) = {a. Inl a \<in> set xs}"
  by (auto simp: lefts_def split: sum.splits)

lemma length_lefts_rights: "length (lefts xs) + length (rights xs) = length xs"
proof (induction xs)
  case (Cons x xs)
  then show ?case by (cases x) auto
qed simp

lemma lefts_mset_cong: "mset xs = mset ys \<Longrightarrow> mset (lefts xs) = mset (lefts ys)"
  unfolding lefts_def by (rule concat_map_mset_cong)

lemma rights_mset_cong: "mset xs = mset ys \<Longrightarrow> mset (rights xs) = mset (rights ys)"
  unfolding rights_def by (rule concat_map_mset_cong)

lemma ex_Cons_map_Some:
  "(\<exists>os. Some x # as = map Some os \<and> P os) \<longleftrightarrow> (\<exists>os. as = map Some os \<and> P (x # os))"
  by (auto simp: Cons_eq_map_conv)

text \<open>The outcome of every item, and no semantic identity twice.\<close>

lemma parse_loop_iff:
  assumes "\<And>raw i j. outcome (item i raw) = outcome (item j raw)"
  shows "parse_loop item i raws seen = Inr (ps, hs) \<longleftrightarrow>
    (\<exists>outs. map (\<lambda>raw. outcome (item 0 raw)) raws = map Some outs \<and> ps = lefts outs \<and> hs = rights outs
       \<and> distinct (map semantic_identity_key ps) \<and> set (map semantic_identity_key ps) \<inter> set seen = {})"
proof (induction raws arbitrary: i seen ps hs)
  case (Cons raw raws)
  have o: "outcome (item i raw) = outcome (item 0 raw)" using assms by blast
  show ?case
  proof (cases "outcome (item 0 raw)")
    case None
    then obtain e where "item i raw = Inl e" using o by (metis outcome_eq_None)
    then show ?thesis using None by auto
  next
    case (Some out)
    then have "item i raw = Inr out" using o by (simp add: outcome_eq_Some)
    then show ?thesis
      using Some
      by (cases out) (auto simp: exc_simps Cons.IH ex_Cons_map_Some split: prod.splits)
  qed
qed auto


definition source_required_order :: "pystr list" where
  "source_required_order = filter (\<lambda>f. f \<notin> set OPTIONAL_PRICE_FIELDS) KAMIS_RECENT_PRICE_FIELDS"

lemma iteration_orders_source: "iteration_orders source_required_order OPTIONAL_PRICE_FIELDS"
  by (auto simp: iteration_orders_def source_required_order_def)

definition item_outcome :: "exact_identity_registry \<Rightarrow> raw_row \<Rightarrow> (parsed_retail_price_row + pystr) option" where
  "item_outcome reg raw = outcome (parse_item source_required_order OPTIONAL_PRICE_FIELDS reg 0 raw)"

lemma outcome_item:
  "iteration_orders ro oo \<Longrightarrow> outcome (parse_item ro oo reg i raw) = item_outcome reg raw"
  unfolding item_outcome_def by (rule outcome_parse_item [OF _ iteration_orders_source])

text \<open>The result of a parse, from the outcomes of the items alone.\<close>

lemma parse_recent_price_rows_iff:
  assumes "iteration_orders ro oo"
  shows "parse_recent_price_rows ro oo reg (Items raws) = Inr res \<longleftrightarrow>
    (\<exists>outs. map (item_outcome reg) raws = map Some outs
       \<and> distinct (map semantic_identity_key (lefts outs))
       \<and> res_rows res = sort_key semantic_identity_key (lefts outs)
       \<and> res_input_row_count res = length raws
       \<and> res_out_of_scope_row_count res = length (rights outs)
       \<and> res_out_of_scope_row_hashes res = sort (rights outs)
       \<and> canonical_hash (result_json (res_rows res) (res_out_of_scope_row_hashes res))
           = Some (res_result_hash res))"
proof -
  let ?item = "parse_item ro oo reg"
  have o: "outcome (?item i raw) = item_outcome reg raw" for i raw
    by (rule outcome_item [OF assms])
  have loop: "parse_loop ?item 0 raws [] = Inr (ps, hs) \<longleftrightarrow>
      (\<exists>outs. map (item_outcome reg) raws = map Some outs \<and> ps = lefts outs \<and> hs = rights outs
         \<and> distinct (map semantic_identity_key ps))" for ps hs
    by (subst parse_loop_iff) (simp_all add: o)
  show ?thesis
    by (cases res)
       (auto simp: parse_recent_price_rows_def exc_simps loop Let_def canonical_hash_or_raise_def
             split: prod.splits)
qed

text \<open>
  C5: a complete list is parsed the same way whatever order its rows arrive in and whatever order
  the process iterates its field sets: either both runs fail, or both return the same result,
  with the same result hash.
\<close>

theorem parse_recent_price_rows_order_independent:
  assumes "iteration_orders ro oo" and "iteration_orders ro' oo'" and "mset raws = mset raws'"
  shows "outcome (parse_recent_price_rows ro oo reg (Items raws))
       = outcome (parse_recent_price_rows ro' oo' reg (Items raws'))"
proof -
  have half: "parse_recent_price_rows ro' oo' reg (Items ys) = Inr res"
    if o: "iteration_orders ro oo" "iteration_orders ro' oo'" and m: "mset xs = mset ys"
      and p: "parse_recent_price_rows ro oo reg (Items xs) = Inr res" for ro oo ro' oo' xs ys res
  proof -
    obtain outs where outs: "map (item_outcome reg) xs = map Some outs"
      "distinct (map semantic_identity_key (lefts outs))"
      "res_rows res = sort_key semantic_identity_key (lefts outs)"
      "res_input_row_count res = length xs"
      "res_out_of_scope_row_count res = length (rights outs)"
      "res_out_of_scope_row_hashes res = sort (rights outs)"
      "canonical_hash (result_json (res_rows res) (res_out_of_scope_row_hashes res))
           = Some (res_result_hash res)"
      using p parse_recent_price_rows_iff [OF o(1)] by blast
    define outs' where "outs' = map (the \<circ> item_outcome reg) ys"
    have "set ys = set xs" using m by (metis set_mset_mset)
    moreover have "\<forall>x \<in> set xs. item_outcome reg x \<noteq> None"
      using outs(1) by (metis (mono_tags, lifting) ex_map_conv imageE image_eqI list.set_map option.distinct(1))
    ultimately have o': "map (item_outcome reg) ys = map Some outs'" by (auto simp: outs'_def)
    have "outs = map (the \<circ> item_outcome reg) xs"
      using arg_cong [OF outs(1), of "map the"] by (simp add: comp_def)
    then have mo: "mset outs = mset outs'" using m by (simp add: outs'_def)
    have len: "length xs = length ys" using m by (rule mset_eq_length)
    have r: "sort (rights outs) = sort (rights outs')" "length (rights outs) = length (rights outs')"
      using sort_mset_cong mset_eq_length rights_mset_cong [OF mo] by blast+
    have l: "sort_key semantic_identity_key (lefts outs) = sort_key semantic_identity_key (lefts outs')"
      by (rule sort_key_mset_cong [OF lefts_mset_cong [OF mo] outs(2)])
    have d: "distinct (map semantic_identity_key (lefts outs'))"
      using outs(2) lefts_mset_cong [OF mo] by (metis mset_eq_imp_distinct_iff mset_map)
    show ?thesis
      using outs o' d l r len parse_recent_price_rows_iff [OF o(2)] by auto
  qed
  show ?thesis
    using half [OF assms] half [OF assms(2,1) assms(3) [symmetric]] by (intro outcome_eqI) blast
qed


section \<open>Accepted rows\<close>

definition parsed_reference_ok :: "parsed_reference_price \<Rightarrow> bool" where
  "parsed_reference_ok r \<longleftrightarrow>
     prf_reference_date_status r = SOURCE_REFERENCE_DATE_UNAVAILABLE \<and> prf_source_reference_date r = None
     \<and> (case prf_value_status r of
          AVAILABLE \<Rightarrow> (\<exists>n>0. prf_value r = Some (Fin False n 0)) \<and> prf_unavailable_reason r = None
        | UNAVAILABLE \<Rightarrow> prf_value r = None
            \<and> prf_unavailable_reason r = Some (lit ''SOURCE_VALUE_MISSING''))"

definition parsed_row_ok :: "exact_identity_registry \<Rightarrow> parsed_retail_price_row \<Rightarrow> bool" where
  "parsed_row_ok reg p \<longleftrightarrow>
     prr_identity p \<in> accepted_observations reg
     \<and> valid_date (prr_source_effective_date p)
     \<and> (\<exists>n>0. prr_current_price p = Fin False n 0)
     \<and> map prf_period (prr_references p) = [WEEK, MONTH, YEAR]
     \<and> (\<forall>r \<in> set (prr_references p). parsed_reference_ok r)
     \<and> sha256_text (prr_source_row_hash p)"

lemma parse_required_price_Inr:
  "parse_required_price v i f = Inr d \<Longrightarrow> \<exists>n>0. valid_price v = Some n \<and> d = Fin False n 0"
  using outcome_required_price [of v i f] valid_price_pos [of v] by (auto simp flip: outcome_eq_Some)

lemma parse_effective_date_valid: "parse_effective_date v i = Inr d \<Longrightarrow> valid_date d"
  by (cases v) (auto simp: exc_simps split: if_splits dest: strptime_ymd_valid)

lemma parse_reference_ok:
  "parse_reference p v i f = Inr r \<Longrightarrow> parsed_reference_ok r \<and> prf_period r = p"
  by (auto simp: parse_reference_def parsed_reference_ok_def exc_simps split: if_splits
           dest!: parse_required_price_Inr)

lemma row_references_ok:
  assumes "emap (row_reference r i) REFERENCE_FIELDS = Inr refs"
  shows "map prf_period refs = [WEEK, MONTH, YEAR] \<and> (\<forall>x \<in> set refs. parsed_reference_ok x)"
  using assms
  by (auto simp: REFERENCE_FIELDS_def row_reference_def exc_simps dest!: parse_reference_ok)

lemma parse_row_ok: "parse_row r i reg = Inr p \<Longrightarrow> parsed_row_ok reg p"
  by (auto simp: parse_row_def parsed_row_ok_def exc_simps accepted_observations_def
             canonical_hash_or_raise_def
           dest: parse_effective_date_valid parse_required_price_Inr row_references_ok canonical_hash_text)

lemma item_outcome_accepted: "item_outcome reg raw = Some (Inl p) \<Longrightarrow> parsed_row_ok reg p"
  by (auto simp: item_outcome_def outcome_eq_Some parse_item_def exc_simps
           split: raw_row.splits if_splits dest: parse_row_ok)

lemma item_outcome_hash: "item_outcome reg raw = Some (Inr h) \<Longrightarrow> sha256_text h"
  by (auto simp: item_outcome_def outcome_eq_Some parse_item_def exc_simps canonical_hash_or_raise_def
           split: raw_row.splits if_splits dest: canonical_hash_text)

lemma parsed_result_ok:
  assumes "iteration_orders ro oo"
    and "parse_recent_price_rows ro oo reg (Items raws) = Inr res"
  shows "accepted_row_count res + res_out_of_scope_row_count res = res_input_row_count res"
    and "res_input_row_count res = length raws"
    and "sorted_wrt (<) (map semantic_identity_key (res_rows res))"
    and "list_all (parsed_row_ok reg) (res_rows res)"
    and "sorted (res_out_of_scope_row_hashes res) \<and> list_all sha256_text (res_out_of_scope_row_hashes res)"
proof -
  obtain outs where outs: "map (item_outcome reg) raws = map Some outs"
    and d: "distinct (map semantic_identity_key (lefts outs))"
    and rows: "res_rows res = sort_key semantic_identity_key (lefts outs)"
    and n: "res_input_row_count res = length raws" "res_out_of_scope_row_count res = length (rights outs)"
    and hashes: "res_out_of_scope_row_hashes res = sort (rights outs)"
    using assms(2) parse_recent_price_rows_iff [OF assms(1)] by blast
  have len: "length outs = length raws" using arg_cong [OF outs, of length] by simp
  have out: "Some x \<in> item_outcome reg ` set raws" if "x \<in> set outs" for x
    using that outs by (metis image_eqI list.set_map)
  show "accepted_row_count res + res_out_of_scope_row_count res = res_input_row_count res"
    using n rows len length_lefts_rights [of outs] by (simp add: accepted_row_count_def)
  show "res_input_row_count res = length raws" by (rule n)
  have "distinct (map semantic_identity_key (res_rows res))"
    unfolding rows using d mset_sort [of semantic_identity_key "lefts outs"]
    by (metis mset_eq_imp_distinct_iff mset_map)
  then show "sorted_wrt (<) (map semantic_identity_key (res_rows res))"
    using rows by (simp add: strict_sorted_iff)
  show "list_all (parsed_row_ok reg) (res_rows res)"
    using out by (fastforce simp: rows set_lefts list_all_iff image_iff
                    intro: item_outcome_accepted [OF sym])
  have "h \<in> set (rights outs) \<Longrightarrow> Inr h \<in> set outs" for h
    by (auto simp: rights_def split: sum.splits)
  then show "sorted (res_out_of_scope_row_hashes res) \<and> list_all sha256_text (res_out_of_scope_row_hashes res)"
    using out by (fastforce simp: hashes list_all_iff intro: item_outcome_hash)
qed

text \<open>
  C6: the result of a parse reconciles with its input. The accepted rows and the hashed
  out-of-scope rows add up to the input rows; the accepted rows are in strictly increasing order
  of their semantic identity; each is an observation the registry accepts, on a calendar day,
  with a positive whole price and a well-formed week, month and year reference.
\<close>

theorem parse_recent_price_rows_reconciles:
  assumes "iteration_orders ro oo"
    and "parse_recent_price_rows ro oo reg (Items raws) = Inr res"
  shows "accepted_row_count res + res_out_of_scope_row_count res = res_input_row_count res
    \<and> res_input_row_count res = length raws
    \<and> sorted_wrt (<) (map semantic_identity_key (res_rows res))
    \<and> list_all (parsed_row_ok reg) (res_rows res)
    \<and> sorted (res_out_of_scope_row_hashes res) \<and> list_all sha256_text (res_out_of_scope_row_hashes res)"
  using parsed_result_ok [OF assms] by blast

section \<open>Fail closed\<close>

fun provider_value :: "json \<Rightarrow> bool" where
  "provider_value JNull = True"
| "provider_value (JStr _) = True"
| "provider_value _ = False"

definition provider_row :: "raw_row \<Rightarrow> bool" where
  "provider_row raw \<longleftrightarrow> (case raw of NotMapping \<Rightarrow> False
     | RowMapping kvs \<Rightarrow> fst ` set kvs = StrKey ` set KAMIS_RECENT_PRICE_FIELDS
         \<and> (\<forall>f \<in> set KAMIS_RECENT_PRICE_FIELDS. \<forall>v. map_of kvs (StrKey f) = Some v \<longrightarrow> provider_value v))"

lemma str_keys_map: "str_keys kvs = Some r \<Longrightarrow> kvs = map (\<lambda>(k, v). (StrKey k, v)) r"
proof (induction kvs arbitrary: r rule: str_keys.induct)
  case (2 k v kvs)
  then show ?case by auto
qed simp_all

lemma map_of_StrKey: "map_of (map (\<lambda>(k, v). (StrKey k, v)) r) (StrKey f) = map_of r f"
  by (induction r) auto

lemma provider_row_iff:
  assumes "validate_row_shape kvs i = Inr r"
  shows "provider_row (RowMapping kvs) \<longleftrightarrow>
    (\<forall>f \<in> set KAMIS_RECENT_PRICE_FIELDS. \<forall>v. map_of r f = Some v \<longrightarrow> provider_value v)"
proof -
  have r: "str_keys kvs = Some r" "fst ` set r = set KAMIS_RECENT_PRICE_FIELDS"
    using assms by (auto simp: validate_row_shape_def split: option.splits if_splits list.splits)
  have "fst ` set kvs = StrKey ` fst ` set r"
    unfolding str_keys_map [OF r(1)] by (force simp: image_iff)
  then show ?thesis
    using r(2) by (simp add: provider_row_def str_keys_map [OF r(1)] map_of_StrKey)
qed

lemma required_text_provider: "required_text v i f = Inr t \<Longrightarrow> provider_value v"
  by (cases v) auto

lemma effective_date_provider: "parse_effective_date v i = Inr t \<Longrightarrow> provider_value v"
  by (cases v) auto

lemma required_price_provider: "parse_required_price v i f = Inr t \<Longrightarrow> provider_value v"
  by (cases v) auto

lemma reference_provider: "parse_reference p v i f = Inr t \<Longrightarrow> provider_value v"
  by (cases v) (auto simp: parse_reference_def exc_simps)

lemma ignored_price_provider: "validate_ignored_price v i f = Inr t \<Longrightarrow> provider_value v"
  by (cases v) (auto simp: validate_ignored_price_def)

lemmas provider_values = required_text_provider effective_date_provider required_price_provider
  reference_provider ignored_price_provider

lemma fields_partition:
  "set KAMIS_RECENT_PRICE_FIELDS = set IDENTITY_FIELDS \<union> {lit ''exmn_ymd'', lit ''exmn_dd_prc''}
     \<union> snd ` set REFERENCE_FIELDS \<union> set IGNORED_PRICE_FIELDS"
  by (simp add: KAMIS_RECENT_PRICE_FIELDS_def IDENTITY_FIELDS_def REFERENCE_FIELDS_def
                IGNORED_PRICE_FIELDS_def) blast

lemma emap_Inr_all: "emap f xs = Inr ys \<Longrightarrow> x \<in> set xs \<Longrightarrow> \<exists>y. f x = Inr y"
  by (auto simp: emap_eq_Inr list_all2_conv_all_nth in_set_conv_nth)


lemma parse_row_provider:
  assumes "parse_row r i reg = Inr p" and "f \<in> set KAMIS_RECENT_PRICE_FIELDS" and "map_of r f = Some v"
  shows "provider_value v"
proof -
  have id: "\<exists>y. identity_text r i g = Inr y" if "g \<in> set IDENTITY_FIELDS" for g
    using assms(1) that by (auto simp: parse_row_def observe_identity_def exc_simps intro: emap_Inr_all)
  have ref: "\<exists>y. row_reference r i g = Inr y" if "g \<in> set REFERENCE_FIELDS" for g
    using assms(1) that by (auto simp: parse_row_def exc_simps intro: emap_Inr_all)
  show ?thesis
    using assms(2,3) assms(1) id ref unfolding fields_partition
    by (auto simp: parse_row_def identity_text_def row_reference_def row_at_def exc_simps
             dest: provider_values) (metis option.inject provider_values)+
qed

lemma contract_types_provider:
  assumes "validate_contract_types ro oo r i = Inr u" and "iteration_orders ro oo"
    and "f \<in> set KAMIS_RECENT_PRICE_FIELDS" and "map_of r f = Some v"
  shows "provider_value v"
proof -
  have "f \<in> set ro \<or> f \<in> set oo" using assms(2,3) by (auto simp: iteration_orders_def)
  then have "v = JNull \<or> is_jstr v"
    using assms(1,4) by (auto simp: validate_contract_types_def row_at_def exc_simps)
  then show ?thesis by (cases v) auto
qed

text \<open>
  C7: the parser fails closed. A complete list is accepted only if every item is a mapping whose
  keys are exactly the twenty-three fields of the contract and whose values are strings or null.
\<close>

theorem parse_recent_price_rows_fails_closed:
  assumes "iteration_orders ro oo" and "raw \<in> set raws" and "\<not> provider_row raw"
  shows "\<not> succeeds (parse_recent_price_rows ro oo reg (Items raws))"
proof
  assume "succeeds (parse_recent_price_rows ro oo reg (Items raws))"
  then obtain res where "parse_recent_price_rows ro oo reg (Items raws) = Inr res"
    by (auto simp: succeeds_iff)
  then obtain outs where "map (item_outcome reg) raws = map Some outs"
    using parse_recent_price_rows_iff [OF assms(1)] by blast
  then obtain out where "item_outcome reg raw = Some out"
    using assms(2) by (metis ex_map_conv imageE image_eqI list.set_map)
  then have "provider_row raw"
    using iteration_orders_source
    by (auto simp: item_outcome_def outcome_eq_Some parse_item_def exc_simps provider_row_iff
             split: raw_row.splits if_splits intro: parse_row_provider contract_types_provider)
  then show False using assms(3) by simp
qed

end
