(* ===== verification/Sql_Numeric.thy ===== *)
theory Sql_Numeric
  imports Pricing
begin

text \<open>
  The arithmetic of the database type \<open>numeric\<close> that the trigger on change facts uses (migration
  0005): a difference, a quotient, its product with 100 and \<open>round(_, 1)\<close>. Differences and
  products are exact; a quotient is rounded half away from zero at the scale the database selects
  for sixteen significant digits, and \<open>round\<close> rounds half away from zero again. For prices of
  twelve digits the two roundings together are the one rounding of the service.
\<close>

section \<open>The scale of a quotient\<close>

text \<open>A magnitude is held in base 10000: the exponent of its first digit, and that digit.\<close>

fun base_weight :: "nat \<Rightarrow> nat" where
  "base_weight m = (if m < 10000 then 0 else Suc (base_weight (m div 10000)))"

declare base_weight.simps [simp del]

definition first_digit :: "nat \<Rightarrow> nat" where
  "first_digit m = m div 10000 ^ base_weight m"

definition quotient_scale :: "nat \<Rightarrow> nat \<Rightarrow> nat" where
  "quotient_scale a b =
     (let weight = int (base_weight a) - int (base_weight b) - (if first_digit a \<le> first_digit b then 1 else 0)
      in nat (min 1000 (max 0 (16 - 4 * weight))))"

section \<open>The percentage of the trigger\<close>

text \<open>Tenths of a percent of \<open>round((a / b) * 100, 1)\<close>, for magnitudes and \<open>b\<close> not zero.\<close>

definition sql_tenths :: "nat \<Rightarrow> nat \<Rightarrow> nat" where
  "sql_tenths a b =
     (let scale = quotient_scale a b; ratio = half_up_quotient (a * 10 ^ scale) b
      in half_up_quotient (1000 * ratio) (10 ^ scale))"

text \<open>
  Difference, percentage and direction of two \<open>numeric(12,0)\<close> values; a division by zero, and any
  value such a column does not hold, gives none.
\<close>

fun sql_price_change :: "decimal \<Rightarrow> decimal \<Rightarrow> (decimal \<times> decimal \<times> direction) option" where
  "sql_price_change (Fin s m e) (Fin s' m' e') =
     (let difference = signed s m - signed s' m'; a = nat \<bar>difference\<bar>; negative = difference < 0 in
      if e \<noteq> 0 \<or> e' \<noteq> 0 \<or> m' = 0 then None
      else Some (Fin negative a 0, Fin (negative \<noteq> s') (sql_tenths a m') (- 1),
                 if difference < 0 then LOWER else if difference > 0 then HIGHER else EQUAL))"
| "sql_price_change _ _ = None"

section \<open>The two roundings are one\<close>

lemma half_up_quotient_iff:
  assumes "0 < d"
  shows "half_up_quotient n d = x \<longleftrightarrow> 2 * d * x \<le> 2 * n + d \<and> 2 * n + d < 2 * d * x + 2 * d"
proof -
  have "(2 * n + d) div (2 * d) = x \<longleftrightarrow> 2 * d * x \<le> 2 * n + d \<and> 2 * n + d < 2 * d * Suc x"
    using div_nat_eqI [of "2 * d" x "2 * n + d"] assms
    by (metis dividend_less_times_div mult.commute mult_pos_pos zero_less_numeral times_div_less_eq_dividend
        mult_Suc_right add.commute)
  then show ?thesis by (simp add: half_up_quotient_def algebra_simps)
qed

lemma double_rounding:
  assumes "0 < r" and "r < 10 * p"
  shows "half_up_quotient (1000 * half_up_quotient (a * (10000 * p)) r) (10000 * p) = half_up_quotient (1000 * a) r"
proof -
  define q where "q = half_up_quotient (a * (10000 * p)) r"
  define t where "t = half_up_quotient (1000 * a) r"
  have p: "0 < p" using assms by simp
  have q: "2 * r * q \<le> 20000 * (a * p) + r" "20000 * (a * p) + r < 2 * r * q + 2 * r"
    using half_up_quotient_iff [OF assms(1), of "a * (10000 * p)" q] q_def by simp_all
  have t: "2 * r * t \<le> 2000 * a + r" "2000 * a + r < 2 * r * t + 2 * r"
    using half_up_quotient_iff [OF assms(1), of "1000 * a" t] t_def by simp_all
  have "10 * p * (2 * r * t) \<le> 10 * p * (2000 * a + r)" using t(1) by (rule mult_le_mono2)
  then have "20 * (p * r * t) \<le> 20000 * (a * p) + 10 * (p * r)" by (simp add: algebra_simps)
  with q(2) have "20 * (p * r * t) < 2 * (r * q) + r + 10 * (p * r)" by (simp add: algebra_simps)
  then have "r * (20 * (p * t)) < r * (2 * q + 1 + 10 * p)" by (simp add: algebra_simps)
  then have low: "20 * (p * t) < 2 * q + 1 + 10 * p"
    by (simp only: nat_mult_less_cancel1 [OF assms(1)])
  have "2000 * a + 1 \<le> 2 * r * t + r" using t(2) by simp
  then have "10 * p * (2000 * a + 1) \<le> 10 * p * (2 * r * t + r)" by (rule mult_le_mono2)
  then have "20000 * (a * p) + 10 * p \<le> 20 * (p * r * t) + 10 * (p * r)" by (simp add: algebra_simps)
  with q(1) assms(2) have "2 * (r * q) < 20 * (p * r * t) + 10 * (p * r)" by (simp add: algebra_simps)
  then have "r * (2 * q) < r * (20 * (p * t) + 10 * p)" by (simp add: algebra_simps)
  then have high: "2 * q < 20 * (p * t) + 10 * p" by simp
  have "0 < 10000 * p" using p by simp
  then have "half_up_quotient (1000 * q) (10000 * p) = t"
    using low high half_up_quotient_iff [of "10000 * p" "1000 * q" t] by (simp add: algebra_simps)
  then show ?thesis by (simp add: q_def t_def)
qed

lemma less_base_weight: "m < 10000 * 10000 ^ base_weight m"
proof (induction m rule: base_weight.induct)
  case (1 m)
  show ?case
  proof (cases "m < 10000")
    case True
    then show ?thesis by (subst base_weight.simps) simp
  next
    case False
    then have "m div 10000 < 10000 * 10000 ^ base_weight (m div 10000)" using 1 by simp
    then have "m < 10000 * (10000 * 10000 ^ base_weight (m div 10000))" by (simp add: div_less_iff_less_mult)
    then show ?thesis using False by (subst base_weight.simps) simp
  qed
qed

lemma base_weight_small:
  assumes "m < 10 ^ 12"
  shows "base_weight m \<le> 2"
proof -
  have "m div 10000 div 10000 < 10000" using assms by (simp add: div_less_iff_less_mult)
  then have "base_weight (m div 10000 div 10000) = 0" by (simp add: base_weight.simps)
  then have "base_weight (m div 10000) \<le> 1" by (simp add: base_weight.simps [of "m div 10000"])
  then show ?thesis by (simp add: base_weight.simps [of m])
qed

lemma quotient_scale_enough:
  assumes "a < 10 ^ 12" and "b < 10 ^ 12"
  obtains k where "quotient_scale a b = 4 + k" and "b < 10 * 10 ^ k"
proof -
  have w: "base_weight a \<le> 2" "base_weight b \<le> 2" using assms by (simp_all add: base_weight_small)
  define k where "k = quotient_scale a b - 4"
  have k: "quotient_scale a b = 4 + k" "4 + 4 * base_weight b \<le> k"
    using w by (auto simp: quotient_scale_def k_def Let_def)
  have "b < 10 ^ (4 + 4 * base_weight b)"
    using less_base_weight [of b] by (simp add: power_add power_mult)
  also have "\<dots> \<le> 10 ^ k" using k(2) by (intro power_increasing) simp_all
  finally have "b < 10 ^ k" .
  also have "\<dots> \<le> 10 * 10 ^ k" by simp
  finally show ?thesis using that k(1) by blast
qed

lemma sql_tenths_eq:
  assumes "a < 10 ^ 12" and "0 < b" and "b < 10 ^ 12"
  shows "sql_tenths a b = half_up_quotient (1000 * a) b"
proof -
  obtain k where k: "quotient_scale a b = 4 + k" "b < 10 * 10 ^ k"
    using quotient_scale_enough [OF assms(1,3)] .
  have "(10 :: nat) ^ (4 + k) = 10000 * 10 ^ k" by (simp add: power_add)
  then show ?thesis
    using double_rounding [OF assms(2) k(2)] by (simp add: sql_tenths_def k(1) Let_def)
qed

lemma sql_price_change_prices:
  assumes "0 < b" and "b \<le> 999999999999" and "c \<le> 999999999999"
  shows "sql_price_change (Fin False c 0) (Fin False b 0) = Some
    (Fin (c < b) (if c < b then b - c else c - b) 0, Fin (c < b) (tenths_of_percent c b) (- 1),
     if c < b then LOWER else if c = b then EQUAL else HIGHER)"
proof -
  let ?a = "if c < b then b - c else c - b"
  have a: "nat \<bar>int c - int b\<bar> = ?a" by auto
  have "?a < 10 ^ 12" "b < 10 ^ 12" using assms by auto
  then have "sql_tenths ?a b = tenths_of_percent c b"
    unfolding tenths_of_percent_def using assms(1) by (intro sql_tenths_eq)
  then show ?thesis using assms(1) by (auto simp: Let_def signed_def a)
qed

end
