(* ===== verification/Price_Models.thy ===== *)
theory Price_Models
  imports Fetch_Persistence Kamis_Parser Sql_Numeric
begin

text \<open>
  The models of a parse generation (\<open>grocery/models.py\<close>): parse runs, price series, snapshots,
  reference prices and change facts, with the validated creation each of them offers
  (\<open>get_or_validate\<close>) and \<open>persist_reference_price_facts\<close>. The columns \<open>created_at\<close>, which
  nothing reads, and the columns that a constraint fixes to one value (currency, calculation
  revision, rounding mode) are left out.
\<close>

section \<open>Numeric columns\<close>

text \<open>Django's \<open>DecimalValidator\<close> of a \<open>DecimalField(max_digits, decimal_places)\<close>.\<close>

fun decimal_field :: "nat \<Rightarrow> nat \<Rightarrow> decimal \<Rightarrow> bool" where
  "decimal_field max_digits places (Fin s m e) =
     (let n = num_digits m;
          digits = (if 0 \<le> e then (if m = 0 then n else n + nat e) else max n (nat (- e)));
          decimals = (if 0 \<le> e then 0 else nat (- e))
      in digits \<le> max_digits \<and> decimals \<le> places \<and> digits - decimals \<le> max_digits - places)"
| "decimal_field max_digits places _ = False"

text \<open>What a \<open>numeric(n, places)\<close> column gives back: the value at its scale, zero unsigned.\<close>

fun numeric_column :: "nat \<Rightarrow> decimal \<Rightarrow> decimal" where
  "numeric_column places (Fin s m e) = Fin (s \<and> m \<noteq> 0) (m * 10 ^ nat (e + int places)) (- int places)"
| "numeric_column places d = d"

text \<open>Python's \<open>==\<close> on \<open>Decimal\<close> or \<open>None\<close>.\<close>

fun value_eq :: "decimal option \<Rightarrow> decimal option \<Rightarrow> bool" where
  "value_eq None None = True"
| "value_eq (Some a) (Some b) = dec_eq a b"
| "value_eq _ _ = False"

definition at_least_one :: "decimal \<Rightarrow> bool" where
  "at_least_one d \<longleftrightarrow> dec_le (dec_of_int 1) d"

section \<open>Rows\<close>

datatype run_status = RUN_STARTED | RUN_VALIDATED | RUN_QUARANTINED | RUN_FAILED

record parse_run =
  run_id :: uuid
  run_artifact :: uuid
  run_parser_revision :: pystr
  run_configuration_hash :: pystr
  run_result_hash :: pystr
  run_status :: run_status
  run_started_at :: instant
  run_completed_at :: "instant option"
  run_total_row_count :: nat
  run_accepted_row_count :: nat
  run_missing_reference_row_count :: nat
  run_out_of_scope_row_count :: nat
  run_quarantined_row_count :: nat
  run_failure_code :: pystr

record series_identity =
  si_product_class_code :: pystr
  si_category_code :: pystr
  si_item_code :: pystr
  si_variety_code :: pystr
  si_grade_code :: pystr
  si_raw_unit :: pystr
  si_raw_unit_size :: pystr
  si_coverage_identity :: pystr

record reviewed_fields =
  rf_product_class_name :: pystr
  rf_category_name :: pystr
  rf_item_name :: pystr
  rf_variety_name :: pystr
  rf_grade_name :: pystr
  rf_identity_evidence_revision :: pystr

record price_series_key =
  ser_id :: uuid
  ser_identity :: series_identity
  ser_reviewed :: reviewed_fields

record retail_price_snapshot =
  sn_id :: uuid
  sn_parse_run :: uuid
  sn_series :: uuid
  sn_source_effective_date :: date
  sn_source_recorded_at :: "instant option"
  sn_current_price :: decimal
  sn_source_row_sha256 :: pystr
  sn_source_contract_revision :: pystr

record stored_reference =
  sr_id :: uuid
  sr_snapshot :: uuid
  sr_period :: comparison_period
  sr_value_status :: value_status
  sr_value :: "decimal option"
  sr_unavailable_reason :: "pystr option"
  sr_reference_date_status :: reference_date_status
  sr_source_reference_date :: "date option"

record price_change_fact =
  cf_id :: uuid
  cf_reference_price :: uuid
  cf_direction :: direction
  cf_signed_difference :: "decimal option"
  cf_signed_percentage :: "decimal option"

record price_db = fetch_db +
  db_runs :: "parse_run list"
  db_series :: "price_series_key list"
  db_snapshots :: "retail_price_snapshot list"
  db_references :: "stored_reference list"
  db_changes :: "price_change_fact list"

section \<open>Parse runs\<close>

definition parse_run_fields :: "parse_run \<Rightarrow> bool" where
  "parse_run_fields r \<longleftrightarrow>
     char_field 64 (run_parser_revision r)
     \<and> char_field 64 (run_configuration_hash r) \<and> sha256_validator (run_configuration_hash r)
     \<and> blank_field 64 (run_result_hash r)
     \<and> (run_result_hash r = [] \<or> sha256_validator (run_result_hash r))
     \<and> integer_field (run_total_row_count r) \<and> integer_field (run_accepted_row_count r)
     \<and> integer_field (run_missing_reference_row_count r)
     \<and> integer_field (run_out_of_scope_row_count r) \<and> integer_field (run_quarantined_row_count r)
     \<and> blank_field 64 (run_failure_code r)
     \<and> (run_failure_code r = [] \<or> code_validator (run_failure_code r))"

text \<open>\<open>grocery_parse_status_outcome_valid\<close>\<close>

definition run_outcome_valid :: "parse_run \<Rightarrow> bool" where
  "run_outcome_valid r \<longleftrightarrow>
     (case run_status r of
        RUN_STARTED \<Rightarrow> run_completed_at r = None \<and> run_result_hash r = [] \<and> run_failure_code r = []
      | RUN_VALIDATED \<Rightarrow> run_completed_at r \<noteq> None \<and> run_quarantined_row_count r = 0
          \<and> run_failure_code r = [] \<and> run_result_hash r \<noteq> []
      | RUN_QUARANTINED \<Rightarrow> run_completed_at r \<noteq> None \<and> run_result_hash r = []
          \<and> 0 < run_quarantined_row_count r \<and> run_failure_code r \<noteq> []
      | RUN_FAILED \<Rightarrow> run_completed_at r \<noteq> None \<and> run_result_hash r = [] \<and> run_failure_code r \<noteq> [])"

definition parse_run_constraints :: "parse_run \<Rightarrow> bool" where
  "parse_run_constraints r \<longleftrightarrow>
     run_parser_revision r \<noteq> [] \<and> SHA256_PATTERN (run_configuration_hash r)
     \<and> (run_result_hash r = [] \<or> SHA256_PATTERN (run_result_hash r))
     \<and> run_total_row_count r = run_accepted_row_count r + run_out_of_scope_row_count r + run_quarantined_row_count r
     \<and> run_missing_reference_row_count r \<le> run_accepted_row_count r
     \<and> (run_failure_code r = [] \<or> upper_code (run_failure_code r))
     \<and> run_outcome_valid r
     \<and> (case run_completed_at r of None \<Rightarrow> True | Some t \<Rightarrow> run_started_at r \<le> t)"

definition parse_run_unique :: "bool \<Rightarrow> parse_run \<Rightarrow> parse_run list \<Rightarrow> bool" where
  "parse_run_unique adding r rows \<longleftrightarrow>
     \<not> list_ex (\<lambda>x. run_artifact x = run_artifact r \<and> run_parser_revision x = run_parser_revision r
                 \<and> run_configuration_hash x = run_configuration_hash r
                 \<and> (adding \<or> run_id x \<noteq> run_id r)) rows
     \<and> (adding \<longrightarrow> run_id r \<notin> set (map run_id rows))"

definition same_run_identity :: "parse_run \<Rightarrow> parse_run \<Rightarrow> bool" where
  "same_run_identity r p \<longleftrightarrow> run_artifact r = run_artifact p \<and> run_parser_revision r = run_parser_revision p
     \<and> run_configuration_hash r = run_configuration_hash p \<and> run_started_at r = run_started_at p"

definition save_parse_run :: "bool \<Rightarrow> parse_run \<Rightarrow> 'a price_db_scheme \<Rightarrow> db_error + 'a price_db_scheme" where
  "save_parse_run adding r db =
     ebind (if adding then Inr ()
            else (case get_row run_id (run_id r) (db_runs db) of
                None \<Rightarrow> Inr ()
              | Some persisted \<Rightarrow>
                  ebind (require (same_run_identity r persisted)
                           (ValidationError ''Parse run identity fields are immutable.'')) (\<lambda>_.
                  require (run_status persisted = RUN_STARTED)
                    (ValidationError ''Completed parse runs are immutable.'')))) (\<lambda>_.
     ebind (require (parse_run_fields r \<and> run_artifact r \<in> set (map ar_id (db_artifacts db))
              \<and> parse_run_unique adding r (db_runs db) \<and> parse_run_constraints r)
              (FullClean ''ParseRun'')) (\<lambda>_.
     Inr (db\<lparr>db_runs := upsert_row run_id r (db_runs db)\<rparr>)))"

section \<open>Series\<close>

definition digit_code :: "pystr \<Rightarrow> bool" where
  "digit_code s \<longleftrightarrow> s \<noteq> [] \<and> all_digits s"

definition code_field :: "pystr \<Rightarrow> bool" where
  "code_field s \<longleftrightarrow> char_field 32 s \<and> dollar digit_code s"

definition series_fields :: "price_series_key \<Rightarrow> bool" where
  "series_fields s \<longleftrightarrow> (let i = ser_identity s; r = ser_reviewed s in
     si_product_class_code i = lit ''01'' \<and> char_field 100 (rf_product_class_name r)
     \<and> si_category_code i \<in> {lit ''200'', lit ''400''} \<and> char_field 100 (rf_category_name r)
     \<and> code_field (si_item_code i) \<and> char_field 200 (rf_item_name r)
     \<and> code_field (si_variety_code i) \<and> char_field 200 (rf_variety_name r)
     \<and> code_field (si_grade_code i) \<and> char_field 200 (rf_grade_name r)
     \<and> char_field 64 (si_raw_unit i) \<and> char_field 64 (si_raw_unit_size i)
     \<and> char_field 128 (si_coverage_identity i) \<and> char_field 128 (rf_identity_evidence_revision r))"

definition series_constraints :: "price_series_key \<Rightarrow> bool" where
  "series_constraints s \<longleftrightarrow> (let i = ser_identity s; r = ser_reviewed s in
     si_product_class_code i = lit ''01'' \<and> si_category_code i \<in> {lit ''200'', lit ''400''}
     \<and> digit_code (si_item_code i) \<and> digit_code (si_variety_code i) \<and> digit_code (si_grade_code i)
     \<and> rf_product_class_name r \<noteq> [] \<and> rf_category_name r \<noteq> [] \<and> rf_item_name r \<noteq> []
     \<and> rf_variety_name r \<noteq> [] \<and> rf_grade_name r \<noteq> []
     \<and> si_raw_unit i \<noteq> [] \<and> si_raw_unit_size i \<noteq> []
     \<and> si_coverage_identity i \<noteq> [] \<and> rf_identity_evidence_revision r \<noteq> [])"

definition save_series ::
    "bool \<Rightarrow> price_series_key \<Rightarrow> 'a price_db_scheme \<Rightarrow> db_error + 'a price_db_scheme" where
  "save_series adding s db =
     ebind (require adding (ValidationError ''Price series keys are immutable.'')) (\<lambda>_.
     ebind (require (series_fields s \<and> ser_id s \<notin> set (map ser_id (db_series db))
              \<and> ser_identity s \<notin> set (map ser_identity (db_series db)) \<and> series_constraints s)
              (FullClean ''PriceSeriesKey'')) (\<lambda>_.
     Inr (db\<lparr>db_series := db_series db @ [s]\<rparr>)))"

definition series_get_or_validate ::
    "uuid \<Rightarrow> series_identity \<Rightarrow> reviewed_fields \<Rightarrow> 'a price_db_scheme
      \<Rightarrow> db_error + (price_series_key \<times> 'a price_db_scheme)" where
  "series_get_or_validate new i reviewed db =
     ebind (case get_row ser_identity i (db_series db) of
              Some s \<Rightarrow> Inr (s, db)
            | None \<Rightarrow>
                let s = \<lparr>ser_id = new, ser_identity = i, ser_reviewed = reviewed\<rparr>
                in ebind (save_series True s db) (\<lambda>db'. Inr (s, db'))) (\<lambda>(s, db').
     ebind (require (ser_reviewed s = reviewed)
              (ValidationError ''Price series display identity or evidence revision drifted for an existing semantic identity.'')) (\<lambda>_.
     Inr (s, db')))"

section \<open>Snapshots\<close>

definition snapshot_fields :: "retail_price_snapshot \<Rightarrow> bool" where
  "snapshot_fields s \<longleftrightarrow>
     decimal_field 12 0 (sn_current_price s) \<and> at_least_one (sn_current_price s)
     \<and> char_field 64 (sn_source_row_sha256 s) \<and> sha256_validator (sn_source_row_sha256 s)
     \<and> char_field 64 (sn_source_contract_revision s)"

definition snapshot_constraints :: "retail_price_snapshot \<Rightarrow> bool" where
  "snapshot_constraints s \<longleftrightarrow>
     dec_pos (sn_current_price s) \<and> SHA256_PATTERN (sn_source_row_sha256 s)
     \<and> sn_source_contract_revision s \<noteq> []"

definition snapshot_clean :: "retail_price_snapshot \<Rightarrow> 'a price_db_scheme \<Rightarrow> db_error + unit" where
  "snapshot_clean s db =
     ebind (of_option (DoesNotExist ''ParseRun'') (get_row run_id (sn_parse_run s) (db_runs db))) (\<lambda>r.
     require (run_status r = RUN_VALIDATED)
       (ValidationError ''Retail price snapshots require a validated parse run.''))"

text \<open>\<open>full_clean\<close>; \<open>whole\<close> says whether uniqueness and constraints are checked as well.\<close>

definition snapshot_full_clean ::
    "bool \<Rightarrow> retail_price_snapshot \<Rightarrow> 'a price_db_scheme \<Rightarrow> db_error + unit" where
  "snapshot_full_clean whole s db =
     require (snapshot_fields s \<and> sn_parse_run s \<in> set (map run_id (db_runs db))
              \<and> sn_series s \<in> set (map ser_id (db_series db)) \<and> succeeds (snapshot_clean s db)
              \<and> (whole \<longrightarrow> snapshot_constraints s \<and> sn_id s \<notin> set (map sn_id (db_snapshots db))
                   \<and> \<not> list_ex (\<lambda>x. sn_parse_run x = sn_parse_run s \<and> sn_series x = sn_series s) (db_snapshots db)))
       (FullClean ''RetailPriceSnapshot'')"

definition save_snapshot ::
    "bool \<Rightarrow> retail_price_snapshot \<Rightarrow> 'a price_db_scheme \<Rightarrow> db_error + 'a price_db_scheme" where
  "save_snapshot adding s db =
     ebind (require adding (ValidationError ''Retail price snapshots are immutable.'')) (\<lambda>_.
     ebind (snapshot_full_clean True s db) (\<lambda>_.
     Inr (db\<lparr>db_snapshots := db_snapshots db
              @ [s\<lparr>sn_current_price := numeric_column 0 (sn_current_price s)\<rparr>]\<rparr>)))"

definition same_snapshot :: "retail_price_snapshot \<Rightarrow> retail_price_snapshot \<Rightarrow> bool" where
  "same_snapshot x s \<longleftrightarrow>
     sn_source_effective_date x = sn_source_effective_date s
     \<and> sn_source_recorded_at x = sn_source_recorded_at s
     \<and> dec_eq (sn_current_price x) (sn_current_price s)
     \<and> sn_source_row_sha256 x = sn_source_row_sha256 s
     \<and> sn_source_contract_revision x = sn_source_contract_revision s"

definition snapshot_get_or_validate ::
    "retail_price_snapshot \<Rightarrow> 'a price_db_scheme
      \<Rightarrow> db_error + (retail_price_snapshot \<times> 'a price_db_scheme)" where
  "snapshot_get_or_validate candidate db =
     ebind (of_option (DoesNotExist ''ParseRun'')
              (get_row run_id (sn_parse_run candidate) (db_runs db))) (\<lambda>parse_run.
     ebind (of_option (DoesNotExist ''PriceSeriesKey'')
              (get_row ser_id (sn_series candidate) (db_series db))) (\<lambda>_.
     ebind (require (run_status parse_run = RUN_VALIDATED)
              (ValidationError ''Retail price snapshots require a validated parse run.'')) (\<lambda>_.
     ebind (snapshot_full_clean False candidate db) (\<lambda>_.
     (case find (\<lambda>x. sn_parse_run x = sn_parse_run candidate \<and> sn_series x = sn_series candidate)
             (db_snapshots db) of
        Some existing \<Rightarrow>
          ebind (require (same_snapshot existing candidate)
                   (ValidationError ''Retail price snapshot replay conflicts with the existing generation series.'')) (\<lambda>_.
          Inr (existing, db))
      | None \<Rightarrow> ebind (save_snapshot True candidate db) (\<lambda>db'. Inr (candidate, db')))))))"

section \<open>Reference prices\<close>

definition SOURCE_VALUE_MISSING :: pystr where
  "SOURCE_VALUE_MISSING = lit ''SOURCE_VALUE_MISSING''"

definition reference_fields :: "stored_reference \<Rightarrow> bool" where
  "reference_fields r \<longleftrightarrow>
     (case sr_value r of None \<Rightarrow> True | Some v \<Rightarrow> decimal_field 12 0 v \<and> at_least_one v)
     \<and> sr_unavailable_reason r \<in> {None, Some SOURCE_VALUE_MISSING}
     \<and> sr_reference_date_status r = SOURCE_REFERENCE_DATE_UNAVAILABLE"

definition reference_constraints :: "stored_reference \<Rightarrow> bool" where
  "reference_constraints r \<longleftrightarrow>
     (case sr_value_status r of
        AVAILABLE \<Rightarrow> (case sr_value r of None \<Rightarrow> False | Some v \<Rightarrow> dec_pos v) \<and> sr_unavailable_reason r = None
      | UNAVAILABLE \<Rightarrow> sr_value r = None \<and> sr_unavailable_reason r = Some SOURCE_VALUE_MISSING)
     \<and> sr_reference_date_status r = SOURCE_REFERENCE_DATE_UNAVAILABLE
     \<and> sr_source_reference_date r = None"

definition reference_clean :: "stored_reference \<Rightarrow> db_error + unit" where
  "reference_clean r =
     ebind (case sr_value_status r of
              AVAILABLE \<Rightarrow> require (\<not> (sr_value r = None \<or> sr_unavailable_reason r \<noteq> None))
                (ValidationError ''Available reference prices require a value and forbid an unavailable reason.'')
            | UNAVAILABLE \<Rightarrow> require (\<not> (sr_value r \<noteq> None \<or> sr_unavailable_reason r \<noteq> Some SOURCE_VALUE_MISSING))
                (ValidationError ''Unavailable reference prices require SOURCE_VALUE_MISSING and forbid a value.'')) (\<lambda>_.
     require (\<not> (sr_reference_date_status r \<noteq> SOURCE_REFERENCE_DATE_UNAVAILABLE
                 \<or> sr_source_reference_date r \<noteq> None))
       (ValidationError ''The source does not provide reference dates; dates must remain unavailable.''))"

definition reference_full_clean ::
    "bool \<Rightarrow> stored_reference \<Rightarrow> 'a price_db_scheme \<Rightarrow> db_error + unit" where
  "reference_full_clean whole r db =
     require (reference_fields r \<and> sr_snapshot r \<in> set (map sn_id (db_snapshots db))
              \<and> succeeds (reference_clean r)
              \<and> (whole \<longrightarrow> reference_constraints r \<and> sr_id r \<notin> set (map sr_id (db_references db))
                   \<and> \<not> list_ex (\<lambda>x. sr_snapshot x = sr_snapshot r \<and> sr_period x = sr_period r) (db_references db)))
       (FullClean ''ReferencePrice'')"

definition save_reference ::
    "bool \<Rightarrow> stored_reference \<Rightarrow> 'a price_db_scheme \<Rightarrow> db_error + 'a price_db_scheme" where
  "save_reference adding r db =
     ebind (require adding (ValidationError ''Reference prices are immutable.'')) (\<lambda>_.
     ebind (reference_full_clean True r db) (\<lambda>_.
     Inr (db\<lparr>db_references := db_references db
              @ [r\<lparr>sr_value := map_option (numeric_column 0) (sr_value r)\<rparr>]\<rparr>)))"

definition same_reference :: "stored_reference \<Rightarrow> stored_reference \<Rightarrow> bool" where
  "same_reference x r \<longleftrightarrow>
     sr_value_status x = sr_value_status r \<and> value_eq (sr_value x) (sr_value r)
     \<and> sr_unavailable_reason x = sr_unavailable_reason r
     \<and> sr_reference_date_status x = sr_reference_date_status r
     \<and> sr_source_reference_date x = sr_source_reference_date r"

definition reference_get_or_validate ::
    "stored_reference \<Rightarrow> 'a price_db_scheme \<Rightarrow> db_error + (stored_reference \<times> 'a price_db_scheme)" where
  "reference_get_or_validate candidate db =
     ebind (of_option (DoesNotExist ''RetailPriceSnapshot'')
              (get_row sn_id (sr_snapshot candidate) (db_snapshots db))) (\<lambda>_.
     ebind (reference_full_clean False candidate db) (\<lambda>_.
     (case find (\<lambda>x. sr_snapshot x = sr_snapshot candidate \<and> sr_period x = sr_period candidate)
             (db_references db) of
        Some existing \<Rightarrow>
          ebind (require (same_reference existing candidate)
                   (ValidationError ''Reference price replay conflicts with the existing snapshot period.'')) (\<lambda>_.
          Inr (existing, db))
      | None \<Rightarrow> ebind (save_reference True candidate db) (\<lambda>db'. Inr (candidate, db')))))"

section \<open>Change facts\<close>

definition in_calculation :: "pricing_error + 'a \<Rightarrow> db_error + 'a" where
  "in_calculation m = (case m of
     Inl (PriceValidationError _) \<Rightarrow> Inl (ValidationError ''Stored price values violate the calculation contract.'')
   | Inl DecimalSignal \<Rightarrow> Inl (UncaughtError ''DecimalException'')
   | Inl PeriodKeyError \<Rightarrow> Inl (UncaughtError ''KeyError'')
   | Inr x \<Rightarrow> Inr x)"

definition domain_reference :: "stored_reference \<Rightarrow> reference_price" where
  "domain_reference r =
     \<lparr>rp_period = sr_period r, rp_value_status = sr_value_status r, rp_value = sr_value r,
      rp_unavailable_reason = sr_unavailable_reason r, rp_date_status = sr_reference_date_status r,
      rp_date = sr_source_reference_date r\<rparr>"

definition references_of :: "uuid \<Rightarrow> 'a price_db_scheme \<Rightarrow> stored_reference list" where
  "references_of k db = filter (\<lambda>r. sr_snapshot r = k) (db_references db)"

text \<open>\<open>PriceChangeFact._expected_fields\<close>: the comparison of the period of one stored reference.\<close>

definition expected_fields :: "stored_reference \<Rightarrow> 'a price_db_scheme \<Rightarrow> db_error + price_comparison" where
  "expected_fields r db =
     (let stored = references_of (sr_snapshot r) db in
     ebind (require (length stored = 3 \<and> set (map sr_period stored) = set all_periods)
              (ValidationError ''Price change calculation requires exactly one WEEK, MONTH, and YEAR reference.'')) (\<lambda>_.
     ebind (of_option (DoesNotExist ''RetailPriceSnapshot'')
              (get_row sn_id (sr_snapshot r) (db_snapshots db))) (\<lambda>snapshot.
     ebind (in_calculation (
         ebind (emap (\<lambda>x. reference_price_init (domain_reference x)) stored) (\<lambda>refs.
         ebind (price_snapshot_init
                  \<lparr>ps_current_value = sn_current_price snapshot, ps_references = refs\<rparr>) (\<lambda>s.
         compare_snapshot s)))) (\<lambda>comparisons.
     of_option (UncaughtError ''StopIteration'')
       (find (\<lambda>c. pc_period c = sr_period r) comparisons)))))"

definition change_of :: "uuid \<Rightarrow> uuid \<Rightarrow> price_comparison \<Rightarrow> price_change_fact" where
  "change_of new reference c =
     \<lparr>cf_id = new, cf_reference_price = reference, cf_direction = pc_direction c,
      cf_signed_difference = pc_difference c, cf_signed_percentage = pc_percentage c\<rparr>"

definition same_change :: "price_change_fact \<Rightarrow> price_comparison \<Rightarrow> bool" where
  "same_change x c \<longleftrightarrow> cf_direction x = pc_direction c
     \<and> value_eq (cf_signed_difference x) (pc_difference c)
     \<and> value_eq (cf_signed_percentage x) (pc_percentage c)"

definition change_fields :: "price_change_fact \<Rightarrow> bool" where
  "change_fields x \<longleftrightarrow>
     (case cf_signed_difference x of None \<Rightarrow> True | Some v \<Rightarrow> decimal_field 12 0 v)
     \<and> (case cf_signed_percentage x of None \<Rightarrow> True | Some v \<Rightarrow> decimal_field 16 1 v)"

definition change_constraints :: "price_change_fact \<Rightarrow> bool" where
  "change_constraints x \<longleftrightarrow>
     (case (cf_signed_difference x, cf_signed_percentage x) of
        (None, None) \<Rightarrow> cf_direction x = DIRECTION_UNAVAILABLE
      | (Some d, Some _) \<Rightarrow>
          (cf_direction x = LOWER \<and> dec_neg d) \<or> (cf_direction x = EQUAL \<and> dec_is_zero d)
          \<or> (cf_direction x = HIGHER \<and> dec_pos d)
      | _ \<Rightarrow> False)"

definition change_clean :: "price_change_fact \<Rightarrow> 'a price_db_scheme \<Rightarrow> db_error + unit" where
  "change_clean x db =
     ebind (of_option (DoesNotExist ''ReferencePrice'')
              (get_row sr_id (cf_reference_price x) (db_references db))) (\<lambda>r.
     ebind (expected_fields r db) (\<lambda>expected.
     require (same_change x expected)
       (ValidationError ''Price change fact does not match the deterministic calculation contract.'')))"

definition change_full_clean ::
    "bool \<Rightarrow> price_change_fact \<Rightarrow> 'a price_db_scheme \<Rightarrow> db_error + unit" where
  "change_full_clean whole x db =
     require (change_fields x \<and> succeeds (change_clean x db)
              \<and> (whole \<longrightarrow> change_constraints x \<and> cf_id x \<notin> set (map cf_id (db_changes db))
                   \<and> cf_reference_price x \<notin> set (map cf_reference_price (db_changes db))))
       (FullClean ''PriceChangeFact'')"

text \<open>
  The trigger on inserted change facts (migration 0005, \<open>grocery_pricechangefact_validate_values\<close>)
  recomputes the fact from the joined reference and snapshot. A reference without a match is left
  to the foreign key; a null value makes the difference and the percentage null and the direction
  \<open>EQUAL\<close>; a division by zero is a database error. \<open>IS DISTINCT FROM\<close> on numerics compares values.
\<close>

definition change_trigger :: "price_change_fact \<Rightarrow> 'a price_db_scheme \<Rightarrow> db_error + unit" where
  "change_trigger x db =
     (case get_row sr_id (cf_reference_price x) (db_references db) of
        None \<Rightarrow> Inr ()
      | Some r \<Rightarrow>
     (case get_row sn_id (sr_snapshot r) (db_snapshots db) of
        None \<Rightarrow> Inr ()
      | Some snapshot \<Rightarrow>
          if sr_value_status r = UNAVAILABLE
          then require (cf_direction x = DIRECTION_UNAVAILABLE \<and> cf_signed_difference x = None
                        \<and> cf_signed_percentage x = None) (IntegrityError ''PriceChangeFact'')
          else (case sr_value r of
             None \<Rightarrow> require (cf_direction x = EQUAL \<and> cf_signed_difference x = None
                        \<and> cf_signed_percentage x = None) (IntegrityError ''PriceChangeFact'')
           | Some v \<Rightarrow>
               ebind (of_option (UncaughtError ''DataError'') (sql_price_change (sn_current_price snapshot) v))
                 (\<lambda>(difference, percentage, direction).
               require (cf_direction x = direction \<and> value_eq (cf_signed_difference x) (Some difference)
                        \<and> value_eq (cf_signed_percentage x) (Some percentage))
                 (IntegrityError ''PriceChangeFact'')))))"

text \<open>The row as its numeric columns hold it, which is what the trigger sees and the table keeps.\<close>

definition stored_change :: "price_change_fact \<Rightarrow> price_change_fact" where
  "stored_change x =
     x\<lparr>cf_signed_difference := map_option (numeric_column 0) (cf_signed_difference x),
       cf_signed_percentage := map_option (numeric_column 1) (cf_signed_percentage x)\<rparr>"

definition save_change ::
    "bool \<Rightarrow> price_change_fact \<Rightarrow> 'a price_db_scheme \<Rightarrow> db_error + 'a price_db_scheme" where
  "save_change adding x db =
     ebind (require adding (ValidationError ''Price change facts are immutable.'')) (\<lambda>_.
     ebind (change_full_clean True x db) (\<lambda>_.
     ebind (change_trigger (stored_change x) db) (\<lambda>_.
     Inr (db\<lparr>db_changes := db_changes db @ [stored_change x]\<rparr>))))"

definition change_get_or_validate ::
    "uuid \<Rightarrow> uuid \<Rightarrow> 'a price_db_scheme \<Rightarrow> db_error + (price_change_fact \<times> 'a price_db_scheme)" where
  "change_get_or_validate new reference_id db =
     ebind (of_option (DoesNotExist ''ReferencePrice'')
              (get_row sr_id reference_id (db_references db))) (\<lambda>r.
     ebind (expected_fields r db) (\<lambda>expected.
     let candidate = change_of new reference_id expected in
     ebind (change_full_clean False candidate db) (\<lambda>_.
     (case get_row cf_reference_price reference_id (db_changes db) of
        Some existing \<Rightarrow>
          ebind (require (same_change existing expected)
                   (ValidationError ''Price change replay conflicts with the stored deterministic fact.'')) (\<lambda>_.
          Inr (existing, db))
      | None \<Rightarrow> ebind (save_change True candidate db) (\<lambda>db'. Inr (candidate, db'))))))"

section \<open>The facts of one snapshot\<close>

definition reference_candidate ::
    "uuid \<Rightarrow> uuid \<Rightarrow> comparison_period \<Rightarrow> decimal option \<Rightarrow> stored_reference" where
  "reference_candidate new snapshot period v =
     \<lparr>sr_id = new, sr_snapshot = snapshot, sr_period = period,
      sr_value_status = (if v = None then UNAVAILABLE else AVAILABLE), sr_value = v,
      sr_unavailable_reason = (if v = None then Some SOURCE_VALUE_MISSING else None),
      sr_reference_date_status = SOURCE_REFERENCE_DATE_UNAVAILABLE, sr_source_reference_date = None\<rparr>"

text \<open>A loop that threads the database and collects what each turn returns.\<close>

fun estate :: "('x \<Rightarrow> 's \<Rightarrow> 'e + ('y \<times> 's)) \<Rightarrow> 'x list \<Rightarrow> 's \<Rightarrow> 'e + ('y list \<times> 's)" where
  "estate f [] s = Inr ([], s)"
| "estate f (x # xs) s =
     ebind (f x s) (\<lambda>(y, s1). ebind (estate f xs s1) (\<lambda>(ys, s2). Inr (y # ys, s2)))"

text \<open>\<open>ids\<close> gives the identifiers drawn: 0 to 2 for the references, 3 to 5 for the facts.\<close>

definition persist_reference_price_facts ::
    "(nat \<Rightarrow> uuid) \<Rightarrow> uuid \<Rightarrow> (comparison_period \<times> decimal option) list \<Rightarrow> 'a price_db_scheme
      \<Rightarrow> db_error + (price_change_fact list \<times> 'a price_db_scheme)" where
  "persist_reference_price_facts ids snapshot_id reference_values db =
     ebind (require (set (map fst reference_values) = set all_periods \<and> length reference_values = 3)
              (ValidationError ''Reference input requires exactly WEEK, MONTH, and YEAR.'')) (\<lambda>_.
     ebind (of_option (DoesNotExist ''RetailPriceSnapshot'')
              (get_row sn_id snapshot_id (db_snapshots db))) (\<lambda>_.
     ebind (estate (\<lambda>(new, period).
              reference_get_or_validate (reference_candidate new snapshot_id period
                (Option.bind (map_of reference_values period) (\<lambda>v. v))))
              (zip (map ids [0, 1, 2]) all_periods) db) (\<lambda>(references, db1).
     estate (\<lambda>(new, r). change_get_or_validate new (sr_id r))
       (zip (map ids [3, 4, 5]) references) db1)))"

end
