(* ===== verification/Generation.thy ===== *)
theory Generation
  imports Price_Models
begin

text \<open>
  One parse generation (\<open>grocery/source/generation.py\<close>): a parse run is started for an artifact,
  then completed with the parser's result or failed with a fixed code. The module constants that
  depend on the registry are computed once, as the import of the module computes them.
\<close>

section \<open>Constants\<close>

definition KAMIS_PARSER_REVISION :: pystr where
  "KAMIS_PARSER_REVISION = lit ''kamis-recent-price-v1''"

definition KAMIS_SOURCE_CONTRACT_REVISION :: pystr where
  "KAMIS_SOURCE_CONTRACT_REVISION = lit ''data-go-15156063-recent-v1''"

definition MAX_SCALE_ZERO_PRICE :: decimal where
  "MAX_SCALE_ZERO_PRICE = Fin False 999999999999 0"

definition parse_configuration_json :: "exact_identity_registry \<Rightarrow> json" where
  "parse_configuration_json reg = JObj
     [(lit ''coverage_identity'', JStr (reg_coverage_identity reg)),
      (lit ''evidence'', JObj
        [(lit ''codebook_sha256'', JStr (ie_codebook_sha256 (reg_evidence reg))),
         (lit ''coverage_evidence_revision'', JStr (ie_coverage_evidence_revision (reg_evidence reg))),
         (lit ''unit_contract_sha256'', JStr (ie_unit_contract_sha256 (reg_evidence reg)))]),
      (lit ''grade_names'', JArr (map (\<lambda>((c, i, v, g), name). JArr (map JStr [c, i, v, g, name]))
         (sort (reg_grade_names reg)))),
      (lit ''item_names'', JArr (map (\<lambda>((c, i), name). JArr (map JStr [c, i, name]))
         (sort (reg_item_names reg)))),
      (lit ''parser_revision'', JStr KAMIS_PARSER_REVISION),
      (lit ''source_contract_revision'', JStr KAMIS_SOURCE_CONTRACT_REVISION),
      (lit ''units'', JArr (map (\<lambda>((c, i, v, g), u, z). JArr (map JStr [c, i, v, g, u, z]))
         (sort (reg_units reg)))),
      (lit ''variety_names'', JArr (map (\<lambda>((c, i, v), name). JArr (map JStr [c, i, v, name]))
         (sort (reg_variety_names reg))))]"

definition parse_configuration_sha256 :: "exact_identity_registry \<Rightarrow> pystr option" where
  "parse_configuration_sha256 reg = canonical_hash (parse_configuration_json reg)"

record generation_module =
  gm_registry :: exact_identity_registry
  gm_configuration_sha256 :: pystr

definition import_generation :: "kamis_error + generation_module" where
  "import_generation =
     ebind INITIAL_RETAIL_IDENTITY_REGISTRY (\<lambda>reg.
     ebind (of_option UnicodeEncodeError (parse_configuration_sha256 reg)) (\<lambda>h.
     Inr \<lparr>gm_registry = reg, gm_configuration_sha256 = h\<rparr>))"

definition KAMIS_ARTIFACT_SOURCE_IDENTITY :: "generation_module \<Rightarrow> pystr" where
  "KAMIS_ARTIFACT_SOURCE_IDENTITY m =
     join [58] [KAMIS_DATASET_ID, KAMIS_INTERFACE_REVISION, lit ''RECENT_COMPARISON'',
                reg_coverage_identity (gm_registry m)]"

section \<open>Errors\<close>

datatype parse_failure_code = SCHEMA_INVALID | IDENTITY_DRIFT | RECONCILIATION_FAILED | PERSISTENCE_FAILED

fun parse_failure_value :: "parse_failure_code \<Rightarrow> pystr" where
  "parse_failure_value SCHEMA_INVALID = lit ''SCHEMA_INVALID''"
| "parse_failure_value IDENTITY_DRIFT = lit ''IDENTITY_DRIFT''"
| "parse_failure_value RECONCILIATION_FAILED = lit ''RECONCILIATION_FAILED''"
| "parse_failure_value PERSISTENCE_FAILED = lit ''PERSISTENCE_FAILED''"

datatype parse_generation_error =
    ARTIFACT_CONTRACT_INVALID
  | ARTIFACT_NOT_FOUND
  | CONFIGURATION_CONTRACT_DRIFT
  | FAILURE_CODE_INVALID
  | NONDETERMINISTIC_REPLAY
  | PARSE_RUN_NOT_STARTED
  | PARSE_RUN_NOT_FOUND
  | PERSISTENCE_CONFLICT
  | RESULT_CONTRACT_INVALID
  | RESULT_RECONCILIATION_FAILED

text \<open>What the bodies raise: the module's own error, or one the boundary translates.\<close>

datatype body_error = ParseGenerationError parse_generation_error | Raised db_error

definition db_step :: "db_error + 'a \<Rightarrow> body_error + 'a" where
  "db_step m = (case m of Inl e \<Rightarrow> Inl (Raised e) | Inr x \<Rightarrow> Inr x)"

text \<open>The handlers around a body; \<open>model\<close> is the class whose \<open>DoesNotExist\<close> has a code.\<close>

definition at_boundary ::
    "string \<Rightarrow> parse_generation_error \<Rightarrow> body_error + 'a \<Rightarrow> parse_generation_error + 'a" where
  "at_boundary model not_found m = (case m of
     Inr x \<Rightarrow> Inr x
   | Inl (ParseGenerationError c) \<Rightarrow> Inl c
   | Inl (Raised e) \<Rightarrow> Inl (if e = DoesNotExist model then not_found else PERSISTENCE_CONFLICT))"

section \<open>Contracts\<close>

definition validate_artifact :: "generation_module \<Rightarrow> source_artifact \<Rightarrow> body_error + unit" where
  "validate_artifact m a =
     require (\<not> (ar_source_identity a \<noteq> KAMIS_ARTIFACT_SOURCE_IDENTITY m \<or> ar_media_type a \<noteq> MEDIA_JSON
                 \<or> ar_encoding a \<noteq> UTF_8 \<or> ar_retention_mode a \<noteq> HASH_ONLY))
       (ParseGenerationError ARTIFACT_CONTRACT_INVALID)"

definition validate_configuration_constant :: "generation_module \<Rightarrow> body_error + unit" where
  "validate_configuration_constant m =
     ebind (of_option (Raised (UncaughtError ''UnicodeEncodeError''))
              (parse_configuration_sha256 (gm_registry m))) (\<lambda>h.
     require (h = gm_configuration_sha256 m) (ParseGenerationError CONFIGURATION_CONTRACT_DRIFT))"

definition validate_parse_run_contract ::
    "generation_module \<Rightarrow> parse_run \<Rightarrow> source_artifact \<Rightarrow> body_error + unit" where
  "validate_parse_run_contract m r a =
     ebind (validate_artifact m a) (\<lambda>_.
     ebind (validate_configuration_constant m) (\<lambda>_.
     require (\<not> (run_parser_revision r \<noteq> KAMIS_PARSER_REVISION
                 \<or> run_configuration_hash r \<noteq> gm_configuration_sha256 m))
       (ParseGenerationError CONFIGURATION_CONTRACT_DRIFT)))"

section \<open>Results\<close>

definition generation_price :: "decimal \<Rightarrow> bool" where
  "generation_price v \<longleftrightarrow>
     dec_is_finite v \<and> dec_pos v \<and> dec_le v MAX_SCALE_ZERO_PRICE \<and> dec_exponent_is_zero v"

definition result_reference_ok :: "parsed_reference_price \<Rightarrow> bool" where
  "result_reference_ok r \<longleftrightarrow>
     prf_reference_date_status r = SOURCE_REFERENCE_DATE_UNAVAILABLE
     \<and> prf_source_reference_date r = None
     \<and> (case prf_value_status r of
          AVAILABLE \<Rightarrow> (case prf_value r of None \<Rightarrow> False | Some v \<Rightarrow> generation_price v)
            \<and> prf_unavailable_reason r = None
        | UNAVAILABLE \<Rightarrow> prf_value r = None \<and> prf_unavailable_reason r = Some SOURCE_VALUE_MISSING)"

definition validate_row :: "generation_module \<Rightarrow> parsed_retail_price_row \<Rightarrow> body_error + unit" where
  "validate_row m p =
     require (generation_price (prr_current_price p) \<and> sha256_text (prr_source_row_hash p)
              \<and> succeeds (validate_identity (gm_registry m) (prr_identity p) 0)
              \<and> map prf_period (prr_references p) = all_periods
              \<and> list_all result_reference_ok (prr_references p))
       (ParseGenerationError RESULT_CONTRACT_INVALID)"

definition expected_identity_keys :: "exact_identity_registry \<Rightarrow> semantic_identity_key list" where
  "expected_identity_keys reg =
     sort (map (\<lambda>((c, i, v, g), u, z).
       (KAMIS_RETAIL_PRODUCT_CLASS_CODE, c, i, v, g, u, z, reg_coverage_identity reg)) (reg_units reg))"

definition row_misses_reference :: "parsed_retail_price_row \<Rightarrow> bool" where
  "row_misses_reference p \<longleftrightarrow> list_ex (\<lambda>r. prf_value_status r = UNAVAILABLE) (prr_references p)"

definition missing_reference_count :: "parsed_recent_price_result \<Rightarrow> nat" where
  "missing_reference_count result = length (filter row_misses_reference (res_rows result))"

definition validate_result :: "generation_module \<Rightarrow> parsed_recent_price_result \<Rightarrow> body_error + nat" where
  "validate_result m result =
     ebind (require (res_input_row_count result = accepted_row_count result + res_out_of_scope_row_count result)
              (ParseGenerationError RESULT_RECONCILIATION_FAILED)) (\<lambda>_.
     ebind (require (res_out_of_scope_row_count result = length (res_out_of_scope_row_hashes result))
              (ParseGenerationError RESULT_RECONCILIATION_FAILED)) (\<lambda>_.
     ebind (require (sort (res_out_of_scope_row_hashes result) = res_out_of_scope_row_hashes result
                     \<and> list_all sha256_text (res_out_of_scope_row_hashes result))
              (ParseGenerationError RESULT_CONTRACT_INVALID)) (\<lambda>_.
     ebind (eall (validate_row m) (res_rows result)) (\<lambda>_.
     ebind (require (map semantic_identity_key (res_rows result) = expected_identity_keys (gm_registry m))
              (ParseGenerationError RESULT_RECONCILIATION_FAILED)) (\<lambda>_.
     ebind (of_option (Raised (UncaughtError ''UnicodeEncodeError''))
              (canonical_hash (result_json (res_rows result) (res_out_of_scope_row_hashes result)))) (\<lambda>h.
     ebind (require (res_result_hash result = h) (ParseGenerationError RESULT_CONTRACT_INVALID)) (\<lambda>_.
     Inr (missing_reference_count result))))))))"

section \<open>Starting a run\<close>

definition start_or_get_kamis_parse_run ::
    "generation_module \<Rightarrow> (nat \<Rightarrow> uuid) \<Rightarrow> instant \<Rightarrow> uuid \<Rightarrow> 'a price_db_scheme
      \<Rightarrow> parse_generation_error + (parse_run \<times> bool \<times> 'a price_db_scheme)" where
  "start_or_get_kamis_parse_run m ids now artifact_id db =
     at_boundary ''SourceArtifact'' ARTIFACT_NOT_FOUND (
       ebind (db_step (of_option (DoesNotExist ''SourceArtifact'')
                (get_row ar_id artifact_id (db_artifacts db)))) (\<lambda>artifact.
       ebind (validate_artifact m artifact) (\<lambda>_.
       ebind (validate_configuration_constant m) (\<lambda>_.
       (case find (\<lambda>r. run_artifact r = artifact_id \<and> run_parser_revision r = KAMIS_PARSER_REVISION
                    \<and> run_configuration_hash r = gm_configuration_sha256 m) (db_runs db) of
          Some r \<Rightarrow> Inr (r, False, db)
        | None \<Rightarrow>
            let r = \<lparr>run_id = ids 0, run_artifact = artifact_id,
                     run_parser_revision = KAMIS_PARSER_REVISION,
                     run_configuration_hash = gm_configuration_sha256 m, run_result_hash = [],
                     run_status = RUN_STARTED, run_started_at = now, run_completed_at = None,
                     run_total_row_count = 0, run_accepted_row_count = 0,
                     run_missing_reference_row_count = 0, run_out_of_scope_row_count = 0,
                     run_quarantined_row_count = 0, run_failure_code = []\<rparr>
            in ebind (db_step (save_parse_run True r db)) (\<lambda>db'. Inr (r, True, db')))))))"

section \<open>Replaying\<close>

definition row_series_identity :: "identity_observation \<Rightarrow> series_identity" where
  "row_series_identity ob =
     \<lparr>si_product_class_code = io_product_class_code ob, si_category_code = io_category_code ob,
      si_item_code = io_item_code ob, si_variety_code = io_variety_code ob,
      si_grade_code = io_grade_code ob, si_raw_unit = io_raw_unit ob,
      si_raw_unit_size = io_raw_unit_size ob, si_coverage_identity = io_coverage_identity ob\<rparr>"

definition row_reviewed_fields :: "generation_module \<Rightarrow> identity_observation \<Rightarrow> reviewed_fields" where
  "row_reviewed_fields m ob =
     \<lparr>rf_product_class_name = io_product_class_name ob, rf_category_name = io_category_name ob,
      rf_item_name = io_item_name ob, rf_variety_name = io_variety_name ob,
      rf_grade_name = io_grade_name ob,
      rf_identity_evidence_revision = ie_coverage_evidence_revision (reg_evidence (gm_registry m))\<rparr>"

definition series_sort_key :: "series_identity \<Rightarrow> semantic_identity_key" where
  "series_sort_key i =
     (si_product_class_code i, si_category_code i, si_item_code i, si_variety_code i,
      si_grade_code i, si_raw_unit i, si_raw_unit_size i, si_coverage_identity i)"

text \<open>
  The snapshots of a run in the order the query asks for, which compares text by code points;
  a snapshot whose series is missing would not be joined.
\<close>

definition snapshot_series :: "'a price_db_scheme \<Rightarrow> retail_price_snapshot \<Rightarrow> price_series_key option" where
  "snapshot_series db s = get_row ser_id (sn_series s) (db_series db)"

definition run_snapshots :: "uuid \<Rightarrow> 'a price_db_scheme \<Rightarrow> (retail_price_snapshot \<times> price_series_key) list" where
  "run_snapshots k db =
     sort_key (\<lambda>(s, x). series_sort_key (ser_identity x))
       (List.map_filter (\<lambda>s. if sn_parse_run s = k then map_option (Pair s) (snapshot_series db s) else None)
          (db_snapshots db))"

definition run_references :: "uuid \<Rightarrow> 'a price_db_scheme \<Rightarrow> stored_reference list" where
  "run_references k db =
     filter (\<lambda>r. case get_row sn_id (sr_snapshot r) (db_snapshots db) of
               None \<Rightarrow> False | Some s \<Rightarrow> sn_parse_run s = k) (db_references db)"

definition run_changes :: "uuid \<Rightarrow> 'a price_db_scheme \<Rightarrow> price_change_fact list" where
  "run_changes k db =
     filter (\<lambda>c. case get_row sr_id (cf_reference_price c) (db_references db) of
               None \<Rightarrow> False
             | Some r \<Rightarrow> (case get_row sn_id (sr_snapshot r) (db_snapshots db) of
                 None \<Rightarrow> False | Some s \<Rightarrow> sn_parse_run s = k)) (db_changes db)"

definition stored_row_matches ::
    "generation_module \<Rightarrow> parsed_retail_price_row \<Rightarrow> retail_price_snapshot \<Rightarrow> price_series_key \<Rightarrow> bool" where
  "stored_row_matches m p s x \<longleftrightarrow>
     ser_identity x = row_series_identity (prr_identity p)
     \<and> ser_reviewed x = row_reviewed_fields m (prr_identity p)
     \<and> sn_source_effective_date s = prr_source_effective_date p \<and> sn_source_recorded_at s = None
     \<and> dec_eq (sn_current_price s) (prr_current_price p)
     \<and> sn_source_row_sha256 s = prr_source_row_hash p
     \<and> sn_source_contract_revision s = KAMIS_SOURCE_CONTRACT_REVISION"

definition stored_reference_matches :: "parsed_reference_price \<Rightarrow> stored_reference \<Rightarrow> bool" where
  "stored_reference_matches p r \<longleftrightarrow>
     sr_value_status r = prf_value_status p \<and> value_eq (sr_value r) (prf_value p)
     \<and> sr_unavailable_reason r = prf_unavailable_reason p
     \<and> sr_reference_date_status r = prf_reference_date_status p
     \<and> sr_source_reference_date r = prf_source_reference_date p"

abbreviation nondeterministic :: body_error where
  "nondeterministic \<equiv> ParseGenerationError NONDETERMINISTIC_REPLAY"

definition validate_persisted_reference ::
    "'a price_db_scheme \<Rightarrow> stored_reference list \<Rightarrow> price_change_fact list \<Rightarrow> parsed_reference_price
      \<Rightarrow> body_error + unit" where
  "validate_persisted_reference db references changes p =
     ebind (of_option nondeterministic (find (\<lambda>r. sr_period r = prf_period p) (rev references))) (\<lambda>stored.
     ebind (require (stored_reference_matches p stored) nondeterministic) (\<lambda>_.
     ebind (of_option nondeterministic (find (\<lambda>c. cf_reference_price c = sr_id stored) (rev changes))) (\<lambda>change.
     ebind (db_step (expected_fields stored db)) (\<lambda>expected.
     require (same_change change expected) nondeterministic))))"

definition validate_persisted_row ::
    "generation_module \<Rightarrow> 'a price_db_scheme \<Rightarrow> stored_reference list \<Rightarrow> price_change_fact list
      \<Rightarrow> parsed_retail_price_row \<times> retail_price_snapshot \<times> price_series_key \<Rightarrow> body_error + unit" where
  "validate_persisted_row m db references changes pair = (case pair of (p, s, x) \<Rightarrow>
     let own = filter (\<lambda>r. sr_snapshot r = sn_id s) references in
     ebind (require (stored_row_matches m p s x) nondeterministic) (\<lambda>_.
     ebind (require (set (map sr_period own) = set all_periods) nondeterministic) (\<lambda>_.
     eall (validate_persisted_reference db own changes) (prr_references p))))"

definition run_fields_match :: "parse_run \<Rightarrow> parsed_recent_price_result \<Rightarrow> nat \<Rightarrow> bool" where
  "run_fields_match r result missing \<longleftrightarrow>
     run_result_hash r = res_result_hash result \<and> run_total_row_count r = res_input_row_count result
     \<and> run_accepted_row_count r = accepted_row_count result
     \<and> run_missing_reference_row_count r = missing
     \<and> run_out_of_scope_row_count r = res_out_of_scope_row_count result
     \<and> run_quarantined_row_count r = 0 \<and> run_failure_code r = []"

definition validate_persisted_replay ::
    "generation_module \<Rightarrow> parse_run \<Rightarrow> parsed_recent_price_result \<Rightarrow> nat \<Rightarrow> 'a price_db_scheme
      \<Rightarrow> body_error + retail_price_snapshot list" where
  "validate_persisted_replay m r result missing db =
     (let rows = res_rows result; stored = run_snapshots (run_id r) db;
          references = run_references (run_id r) db; changes = run_changes (run_id r) db in
     ebind (require (run_fields_match r result missing) nondeterministic) (\<lambda>_.
     ebind (require (length stored = length rows) nondeterministic) (\<lambda>_.
     ebind (require (length references = 3 * length rows \<and> length changes = 3 * length rows)
              nondeterministic) (\<lambda>_.
     ebind (eall (validate_persisted_row m db references changes) (zip rows stored)) (\<lambda>_.
     Inr (map fst stored))))))"

section \<open>Completing a run\<close>

definition persist_row ::
    "generation_module \<Rightarrow> (nat \<Rightarrow> uuid) \<Rightarrow> uuid \<Rightarrow> nat \<times> parsed_retail_price_row \<Rightarrow> 'a price_db_scheme
      \<Rightarrow> db_error + (unit \<times> 'a price_db_scheme)" where
  "persist_row m ids parse_run_id turn db = (case turn of (i, p) \<Rightarrow>
     let new = (\<lambda>j. ids (8 * i + j)) in
     ebind (series_get_or_validate (new 6) (row_series_identity (prr_identity p))
              (row_reviewed_fields m (prr_identity p)) db) (\<lambda>(series, db1).
     ebind (snapshot_get_or_validate
              \<lparr>sn_id = new 7, sn_parse_run = parse_run_id, sn_series = ser_id series,
               sn_source_effective_date = prr_source_effective_date p, sn_source_recorded_at = None,
               sn_current_price = prr_current_price p, sn_source_row_sha256 = prr_source_row_hash p,
               sn_source_contract_revision = KAMIS_SOURCE_CONTRACT_REVISION\<rparr> db1) (\<lambda>(snapshot, db2).
     ebind (persist_reference_price_facts new (sn_id snapshot)
              (map (\<lambda>r. (prf_period r, prf_value r)) (prr_references p)) db2) (\<lambda>(_, db3).
     Inr ((), db3)))))"

record completed_generation =
  cg_parse_run :: parse_run
  cg_snapshots :: "retail_price_snapshot list"
  cg_replayed :: bool

definition validated_run :: "instant \<Rightarrow> parsed_recent_price_result \<Rightarrow> nat \<Rightarrow> parse_run \<Rightarrow> parse_run" where
  "validated_run now result missing r =
     r\<lparr>run_status := RUN_VALIDATED, run_completed_at := Some now,
       run_result_hash := res_result_hash result, run_total_row_count := res_input_row_count result,
       run_accepted_row_count := accepted_row_count result,
       run_missing_reference_row_count := missing,
       run_out_of_scope_row_count := res_out_of_scope_row_count result,
       run_quarantined_row_count := 0, run_failure_code := []\<rparr>"

definition get_run :: "uuid \<Rightarrow> 'a price_db_scheme \<Rightarrow> body_error + (parse_run \<times> source_artifact)" where
  "get_run k db =
     ebind (db_step (of_option (DoesNotExist ''ParseRun'') (get_row run_id k (db_runs db)))) (\<lambda>r.
     ebind (db_step (of_option (DoesNotExist ''ParseRun'')
              (get_row ar_id (run_artifact r) (db_artifacts db)))) (\<lambda>a. Inr (r, a)))"

definition complete_generation_body ::
    "generation_module \<Rightarrow> (nat \<Rightarrow> uuid) \<Rightarrow> instant \<Rightarrow> uuid \<Rightarrow> parsed_recent_price_result \<Rightarrow> 'a price_db_scheme
      \<Rightarrow> body_error + (completed_generation \<times> 'a price_db_scheme)" where
  "complete_generation_body m ids now k result db =
     ebind (get_run k db) (\<lambda>(r, artifact).
     ebind (validate_parse_run_contract m r artifact) (\<lambda>_.
     if run_status r = RUN_VALIDATED
     then ebind (require (run_result_hash r = res_result_hash result) nondeterministic) (\<lambda>_.
          ebind (validate_result m result) (\<lambda>missing.
          ebind (validate_persisted_replay m r result missing db) (\<lambda>snapshots.
          Inr (\<lparr>cg_parse_run = r, cg_snapshots = snapshots, cg_replayed = True\<rparr>, db))))
     else
          ebind (require (run_status r = RUN_STARTED) (ParseGenerationError PARSE_RUN_NOT_STARTED)) (\<lambda>_.
          ebind (validate_result m result) (\<lambda>missing.
          let r' = validated_run now result missing r in
          ebind (db_step (save_parse_run False r' db)) (\<lambda>db1.
          ebind (db_step (estate (persist_row m ids k)
                   (zip [0..<length (res_rows result)] (res_rows result)) db1)) (\<lambda>(_, db2).
          ebind (validate_persisted_replay m r' result missing db2) (\<lambda>snapshots.
          Inr (\<lparr>cg_parse_run = r', cg_snapshots = snapshots, cg_replayed = False\<rparr>, db2)))))))) "

definition complete_kamis_parse_generation ::
    "generation_module \<Rightarrow> (nat \<Rightarrow> uuid) \<Rightarrow> instant \<Rightarrow> uuid \<Rightarrow> parsed_recent_price_result \<Rightarrow> 'a price_db_scheme
      \<Rightarrow> parse_generation_error + (completed_generation \<times> 'a price_db_scheme)" where
  "complete_kamis_parse_generation m ids now k result db =
     at_boundary ''ParseRun'' PARSE_RUN_NOT_FOUND (complete_generation_body m ids now k result db)"

section \<open>Failing a run\<close>

definition fail_run_body ::
    "generation_module \<Rightarrow> instant \<Rightarrow> uuid \<Rightarrow> parse_failure_code \<Rightarrow> 'a price_db_scheme
      \<Rightarrow> body_error + (parse_run \<times> 'a price_db_scheme)" where
  "fail_run_body m now k code db =
     ebind (get_run k db) (\<lambda>(r, artifact).
     ebind (validate_parse_run_contract m r artifact) (\<lambda>_.
     ebind (require (run_status r = RUN_STARTED) (ParseGenerationError PARSE_RUN_NOT_STARTED)) (\<lambda>_.
     ebind (require (\<not> list_ex (\<lambda>s. sn_parse_run s = k) (db_snapshots db))
              (ParseGenerationError PERSISTENCE_CONFLICT)) (\<lambda>_.
     let r' = r\<lparr>run_status := RUN_FAILED, run_completed_at := Some now,
                run_failure_code := parse_failure_value code\<rparr>
     in ebind (db_step (save_parse_run False r' db)) (\<lambda>db'. Inr (r', db'))))))"

text \<open>\<open>None\<close> is an argument that is not a member of the enumeration.\<close>

definition fail_kamis_parse_run ::
    "generation_module \<Rightarrow> instant \<Rightarrow> uuid \<Rightarrow> parse_failure_code option \<Rightarrow> 'a price_db_scheme
      \<Rightarrow> parse_generation_error + (parse_run \<times> 'a price_db_scheme)" where
  "fail_kamis_parse_run m now k code db =
     ebind (of_option FAILURE_CODE_INVALID code) (\<lambda>c.
     at_boundary ''ParseRun'' PARSE_RUN_NOT_FOUND (fail_run_body m now k c db))"

end
