(* ===== verification/Review_Models.thy ===== *)
theory Review_Models
  imports Generation
begin

text \<open>
  Human review of a parsed generation (\<open>ReviewDecision\<close> and \<open>record_review_decision\<close> of
  \<open>grocery/models.py\<close>) with the two database triggers that check every inserted decision again
  (migrations 0006 and 0010). Users belong to the authentication framework: \<open>users\<close> says which
  primary keys exist, and an actor is what the code reads of a user object.
\<close>

section \<open>Actors\<close>

type_synonym user = nat

record actor =
  act_pk :: "user option"
  act_is_authenticated :: bool
  act_is_active :: bool
  act_has_perm :: "(string \<Rightarrow> bool) option"

text \<open>The guard of every privileged operation; it answers the primary key.\<close>

definition authorized :: "string \<Rightarrow> actor \<Rightarrow> user option" where
  "authorized perm a =
     (if act_is_authenticated a \<and> act_is_active a
         \<and> (case act_has_perm a of None \<Rightarrow> False | Some f \<Rightarrow> f perm)
      then act_pk a else None)"

section \<open>Decisions\<close>

datatype verdict = APPROVE | REJECT

record review_decision =
  rd_id :: uuid
  rd_decision :: verdict
  rd_reviewer :: user
  rd_decided_at :: instant
  rd_source_configuration :: uuid
  rd_source_artifact :: uuid
  rd_parse_run :: uuid
  rd_reconciliation_report_sha256 :: pystr
  rd_acceptance_evidence_sha256 :: pystr
  rd_reason_code :: pystr
  rd_approved_mode :: pystr
  rd_approved_coverage_identity :: pystr
  rd_approved_coverage_evidence_revision :: pystr
  rd_supersedes :: "uuid option"

record review_db = price_db +
  db_reviews :: "review_decision list"

definition review_generation :: "review_decision \<Rightarrow> uuid \<times> uuid \<times> uuid" where
  "review_generation r = (rd_source_configuration r, rd_source_artifact r, rd_parse_run r)"

definition mode_choices :: "pystr list" where
  "mode_choices = map mode_value [RECENT_COMPARISON, CURRENT_ONLY, STATIC_MONTHLY_FILE,
     HISTORICAL_MONTHLY, HISTORICAL_REGIONAL, HISTORICAL_MARKET]"

definition review_fields :: "review_decision \<Rightarrow> bool" where
  "review_fields r \<longleftrightarrow>
     char_field 64 (rd_reconciliation_report_sha256 r) \<and> sha256_validator (rd_reconciliation_report_sha256 r)
     \<and> char_field 64 (rd_acceptance_evidence_sha256 r) \<and> sha256_validator (rd_acceptance_evidence_sha256 r)
     \<and> char_field 64 (rd_reason_code r) \<and> code_validator (rd_reason_code r)
     \<and> (rd_approved_mode r = [] \<or> rd_approved_mode r \<in> set mode_choices)
     \<and> blank_field 128 (rd_approved_coverage_identity r)
     \<and> blank_field 64 (rd_approved_coverage_evidence_revision r)"

text \<open>The rows the foreign keys of a decision refer to exist.\<close>

definition review_links :: "(user \<Rightarrow> bool) \<Rightarrow> review_decision \<Rightarrow> 'a review_db_scheme \<Rightarrow> bool" where
  "review_links users r db \<longleftrightarrow>
     users (rd_reviewer r) \<and> rd_source_configuration r \<in> set (map sc_id (db_sources db))
     \<and> rd_source_artifact r \<in> set (map ar_id (db_artifacts db))
     \<and> rd_parse_run r \<in> set (map run_id (db_runs db))
     \<and> (case rd_supersedes r of None \<Rightarrow> True | Some k \<Rightarrow> k \<in> set (map rd_id (db_reviews db)))"

definition review_constraints :: "review_decision \<Rightarrow> bool" where
  "review_constraints r \<longleftrightarrow>
     SHA256_PATTERN (rd_reconciliation_report_sha256 r) \<and> SHA256_PATTERN (rd_acceptance_evidence_sha256 r)
     \<and> upper_code (rd_reason_code r)
     \<and> (case rd_decision r of
          APPROVE \<Rightarrow> rd_approved_mode r = lit ''RECENT_COMPARISON''
            \<and> rd_approved_coverage_identity r \<noteq> [] \<and> rd_approved_coverage_evidence_revision r \<noteq> []
        | REJECT \<Rightarrow> rd_approved_mode r = [] \<and> rd_approved_coverage_identity r = []
            \<and> rd_approved_coverage_evidence_revision r = [])
     \<and> rd_supersedes r \<noteq> Some (rd_id r)"

definition review_unique :: "review_decision \<Rightarrow> review_decision list \<Rightarrow> bool" where
  "review_unique r rows \<longleftrightarrow>
     rd_id r \<notin> set (map rd_id rows)
     \<and> (rd_supersedes r = None \<longrightarrow>
          \<not> list_ex (\<lambda>x. review_generation x = review_generation r \<and> rd_supersedes x = None) rows)
     \<and> (rd_supersedes r \<noteq> None \<longrightarrow> \<not> list_ex (\<lambda>x. rd_supersedes x = rd_supersedes r) rows)"

section \<open>\<open>ReviewDecision.clean\<close>\<close>

text \<open>The source gate, the artifact and the run.\<close>

definition review_source_clean ::
    "review_decision \<Rightarrow> source_configuration \<Rightarrow> parse_run \<Rightarrow> 'a review_db_scheme \<Rightarrow> db_error + unit" where
  "review_source_clean r source run db =
     ebind (effective_gate_timestamps source db) (\<lambda>(state_changed_at, rights_confirmed_at).
     ebind (require (sc_state source = ACTIVE \<and> sc_rights_evidence_locator source \<noteq> []
              \<and> sc_rights_evidence_sha256 source \<noteq> [] \<and> rights_confirmed_at \<noteq> None)
              (ValidationError ''Review requires an active source with complete rights evidence.'')) (\<lambda>_.
     ebind (require (state_changed_at \<le> rd_decided_at r
              \<and> (case rights_confirmed_at of None \<Rightarrow> False | Some t \<Rightarrow> t \<le> rd_decided_at r))
              (ValidationError ''Review cannot precede the effective source gate decision.'')) (\<lambda>_.
     ebind (require (list_ex (\<lambda>a. fa_source_configuration a = rd_source_configuration r
                        \<and> fa_artifact a = Some (rd_source_artifact r) \<and> fa_state a = SUCCEEDED) (db_attempts db))
              (ValidationError ''Review artifact must be linked to the source by a succeeded fetch attempt.'')) (\<lambda>_.
     require (run_artifact run = rd_source_artifact r)
       (ValidationError ''Review parse run and source artifact do not match.'')))))"

text \<open>The place of the decision in the chain of its generation.\<close>

definition review_chain_clean :: "bool \<Rightarrow> review_decision \<Rightarrow> 'a review_db_scheme \<Rightarrow> db_error + unit" where
  "review_chain_clean adding r db =
     (case rd_supersedes r of
        Some k \<Rightarrow>
          ebind (of_option (ValidationError ''Superseded review decision does not exist.'')
                   (get_row rd_id k (db_reviews db))) (\<lambda>superseded.
          ebind (require (rd_id superseded \<noteq> rd_id r)
                   (ValidationError ''A review decision cannot supersede itself.'')) (\<lambda>_.
          ebind (require (review_generation superseded = review_generation r)
                   (ValidationError ''A review decision can only supersede the same generation.'')) (\<lambda>_.
          require (\<not> list_ex (\<lambda>x. rd_supersedes x = Some (rd_id superseded) \<and> rd_id x \<noteq> rd_id r) (db_reviews db))
            (ValidationError ''Only the current review tail can be superseded.''))))
      | None \<Rightarrow>
          require (\<not> (adding \<and> list_ex (\<lambda>x. review_generation x = review_generation r
                        \<and> rd_supersedes x = None \<and> rd_id x \<noteq> rd_id r) (db_reviews db)))
            (ValidationError ''The review generation already has a root decision.''))"

definition has_change :: "'a price_db_scheme \<Rightarrow> stored_reference \<Rightarrow> bool" where
  "has_change db r \<longleftrightarrow> list_ex (\<lambda>c. cf_reference_price c = sr_id r) (db_changes db)"

definition review_snapshot_clean :: "'a price_db_scheme \<Rightarrow> retail_price_snapshot \<Rightarrow> db_error + unit" where
  "review_snapshot_clean db s =
     (let references = references_of (sn_id s) db in
     ebind (require (length references = 3 \<and> set (map sr_period references) = set all_periods)
              (ValidationError ''Every approved snapshot requires exact WEEK, MONTH, and YEAR references.'')) (\<lambda>_.
     require (list_all (has_change db) references)
       (ValidationError ''Every approved reference requires a deterministic price change fact.'')))"

definition snapshots_of_run :: "uuid \<Rightarrow> 'a price_db_scheme \<Rightarrow> retail_price_snapshot list" where
  "snapshots_of_run k db = filter (\<lambda>s. sn_parse_run s = k) (db_snapshots db)"

definition review_verdict_clean ::
    "review_decision \<Rightarrow> source_configuration \<Rightarrow> parse_run \<Rightarrow> 'a review_db_scheme \<Rightarrow> db_error + unit" where
  "review_verdict_clean r source run db =
     (case rd_decision r of
        REJECT \<Rightarrow>
          require (\<not> (run_completed_at run = None \<or> run_status run = RUN_STARTED))
            (ValidationError ''Rejected review decisions require a completed parse run.'')
      | APPROVE \<Rightarrow>
          ebind (require (\<not> (run_status run \<noteq> RUN_VALIDATED \<or> run_completed_at run = None
                       \<or> run_result_hash run = [] \<or> run_quarantined_row_count run \<noteq> 0))
                   (ValidationError ''Approved review decisions require a reconciled, validated parse run.'')) (\<lambda>_.
          ebind (require (\<not> (sc_publication_mode source \<noteq> RECENT_COMPARISON
                       \<or> rd_approved_mode r \<noteq> mode_value (sc_publication_mode source)
                       \<or> rd_approved_coverage_identity r \<noteq> sc_coverage_identity source
                       \<or> rd_approved_coverage_evidence_revision r \<noteq> sc_coverage_evidence_revision source))
                   (ValidationError ''Approved mode and coverage must exactly match the active source configuration.'')) (\<lambda>_.
          let snapshots = snapshots_of_run (run_id run) db in
          ebind (require (length snapshots = run_accepted_row_count run)
                   (ValidationError ''Snapshot count must equal the parse accepted-row count.'')) (\<lambda>_.
          eall (review_snapshot_clean db) snapshots))))"

definition review_clean :: "bool \<Rightarrow> review_decision \<Rightarrow> 'a review_db_scheme \<Rightarrow> db_error + unit" where
  "review_clean adding r db =
     ebind (of_option (DoesNotExist ''SourceConfiguration'')
              (get_row sc_id (rd_source_configuration r) (db_sources db))) (\<lambda>source.
     ebind (of_option (DoesNotExist ''SourceArtifact'')
              (get_row ar_id (rd_source_artifact r) (db_artifacts db))) (\<lambda>_.
     ebind (of_option (DoesNotExist ''ParseRun'')
              (get_row run_id (rd_parse_run r) (db_runs db))) (\<lambda>run.
     ebind (review_source_clean r source run db) (\<lambda>_.
     ebind (review_chain_clean adding r db) (\<lambda>_.
     review_verdict_clean r source run db)))))"

section \<open>Database triggers\<close>

text \<open>\<open>grocery_review_gate_time_validate_insert\<close>\<close>

definition review_gate_time_trigger :: "review_decision \<Rightarrow> 'a review_db_scheme \<Rightarrow> bool" where
  "review_gate_time_trigger r db \<longleftrightarrow>
     (case get_row sc_id (rd_source_configuration r) (db_sources db) of
        None \<Rightarrow> False
      | Some source \<Rightarrow>
          (case get_row gc_source_configuration (rd_source_configuration r) (db_corrections db) of
             Some c \<Rightarrow>
               gc_original_state_changed_at c = sc_state_changed_at source
               \<and> Some (gc_original_rights_confirmed_at c) = sc_rights_confirmed_at source
               \<and> gc_effective_gate_decision_recorded_at c \<le> rd_decided_at r
           | None \<Rightarrow>
               (case sc_rights_confirmed_at source of
                  None \<Rightarrow> False
                | Some t \<Rightarrow> sc_state_changed_at source \<le> rd_decided_at r \<and> t \<le> rd_decided_at r)))"

text \<open>
  The rows of the join that counts the facts of one snapshot: a reference with each of its change
  facts, or with none.
\<close>

definition fact_join ::
    "'a price_db_scheme \<Rightarrow> retail_price_snapshot \<Rightarrow> (stored_reference \<times> price_change_fact option) list" where
  "fact_join db s =
     concat (map (\<lambda>r. case filter (\<lambda>c. cf_reference_price c = sr_id r) (db_changes db) of
                        [] \<Rightarrow> [(r, None)]
                      | cs \<Rightarrow> map (\<lambda>c. (r, Some c)) cs)
       (references_of (sn_id s) db))"

definition facts_exact :: "'a price_db_scheme \<Rightarrow> retail_price_snapshot \<Rightarrow> bool" where
  "facts_exact db s \<longleftrightarrow> (let rows = fact_join db s in
     length rows = 3 \<and> card (set (map (\<lambda>(r, _). sr_period r) rows)) = 3
     \<and> length (filter (\<lambda>(_, c). c \<noteq> None) rows) = 3)"

text \<open>\<open>grocery_reviewdecision_validate_insert\<close>\<close>

definition review_trigger_chain :: "review_decision \<Rightarrow> 'a review_db_scheme \<Rightarrow> bool" where
  "review_trigger_chain r db \<longleftrightarrow>
     (case rd_supersedes r of
        None \<Rightarrow> True
      | Some k \<Rightarrow> k \<noteq> rd_id r
          \<and> (case get_row rd_id k (db_reviews db) of
               None \<Rightarrow> False
             | Some s \<Rightarrow> review_generation s = review_generation r)
          \<and> \<not> list_ex (\<lambda>x. rd_supersedes x = Some k) (db_reviews db))"

definition review_trigger :: "review_decision \<Rightarrow> 'a review_db_scheme \<Rightarrow> bool" where
  "review_trigger r db \<longleftrightarrow>
     (case (get_row sc_id (rd_source_configuration r) (db_sources db), get_row run_id (rd_parse_run r) (db_runs db)) of
        (Some source, Some run) \<Rightarrow>
          \<not> (sc_state source \<noteq> ACTIVE \<or> sc_rights_evidence_locator source = []
             \<or> sc_rights_evidence_sha256 source = [] \<or> sc_rights_confirmed_at source = None)
          \<and> list_ex (\<lambda>a. fa_source_configuration a = rd_source_configuration r
                \<and> fa_artifact a = Some (rd_source_artifact r) \<and> fa_state a = SUCCEEDED) (db_attempts db)
          \<and> run_artifact run = rd_source_artifact r
          \<and> review_trigger_chain r db
          \<and> (if rd_decision r = REJECT
             then \<not> (run_status run = RUN_STARTED \<or> run_completed_at run = None)
             else \<not> (run_status run \<noteq> RUN_VALIDATED \<or> run_completed_at run = None
                     \<or> run_result_hash run = [] \<or> run_quarantined_row_count run \<noteq> 0)
               \<and> \<not> (sc_publication_mode source \<noteq> RECENT_COMPARISON
                     \<or> rd_approved_mode r \<noteq> mode_value (sc_publication_mode source)
                     \<or> rd_approved_coverage_identity r \<noteq> sc_coverage_identity source
                     \<or> rd_approved_coverage_evidence_revision r \<noteq> sc_coverage_evidence_revision source)
               \<and> length (snapshots_of_run (rd_parse_run r) db) = run_accepted_row_count run
               \<and> list_all (facts_exact db) (snapshots_of_run (rd_parse_run r) db))
      | _ \<Rightarrow> False)"

section \<open>Saving\<close>

definition save_review ::
    "(user \<Rightarrow> bool) \<Rightarrow> bool \<Rightarrow> review_decision \<Rightarrow> 'a review_db_scheme \<Rightarrow> db_error + 'a review_db_scheme" where
  "save_review users adding r db =
     ebind (require adding (ValidationError ''Review decisions are append-only.'')) (\<lambda>_.
     ebind (require (review_fields r \<and> review_links users r db \<and> succeeds (review_clean adding r db)
              \<and> review_unique r (db_reviews db) \<and> review_constraints r) (FullClean ''ReviewDecision'')) (\<lambda>_.
     ebind (require (review_gate_time_trigger r db \<and> review_trigger r db) (IntegrityError ''ReviewDecision'')) (\<lambda>_.
     Inr (db\<lparr>db_reviews := db_reviews db @ [r]\<rparr>))))"

section \<open>Recording a decision\<close>

text \<open>The keyword arguments; a \<open>decision\<close> that is not a member of the choices is \<open>None\<close>.\<close>

record review_arguments =
  ra_decision :: "verdict option"
  ra_source_configuration :: uuid
  ra_source_artifact :: uuid
  ra_parse_run :: uuid
  ra_reconciliation_report_sha256 :: pystr
  ra_acceptance_evidence_sha256 :: pystr
  ra_reason_code :: pystr
  ra_approved_mode :: pystr
  ra_approved_coverage_identity :: pystr
  ra_approved_coverage_evidence_revision :: pystr
  ra_supersedes :: "uuid option"

definition review_candidate :: "uuid \<Rightarrow> user \<Rightarrow> instant \<Rightarrow> verdict \<Rightarrow> review_arguments \<Rightarrow> review_decision" where
  "review_candidate k reviewer now v a =
     \<lparr>rd_id = k, rd_decision = v, rd_reviewer = reviewer, rd_decided_at = now,
      rd_source_configuration = ra_source_configuration a, rd_source_artifact = ra_source_artifact a,
      rd_parse_run = ra_parse_run a,
      rd_reconciliation_report_sha256 = ra_reconciliation_report_sha256 a,
      rd_acceptance_evidence_sha256 = ra_acceptance_evidence_sha256 a, rd_reason_code = ra_reason_code a,
      rd_approved_mode = ra_approved_mode a,
      rd_approved_coverage_identity = ra_approved_coverage_identity a,
      rd_approved_coverage_evidence_revision = ra_approved_coverage_evidence_revision a,
      rd_supersedes = ra_supersedes a\<rparr>"

text \<open>Every semantic field of a stored decision is that of the arguments.\<close>

definition same_review :: "user \<Rightarrow> review_arguments \<Rightarrow> review_decision \<Rightarrow> bool" where
  "same_review reviewer a r \<longleftrightarrow>
     ra_decision a = Some (rd_decision r)
     \<and> r = review_candidate (rd_id r) reviewer (rd_decided_at r) (rd_decision r) a"

definition record_review_decision ::
    "(user \<Rightarrow> bool) \<Rightarrow> instant \<Rightarrow> uuid \<Rightarrow> actor \<Rightarrow> review_arguments \<Rightarrow> 'a review_db_scheme
      \<Rightarrow> db_error + (review_decision \<times> bool \<times> 'a review_db_scheme)" where
  "record_review_decision users now k actor a db =
     ebind (of_option (PermissionDenied ''An active reviewer with review_generation permission is required.'')
              (authorized ''grocery.review_generation'' actor)) (\<lambda>reviewer.
     (case get_row rd_id k (db_reviews db) of
        Some existing \<Rightarrow>
          ebind (require (same_review reviewer a existing)
                   (ValidationError ''Review decision UUID replay conflicts with stored evidence.'')) (\<lambda>_.
          Inr (existing, False, db))
      | None \<Rightarrow>
          ebind (of_option (DoesNotExist ''SourceConfiguration'')
                   (get_row sc_id (ra_source_configuration a) (db_sources db))) (\<lambda>_.
          ebind (of_option (DoesNotExist ''SourceArtifact'')
                   (get_row ar_id (ra_source_artifact a) (db_artifacts db))) (\<lambda>_.
          ebind (of_option (DoesNotExist ''ParseRun'')
                   (get_row run_id (ra_parse_run a) (db_runs db))) (\<lambda>_.
          ebind (of_option (FullClean ''ReviewDecision'') (ra_decision a)) (\<lambda>v.
          let r = review_candidate k reviewer now v a in
          ebind (save_review users True r db) (\<lambda>db'. Inr (r, True, db'))))))))"

end
