(* ===== verification/Generation_Contract.thy ===== *)
theory Generation_Contract
  imports Generation
begin

text \<open>
  The results a parse generation admits: the import of the module succeeds, and the validation of
  a result of the parser depends only on the number of accepted rows and the size of their prices.
\<close>

section \<open>The import of the module\<close>

lemma initial_registry_fields:
  assumes "INITIAL_RETAIL_IDENTITY_REGISTRY = Inr r"
  shows "reg_item_names r = ITEM_NAMES" "reg_variety_names r = VARIETY_NAMES"
    "reg_grade_names r = GRADE_NAMES" "reg_units r = UNITS"
    "reg_coverage_identity r = KAMIS_RETAIL_COVERAGE_IDENTITY"
    "sha256_text (ie_codebook_sha256 (reg_evidence r))"
    "sha256_text (ie_unit_contract_sha256 (reg_evidence r))"
    "ie_coverage_evidence_revision (reg_evidence r) = IDENTITY_EVIDENCE_REVISION"
  using assms
  by (auto simp: INITIAL_RETAIL_IDENTITY_REGISTRY_def build_identity_registry_from_reviewed_evidence_def
                 exact_identity_registry_init_def identity_contract_evidence_init_def exc_simps)

lemma names_clean:
  "list_all (\<lambda>((c, i), n). surrogate_free c \<and> surrogate_free i \<and> surrogate_free n) ITEM_NAMES"
  "list_all (\<lambda>((c, i, v), n). surrogate_free c \<and> surrogate_free i \<and> surrogate_free v \<and> surrogate_free n)
     VARIETY_NAMES"
  "list_all (\<lambda>((c, i, v, g), n). surrogate_free c \<and> surrogate_free i \<and> surrogate_free v
     \<and> surrogate_free g \<and> surrogate_free n) GRADE_NAMES"
  "list_all (\<lambda>((c, i, v, g), u, z). surrogate_free c \<and> surrogate_free i \<and> surrogate_free v
     \<and> surrogate_free g \<and> surrogate_free u \<and> surrogate_free z) UNITS"
  by (simp_all add: ITEM_NAMES_def VARIETY_NAMES_def GRADE_NAMES_def UNITS_def surrogate_def)

lemma configuration_clean:
  assumes "INITIAL_RETAIL_IDENTITY_REGISTRY = Inr r"
  shows "clean_json (parse_configuration_json r)"
proof -
  note f = initial_registry_fields [OF assms]
  show ?thesis
    using names_clean surrogate_free_sha256_text [OF f(6)] surrogate_free_sha256_text [OF f(7)]
    by (auto simp: parse_configuration_json_def f(1-5,8) list_all_iff KAMIS_PARSER_REVISION_def
          KAMIS_SOURCE_CONTRACT_REVISION_def KAMIS_RETAIL_COVERAGE_IDENTITY_def
          IDENTITY_EVIDENCE_REVISION_def split: prod.splits)
qed

lemma import_generation_Inr:
  "import_generation = Inr m \<longleftrightarrow>
     INITIAL_RETAIL_IDENTITY_REGISTRY = Inr (gm_registry m)
     \<and> parse_configuration_sha256 (gm_registry m) = Some (gm_configuration_sha256 m)"
  by (cases m) (auto simp: import_generation_def exc_simps)

lemma import_generation_succeeds: "\<exists>m. import_generation = Inr m"
proof -
  obtain r where r: "INITIAL_RETAIL_IDENTITY_REGISTRY = Inr r"
    using initial_registry_ten_observations by blast
  obtain h where "parse_configuration_sha256 r = Some h"
    using canonical_hash_Some [OF configuration_clean [OF r]]
    by (auto simp: parse_configuration_sha256_def)
  then have "import_generation = Inr \<lparr>gm_registry = r, gm_configuration_sha256 = h\<rparr>"
    by (simp add: import_generation_Inr r)
  then show ?thesis by blast
qed

lemma imported_configuration [simp]:
  "import_generation = Inr m \<Longrightarrow> validate_configuration_constant m = Inr ()"
  by (simp add: import_generation_Inr validate_configuration_constant_def)

lemma imported_configuration_hash:
  "import_generation = Inr m \<Longrightarrow> SHA256_PATTERN (gm_configuration_sha256 m)"
  by (auto simp: import_generation_Inr parse_configuration_sha256_def SHA256_PATTERN_def
      dest: canonical_hash_text)

section \<open>Rows of the parser\<close>

lemma generation_price_iff:
  "generation_price v \<longleftrightarrow> (\<exists>n. v = Fin False n 0 \<and> 0 < n \<and> n \<le> 999999999999)"
  by (cases v) (auto simp: generation_price_def MAX_SCALE_ZERO_PRICE_def signed_def)

text \<open>Whether all prices of a row are within the columns of the database.\<close>

definition storable_prices :: "parsed_retail_price_row \<Rightarrow> bool" where
  "storable_prices p \<longleftrightarrow> dec_le (prr_current_price p) MAX_SCALE_ZERO_PRICE
     \<and> list_all (\<lambda>r. case prf_value r of None \<Rightarrow> True | Some v \<Rightarrow> dec_le v MAX_SCALE_ZERO_PRICE)
         (prr_references p)"

lemma parsed_reference_validates:
  assumes "parsed_reference_ok r"
  shows "result_reference_ok r \<longleftrightarrow> (\<forall>v. prf_value r = Some v \<longrightarrow> dec_le v MAX_SCALE_ZERO_PRICE)"
  using assms
  by (cases "prf_value_status r"; cases "prf_value r")
     (auto simp: result_reference_ok_def parsed_reference_ok_def SOURCE_VALUE_MISSING_def
                 generation_price_def)

lemma validate_row_parsed:
  assumes "parsed_row_ok (gm_registry m) p"
  shows "validate_row m p = require (storable_prices p) (ParseGenerationError RESULT_CONTRACT_INVALID)"
proof -
  obtain n where n: "0 < n" "prr_current_price p = Fin False n 0"
    using assms by (auto simp: parsed_row_ok_def)
  have v: "validate_identity (gm_registry m) (prr_identity p) 0 = Inr ()"
    using assms by (simp add: parsed_row_ok_def accepted_observations_def)
  have "list_all result_reference_ok (prr_references p) \<longleftrightarrow>
      list_all (\<lambda>r. case prf_value r of None \<Rightarrow> True | Some v \<Rightarrow> dec_le v MAX_SCALE_ZERO_PRICE) (prr_references p)"
    using assms
    by (auto simp: list_all_iff parsed_row_ok_def parsed_reference_validates split: option.splits)
  moreover have "generation_price (prr_current_price p) \<longleftrightarrow> dec_le (prr_current_price p) MAX_SCALE_ZERO_PRICE"
    using n by (simp add: generation_price_def)
  ultimately show ?thesis
    using assms v by (simp add: validate_row_def storable_prices_def parsed_row_ok_def all_periods_def)
qed

lemma eall_require: "eall (\<lambda>x. require (P x) e) xs = require (list_all P xs) e"
  by (induction xs) (auto simp: require_def)

lemma eall_cong_set: "(\<And>x. x \<in> set xs \<Longrightarrow> f x = g x) \<Longrightarrow> eall f xs = eall g xs"
  by (induction xs) auto

section \<open>All ten series\<close>

definition key_of_series :: "exact_identity_registry \<Rightarrow> series_code_key \<Rightarrow> semantic_identity_key" where
  "key_of_series reg k = (case k of (c, i, v, g) \<Rightarrow> case the (map_of (reg_units reg) k) of (u, z) \<Rightarrow>
     (KAMIS_RETAIL_PRODUCT_CLASS_CODE, c, i, v, g, u, z, reg_coverage_identity reg))"

lemma semantic_key_accepted:
  assumes "parsed_row_ok reg p"
  shows "semantic_identity_key p = key_of_series reg (observed_series (prr_identity p))"
proof -
  have "validate_identity reg (prr_identity p) 0 = Inr ()"
    using assms by (simp add: parsed_row_ok_def accepted_observations_def)
  then show ?thesis
    by (simp add: exc_simps semantic_identity_key_def key_of_series_def observed_series_def Let_def)
qed

lemma expected_keys_of_series:
  assumes "distinct (map fst (reg_units reg))"
  shows "expected_identity_keys reg = sort (map (key_of_series reg) (map fst (reg_units reg)))"
proof -
  have eq: "(\<lambda>((c, i, v, g), u, z).
      (KAMIS_RETAIL_PRODUCT_CLASS_CODE, c, i, v, g, u, z, reg_coverage_identity reg)) x
      = key_of_series reg (fst x)" if x: "x \<in> set (reg_units reg)" for x
  proof -
    obtain c i v g u z where e: "x = ((c, i, v, g), u, z)" by (metis prod_cases4 surj_pair)
    have "map_of (reg_units reg) (c, i, v, g) = Some (u, z)"
      using x assms unfolding e by (intro map_of_is_SomeI) auto
    then show ?thesis by (simp add: e key_of_series_def)
  qed
  show ?thesis
    unfolding expected_identity_keys_def map_map comp_def using eq
    by (intro arg_cong [where f = sort] map_cong) auto
qed

lemma key_of_series_inj: "inj (key_of_series reg)"
  by (rule injI) (auto simp: key_of_series_def split: prod.splits)

lemma expected_keys_distinct:
  assumes "INITIAL_RETAIL_IDENTITY_REGISTRY = Inr reg"
  shows "distinct (expected_identity_keys reg)" and "length (expected_identity_keys reg) = 10"
proof -
  have units: "reg_units reg = UNITS" by (rule initial_registry_fields [OF assms])
  have du: "distinct (map fst UNITS)" and lu: "length UNITS = 10" by (simp_all add: UNITS_def)
  have E: "expected_identity_keys reg = sort (map (key_of_series reg) (map fst UNITS))"
    using expected_keys_of_series [of reg] du by (simp add: units)
  have "distinct (map (key_of_series reg) (map fst UNITS))"
    using du key_of_series_inj [of reg] by (subst distinct_map) (blast intro: inj_on_subset)
  then show "distinct (expected_identity_keys reg)" unfolding E by simp
  show "length (expected_identity_keys reg) = 10" unfolding E using lu by simp
qed

text \<open>Strictly ordered rows of the registry have all its keys exactly when there are ten of them.\<close>

lemma all_series_iff:
  assumes "INITIAL_RETAIL_IDENTITY_REGISTRY = Inr reg"
    and "sorted_wrt (<) (map semantic_identity_key rows)" and "list_all (parsed_row_ok reg) rows"
  shows "map semantic_identity_key rows = expected_identity_keys reg \<longleftrightarrow> length rows = 10"
proof -
  let ?K = "map semantic_identity_key rows" and ?E = "expected_identity_keys reg"
  have units: "reg_units reg = UNITS" by (rule initial_registry_fields [OF assms(1)])
  have du: "distinct (map fst UNITS)" by (simp add: UNITS_def)
  have E: "?E = sort (map (key_of_series reg) (map fst UNITS))"
    using expected_keys_of_series [of reg] du by (simp add: units)
  note dE = expected_keys_distinct(1) [OF assms(1)] and lE = expected_keys_distinct(2) [OF assms(1)]
  have dK: "distinct ?K" and sK: "sorted ?K"
    using assms(2) by (simp_all add: strict_sorted_iff)
  have sub: "set ?K \<subseteq> set ?E"
  proof -
    obtain r where r: "INITIAL_RETAIL_IDENTITY_REGISTRY = Inr r"
      "observed_series ` accepted_observations r = set (map fst UNITS)"
      using initial_registry_ten_observations by blast
    then have "observed_series (prr_identity p) \<in> set (map fst UNITS)" if "p \<in> set rows" for p
      using that assms(1,3) by (metis (no_types, lifting) Inr_inject imageI list_all_iff parsed_row_ok_def)
    then show ?thesis
      using assms(3) by (auto simp: E list_all_iff semantic_key_accepted simp del: map_map)
  qed
  show ?thesis
  proof
    assume "?K = ?E"
    then show "length rows = 10" using lE by (metis length_map)
  next
    assume "length rows = 10"
    then have "set ?K = set ?E"
      using sub dE lE distinct_card [OF dK] by (intro card_subset_eq) (simp_all add: distinct_card del: set_map)
    moreover have "sorted ?E" by (simp add: E)
    ultimately show "?K = ?E" using dK dE sK by (intro sorted_distinct_set_unique)
  qed
qed

lemma parsed_validated:
  assumes "import_generation = Inr m" and "iteration_orders ro oo"
    and "parse_recent_price_rows ro oo (gm_registry m) (Items raws) = Inr res"
  shows "validate_result m res =
    (if \<not> list_all storable_prices (res_rows res) then Inl (ParseGenerationError RESULT_CONTRACT_INVALID)
     else if length (res_rows res) \<noteq> 10 then Inl (ParseGenerationError RESULT_RECONCILIATION_FAILED)
     else Inr (missing_reference_count res))"
proof -
  note ok = parsed_result_ok [OF assms(2,3)]
  have reg: "INITIAL_RETAIL_IDENTITY_REGISTRY = Inr (gm_registry m)"
    using assms(1) by (simp add: import_generation_Inr)
  have h: "canonical_hash (result_json (res_rows res) (res_out_of_scope_row_hashes res)) = Some (res_result_hash res)"
    and n: "res_out_of_scope_row_count res = length (res_out_of_scope_row_hashes res)"
    using assms(3) by (auto simp: parse_recent_price_rows_iff [OF assms(2)])
  have rows: "eall (validate_row m) (res_rows res)
      = require (list_all storable_prices (res_rows res)) (ParseGenerationError RESULT_CONTRACT_INVALID)"
    using ok(4)
    by (subst eall_cong_set [of _ _ "\<lambda>p. require (storable_prices p) (ParseGenerationError RESULT_CONTRACT_INVALID)"])
       (auto simp: list_all_iff validate_row_parsed eall_require)
  show ?thesis
    using ok(1,5) h n rows all_series_iff [OF reg ok(3,4)]
    by (simp add: validate_result_def require_def sorted_sort_id)
qed

text \<open>
  C25: a generation accepts a result of the parser exactly when the parse accepted all ten
  reviewed series and every price fits its column. A price beyond twelve digits is a contract
  violation, which is looked at first; fewer rows are a reconciliation failure.
\<close>

theorem parsed_result_is_validated:
  assumes "import_generation = Inr m" and "iteration_orders ro oo"
    and "parse_recent_price_rows ro oo (gm_registry m) (Items raws) = Inr res"
  shows "validate_result m res =
    (if \<not> list_all storable_prices (res_rows res) then Inl (ParseGenerationError RESULT_CONTRACT_INVALID)
     else if length (res_rows res) \<noteq> 10 then Inl (ParseGenerationError RESULT_RECONCILIATION_FAILED)
     else Inr (missing_reference_count res))"
  by (rule parsed_validated [OF assms])

end
