(* ===== verification/System_Runs.thy ===== *)
theory System_Runs
  imports Prelude "HOL-Library.Sublist"
begin

text \<open>
  Two contracts every layer of the program offers. A \<open>growing_system\<close> is a step relation with an
  invariant under which states only grow, in a sense the layer chooses (facts are kept, rows are
  only appended); a \<open>replayed_operation\<close> is an operation of such a system that answers a repeated
  request from what it stored, at any later time, and then writes nothing.
\<close>

section \<open>Growing systems\<close>

locale growing_system =
  fixes inv :: "'s \<Rightarrow> bool"
    and step :: "'s \<Rightarrow> 's \<Rightarrow> bool"
    and grows :: "'s \<Rightarrow> 's \<Rightarrow> bool"
  assumes step_inv: "inv s \<Longrightarrow> step s s' \<Longrightarrow> inv s'"
    and step_grows: "inv s \<Longrightarrow> step s s' \<Longrightarrow> grows s s'"
    and grows_refl: "inv s \<Longrightarrow> grows s s"
    and grows_trans: "grows a b \<Longrightarrow> grows b c \<Longrightarrow> grows a c"
begin

lemma steps:
  assumes "step\<^sup>*\<^sup>* s s'" and "inv s"
  shows "inv s' \<and> grows s s'"
  using assms(1)
proof (induction rule: rtranclp_induct)
  case (step y z)
  then show ?case using step_inv [of y z] step_grows [of y z] grows_trans [of s y z] by blast
qed (simp add: assms(2) grows_refl)

lemma steps_inv: "step\<^sup>*\<^sup>* s s' \<Longrightarrow> inv s \<Longrightarrow> inv s'"
  using steps by blast

lemma steps_grow: "step\<^sup>*\<^sup>* s s' \<Longrightarrow> inv s \<Longrightarrow> grows s s'"
  using steps by blast

end

locale started_system = growing_system +
  fixes start :: 's
  assumes start_inv: "inv start"
begin

lemma reachable_inv: "step\<^sup>*\<^sup>* start s \<Longrightarrow> inv s"
  using steps_inv start_inv by blast

lemma reachable_grow: "step\<^sup>*\<^sup>* start s \<Longrightarrow> step\<^sup>*\<^sup>* s s' \<Longrightarrow> grows s s'"
  using steps_grow reachable_inv by blast

end

section \<open>Replayed operations\<close>

text \<open>
  \<open>run e q s\<close> runs request \<open>q\<close> with the identifiers and times \<open>e\<close> it draws, \<open>again r\<close> is the
  answer of a replay of an operation that answered \<open>r\<close>, \<open>admits q s\<close> what has to hold for a
  request to be looked at, and \<open>stored q r s\<close> what a state holds about an answered request.
\<close>

locale replayed_operation = growing_system inv step grows
  for inv :: "'s \<Rightarrow> bool" and step :: "'s \<Rightarrow> 's \<Rightarrow> bool" and grows :: "'s \<Rightarrow> 's \<Rightarrow> bool" +
  fixes run :: "'e \<Rightarrow> 'q \<Rightarrow> 's \<Rightarrow> 'x + ('r \<times> 's)"
    and again :: "'r \<Rightarrow> 'r"
    and admits :: "'q \<Rightarrow> 's \<Rightarrow> bool"
    and stored :: "'q \<Rightarrow> 'r \<Rightarrow> 's \<Rightarrow> bool"
  assumes run_inv: "inv s \<Longrightarrow> run e q s = Inr (r, s') \<Longrightarrow> inv s'"
    and run_stores: "inv s \<Longrightarrow> run e q s = Inr (r, s') \<Longrightarrow> stored q r s'"
    and stored_grows: "inv s \<Longrightarrow> inv s' \<Longrightarrow> grows s s' \<Longrightarrow> stored q r s \<Longrightarrow> stored q r s'"
    and stored_replays: "inv s \<Longrightarrow> stored q r s \<Longrightarrow> admits q s \<Longrightarrow> run e q s = Inr (again r, s)"
begin

lemma replays:
  assumes "inv s" and "run e q s = Inr (r, s')" and "step\<^sup>*\<^sup>* s' s''" and "admits q s''"
  shows "run e' q s'' = Inr (again r, s'')"
proof -
  have inv': "inv s'" by (rule run_inv [OF assms(1,2)])
  note later = steps [OF assms(3) inv']
  then have "stored q r s''" using stored_grows inv' run_stores [OF assms(1,2)] by blast
  then show ?thesis using stored_replays later assms(4) by blast
qed

text \<open>A request that is answered twice is answered alike.\<close>

lemma answers_agree:
  assumes "inv s" and "run e q s = Inr (r, s')" and "step\<^sup>*\<^sup>* s' s''" and "admits q s''"
    and "run e' q s'' = Inr (r', t)"
  shows "r' = again r \<and> t = s''"
  using replays [OF assms(1-4), of e'] assms(5) by simp

end

end
