(* ===== verification/Fetch_Evidence.thy ===== *)
theory Fetch_Evidence
  imports Fetch_Persistence System_Runs
begin

text \<open>
  The evidence a database holds about its fetches: what the three transactions of
  \<open>grocery/source/persistence.py\<close> and the saves of a configuration keep true in every state
  they can reach. Each operation has one lemma that says which tables a success writes; the
  invariant is then carried along the step relation \<open>fetch_step\<close>, a \<open>started_system\<close>.
\<close>

section \<open>What a success writes\<close>

lemma get_attempt_Inr:
  "get_attempt k db = Inr (a, s) \<longleftrightarrow> get_row fa_id k (db_attempts db) = Some a
     \<and> get_row sc_id (fa_source_configuration a) (db_sources db) = Some s"
  by (auto simp: get_attempt_def ebind_eq_Inr of_option_eq_Inr)

lemma save_attempt_Inr:
  assumes "save_attempt adding a db = Inr db'"
  shows "db' = db\<lparr>db_attempts := upsert_row fa_id a (db_attempts db)\<rparr>
    \<and> fetch_attempt_constraints a \<and> fa_source_configuration a \<in> sc_id ` set (db_sources db)
    \<and> succeeds (attempt_clean a db) \<and> (adding \<longrightarrow> fa_id a \<notin> fa_id ` set (db_attempts db))"
  using assms by (auto simp: save_attempt_def attempt_unique_def require_eq_Inr elim!: ebind_InrE)

lemma bulk_create_receipts_Inr:
  "bulk_create_receipts rs db = Inr db' \<Longrightarrow>
     db' = db\<lparr>db_receipts := db_receipts db @ rs\<rparr>
     \<and> (\<forall>r \<in> set rs. rc_fetch_attempt r \<in> fa_id ` set (db_attempts db))"
proof (induction rs arbitrary: db)
  case (Cons r rs)
  then have "bulk_create_receipts rs (db\<lparr>db_receipts := db_receipts db @ [r]\<rparr>) = Inr db'"
    and r: "rc_fetch_attempt r \<in> fa_id ` set (db_attempts db)"
    by (auto simp: require_eq_Inr elim!: ebind_InrE)
  from Cons.IH [OF this(1)] show ?case using r by simp
qed simp

lemma get_or_create_artifact_Inr:
  assumes "get_or_create_artifact c db = Inr (artifact, created, db')"
    and "distinct (map ar_id (db_artifacts db))"
  shows "ar_source_identity artifact = ar_source_identity c
    \<and> ar_ordered_manifest_sha256 artifact = ar_ordered_manifest_sha256 c
    \<and> get_row ar_id (ar_id artifact) (db_artifacts db') = Some artifact
    \<and> (created \<longleftrightarrow> db' \<noteq> db)
    \<and> (db' = db \<or> ar_id artifact \<notin> ar_id ` set (db_artifacts db)
                 \<and> db' = db\<lparr>db_artifacts := db_artifacts db @ [artifact]\<rparr>)"
proof (cases "find (\<lambda>x. ar_source_identity x = ar_source_identity c
    \<and> ar_ordered_manifest_sha256 x = ar_ordered_manifest_sha256 c) (db_artifacts db)")
  case None
  then have "save_artifact True c db = Inr db'" "artifact = c" "created"
    using assms by (auto simp: get_or_create_artifact_def elim!: ebind_InrE)
  then have "artifact = c" "created" "ar_id c \<notin> ar_id ` set (db_artifacts db)"
    "db' = db\<lparr>db_artifacts := db_artifacts db @ [c]\<rparr>"
    by (auto simp: save_artifact_def require_eq_Inr elim!: ebind_InrE)
  moreover have "db\<lparr>db_artifacts := db_artifacts db @ [c]\<rparr> \<noteq> db"
    by (metis fetch_db.select_convs(3) fetch_db.surjective fetch_db.update_convs(3) not_Cons_self2 self_append_conv)
  moreover have "get_row ar_id (ar_id c) (db_artifacts db) = None"
    using calculation(3) by (simp add: get_row_None)
  ultimately show ?thesis by (simp add: get_row_append)
next
  case (Some x)
  then have "artifact = x" "db' = db" "\<not> created"
    using assms(1) by (auto simp: get_or_create_artifact_def)
  then show ?thesis
    using find_Some_member [OF Some] get_row_member [OF assms(2)] by auto
qed

definition receipts_in_order :: "uuid \<Rightarrow> 'a fetch_db_scheme \<Rightarrow> stored_receipt list" where
  "receipts_in_order k db = sort_key rc_request_ordinal (receipts_of k db)"

text \<open>An artifact that reconciles with the receipts of a succeeded attempt.\<close>

definition artifact_matches ::
    "source_artifact \<Rightarrow> source_configuration \<Rightarrow> fetch_attempt \<Rightarrow> stored_receipt list \<Rightarrow> bool" where
  "artifact_matches artifact source a receipts \<longleftrightarrow>
     ar_source_identity artifact = fa_artifact_source_identity source a
     \<and> ar_ordered_manifest_sha256 artifact = ordered_page_manifest_sha256 receipts
     \<and> ar_page_count artifact = length receipts
     \<and> ar_total_bytes artifact = sum_list (map rc_body_byte_length receipts)
     \<and> ar_media_type artifact = MEDIA_JSON"

lemma build_source_artifact_Inr:
  assumes "build_source_artifact ids k db = Inr (artifact, created, db')"
    and "get_attempt k db = Inr (a, source)" and "fa_artifact a = None"
    and "distinct (map ar_id (db_artifacts db))"
  shows "\<exists>n as. reconciled_total a (receipts_in_order k db) = Inr n
    \<and> fa_state a = SUCCEEDED
    \<and> artifact_matches artifact source a (receipts_in_order k db)
    \<and> get_row ar_id (ar_id artifact) as = Some artifact
    \<and> (as = db_artifacts db \<or> ar_id artifact \<notin> ar_id ` set (db_artifacts db) \<and> as = db_artifacts db @ [artifact])
    \<and> fetch_attempt_constraints (a\<lparr>fa_artifact := Some (ar_id artifact)\<rparr>)
    \<and> db' = db\<lparr>db_artifacts := as,
                db_attempts := upsert_row fa_id (a\<lparr>fa_artifact := Some (ar_id artifact)\<rparr>) (db_attempts db)\<rparr>"
proof -
  have k: "fa_id a = k"
    using assms(2) get_row_Some by (fastforce simp: get_attempt_Inr)
  let ?c = "\<lambda>completed. \<lparr>ar_id = ids 0, ar_source_identity = fa_artifact_source_identity source a,
        ar_ordered_manifest_sha256 = ordered_page_manifest_sha256 (receipts_in_order k db),
        ar_page_count = length (receipts_in_order k db),
        ar_total_bytes = sum_list (map rc_body_byte_length (receipts_in_order k db)),
        ar_media_type = MEDIA_JSON, ar_encoding = UTF_8, ar_retention_mode = HASH_ONLY,
        ar_first_seen_at = completed\<rparr>"
  obtain n completed db1 where s: "fa_state a = SUCCEEDED"
    and n: "reconciled_total a (receipts_in_order k db) = Inr n"
    and g: "get_or_create_artifact (?c completed) db = Inr (artifact, created, db1)"
    and f: "same_artifact_fields artifact (?c completed)"
    and sv: "save_attempt False (a\<lparr>fa_artifact := Some (ar_id artifact)\<rparr>) db1 = Inr db'"
    using assms(1) unfolding build_source_artifact_def assms(2) Let_def ebind_Inr prod.case
    by (auto simp: k assms(3) require_eq_Inr receipts_in_order_def elim!: ebind_InrE split: prod.split_asm)
  note c = get_or_create_artifact_Inr [OF g assms(4)]
  note w = save_attempt_Inr [OF sv]
  show ?thesis
    using n s c w f
    by (intro exI [of _ n] exI [of _ "db_artifacts db1"])
      (auto simp: artifact_matches_def same_artifact_fields_def)
qed

section \<open>The invariant\<close>

definition attempt_evidence :: "'a fetch_db_scheme \<Rightarrow> fetch_attempt \<Rightarrow> bool" where
  "attempt_evidence db a \<longleftrightarrow>
     fetch_attempt_constraints a
     \<and> (let rs = receipts_in_order (fa_id a) db in
        case fa_state a of
          STARTED \<Rightarrow> rs = [] \<and> fa_artifact a = None
        | SUCCEEDED \<Rightarrow> (\<exists>source artifact n.
            get_row sc_id (fa_source_configuration a) (db_sources db) = Some source
            \<and> fa_artifact a = Some (ar_id artifact)
            \<and> get_row ar_id (ar_id artifact) (db_artifacts db) = Some artifact
            \<and> artifact_matches artifact source a rs \<and> reconciled_total a rs = Inr n)
        | _ \<Rightarrow> fa_artifact a = None \<and> fa_received_page_count a = length rs
            \<and> fa_received_row_count a = sum_list (map rc_received_row_count rs)
            \<and> fa_received_byte_count a = sum_list (map rc_body_byte_length rs))"

definition fetch_inv :: "'a fetch_db_scheme \<Rightarrow> bool" where
  "fetch_inv db \<longleftrightarrow>
     distinct (map ar_id (db_artifacts db)) \<and> distinct (map fa_id (db_attempts db))
     \<and> (\<forall>r \<in> set (db_receipts db). rc_fetch_attempt r \<in> fa_id ` set (db_attempts db))
     \<and> (\<forall>a \<in> set (db_attempts db). attempt_evidence db a)"

text \<open>The evidence of an attempt depends on its receipts, its source and its artifact only.\<close>

lemma attempt_evidence_frame:
  assumes "attempt_evidence db a"
    and "receipts_of (fa_id a) db' = receipts_of (fa_id a) db"
    and "\<And>k row. get_row ar_id k (db_artifacts db) = Some row \<Longrightarrow> get_row ar_id k (db_artifacts db') = Some row"
    and "\<And>row. get_row sc_id (fa_source_configuration a) (db_sources db) = Some row
           \<Longrightarrow> get_row sc_id (fa_source_configuration a) (db_sources db') = Some row"
  shows "attempt_evidence db' a"
  using assms unfolding attempt_evidence_def receipts_in_order_def Let_def
  by (fastforce split: attempt_state.splits)

text \<open>One attempt is rewritten, with receipts of its own only; artifacts are only added.\<close>

lemma fetch_inv_update:
  assumes inv: "fetch_inv db" and key: "fa_id a' \<in> fa_id ` set (db_attempts db)"
    and own: "\<forall>r \<in> set rs. rc_fetch_attempt r = fa_id a'"
    and arts: "as = db_artifacts db \<or> ar_id new \<notin> ar_id ` set (db_artifacts db) \<and> as = db_artifacts db @ [new]"
    and db': "db' = db\<lparr>db_receipts := db_receipts db @ rs, db_artifacts := as,
                       db_attempts := upsert_row fa_id a' (db_attempts db)\<rparr>"
    and ev: "attempt_evidence db' a'"
  shows "fetch_inv db'"
proof -
  have keep: "get_row ar_id k as = Some row" if "get_row ar_id k (db_artifacts db) = Some row" for k row
    using that arts by (auto simp: get_row_append)
  have "attempt_evidence db' a" if a: "a \<in> set (db_attempts db')" for a
  proof (cases "a = a'")
    case False
    then have "a \<in> set (db_attempts db)" "fa_id a \<noteq> fa_id a'"
      using a upsert_row_set [of a fa_id a'] by (auto simp: db')
    then have "attempt_evidence db a" and "receipts_of (fa_id a) db' = receipts_of (fa_id a) db"
      using inv own by (auto simp: fetch_inv_def receipts_of_def db' filter_empty_conv)
    then show ?thesis
      using keep by (intro attempt_evidence_frame [of db a db']) (auto simp: db')
  qed (use ev in simp)
  then show ?thesis
    using inv key own arts by (auto simp: fetch_inv_def db')
qed

lemma fetch_invD:
  assumes "fetch_inv db" and "get_row fa_id k (db_attempts db) = Some a"
  shows "attempt_evidence db a" and "fa_id a = k" and "k \<in> fa_id ` set (db_attempts db)"
  using assms get_row_Some [OF assms(2)] by (auto simp: fetch_inv_def)

section \<open>Every operation preserves it\<close>

lemma reconciled_total_artifact [simp]: "reconciled_total (a\<lparr>fa_artifact := x\<rparr>) rs = reconciled_total a rs"
  by (simp add: reconciled_total_def cong: list.case_cong option.case_cong)

lemma identity_artifact [simp]:
  "fa_artifact_source_identity s (a\<lparr>fa_artifact := x\<rparr>) = fa_artifact_source_identity s a"
  by (simp add: fa_artifact_source_identity_def)

lemma artifact_matches_artifact [simp]:
  "artifact_matches artifact s (a\<lparr>fa_artifact := x\<rparr>) rs = artifact_matches artifact s a rs"
  by (simp add: artifact_matches_def)

lemma receipt_candidates_Inr:
  "receipt_candidates ids now a result = Inr rs \<Longrightarrow>
     rs = map (page_receipt_candidate ids now a) (fr_page_receipts result)"
  by (auto simp: receipt_candidates_def Let_def emap_eq_Inr require_eq_Inr list_all2_conv_all_nth
      elim!: ebind_InrE intro!: nth_equalityI)
    (fastforce simp: require_eq_Inr elim!: ebind_InrE)

lemma candidate_attempt [simp]: "rc_fetch_attempt (page_receipt_candidate ids now a r) = fa_id a"
  by (simp add: page_receipt_candidate_def)

lemma complete_started_inv:
  assumes inv: "fetch_inv db" and got: "get_attempt k db = Inr (a, source)" and st: "fa_state a = STARTED"
    and run: "complete_started ids now source a result db = Inr (c, db')"
  shows "fetch_inv db'
    \<and> (\<exists>rs as a'. fa_id a' = fa_id a
        \<and> db' = db\<lparr>db_receipts := db_receipts db @ rs, db_artifacts := as,
                   db_attempts := upsert_row fa_id a' (db_attempts db)\<rparr>
        \<and> (as = db_artifacts db \<or> as = db_artifacts db @ [cf_artifact c])
        \<and> (\<forall>r \<in> set rs. rc_fetch_attempt r = fa_id a))"
proof -
  have row: "get_row fa_id k (db_attempts db) = Some a"
    and src: "get_row sc_id (fa_source_configuration a) (db_sources db) = Some source"
    using got by (auto simp: get_attempt_Inr)
  note ev = fetch_invD [OF inv row]
  have none: "fa_artifact a = None"
    using ev(1) st by (simp add: attempt_evidence_def)
  let ?a1 = "\<lambda>rs. a\<lparr>fa_state := SUCCEEDED, fa_completed_at := Some now, fa_received_page_count := length rs,
     fa_received_row_count := length (fr_rows result),
     fa_received_byte_count := sum_list (map rc_body_byte_length rs)\<rparr>"
  obtain rs db1 db2 artifact created where rs: "receipt_candidates ids now a result = Inr rs"
    and bulk: "bulk_create_receipts rs db = Inr db1"
    and save: "save_attempt False (?a1 rs) db1 = Inr db2"
    and build: "build_source_artifact ids (fa_id a) db2 = Inr (artifact, created, db')"
    and c: "cf_artifact c = artifact"
    using run unfolding complete_started_def
    by (auto simp: require_eq_Inr elim!: ebind_InrE split: prod.split_asm)
  have own: "\<forall>r \<in> set rs. rc_fetch_attempt r = fa_id a"
    using receipt_candidates_Inr [OF rs] by auto
  have db2: "db2 = db\<lparr>db_receipts := db_receipts db @ rs, db_attempts := upsert_row fa_id (?a1 rs) (db_attempts db)\<rparr>"
    using bulk_create_receipts_Inr [OF bulk] save_attempt_Inr [OF save] by simp
  have got2: "get_attempt (fa_id a) db2 = Inr (?a1 rs, source)"
    using src by (simp add: get_attempt_Inr db2 get_row_upsert)
  have "fa_artifact (?a1 rs) = None" "distinct (map ar_id (db_artifacts db2))"
    using none inv by (auto simp: fetch_inv_def db2)
  from build_source_artifact_Inr [OF build got2 this]
  obtain n as where n: "reconciled_total (?a1 rs) (receipts_in_order (fa_id a) db2) = Inr n"
    and m: "artifact_matches artifact source (?a1 rs) (receipts_in_order (fa_id a) db2)"
    and g: "get_row ar_id (ar_id artifact) as = Some artifact"
    and arts: "as = db_artifacts db \<or> ar_id artifact \<notin> ar_id ` set (db_artifacts db) \<and> as = db_artifacts db @ [artifact]"
    and fc: "fetch_attempt_constraints ((?a1 rs)\<lparr>fa_artifact := Some (ar_id artifact)\<rparr>)"
    and db': "db' = db2\<lparr>db_artifacts := as,
        db_attempts := upsert_row fa_id ((?a1 rs)\<lparr>fa_artifact := Some (ar_id artifact)\<rparr>) (db_attempts db2)\<rparr>"
    by (auto simp: db2)
  let ?a2 = "(?a1 rs)\<lparr>fa_artifact := Some (ar_id artifact)\<rparr>"
  have db'': "db' = db\<lparr>db_receipts := db_receipts db @ rs, db_artifacts := as,
      db_attempts := upsert_row fa_id ?a2 (db_attempts db)\<rparr>"
    by (simp add: db' db2)
  have same: "receipts_in_order (fa_id a) db' = receipts_in_order (fa_id a) db2"
    by (simp add: db'' db2 receipts_in_order_def receipts_of_def)
  have "attempt_evidence db' ?a2"
    using fc src n m g same unfolding attempt_evidence_def Let_def
    by (auto simp: db'' [THEN arg_cong [of _ _ db_sources]] db'' [THEN arg_cong [of _ _ db_artifacts]])
  then have "fetch_inv db'"
    using fetch_inv_update [OF inv _ _ arts db''] ev own by simp
  then show ?thesis
    using db'' arts own c by (intro conjI exI [of _ rs] exI [of _ as] exI [of _ ?a2]) auto
qed

lemma fail_kamis_fetch_inv:
  assumes inv: "fetch_inv db" and run: "fail_kamis_fetch ids now k e db = Inr (a', db')"
  shows "fetch_inv db'
    \<and> (\<exists>a rs. get_row fa_id k (db_attempts db) = Some a \<and> fa_state a = STARTED \<and> fa_id a' = k
        \<and> db' = db\<lparr>db_receipts := db_receipts db @ rs, db_attempts := upsert_row fa_id a' (db_attempts db)\<rparr>
        \<and> (\<forall>r \<in> set rs. rc_fetch_attempt r = k))"
proof -
  let ?a1 = "\<lambda>a rs. a\<lparr>fa_state := fst (classify_transport_failure e), fa_completed_at := Some now,
           fa_failure_class := Some (snd (classify_transport_failure e)),
           fa_failure_code := (if te_code e \<in> set KNOWN_TRANSPORT_CODES then upper_text (te_code e)
                               else lit ''UNCLASSIFIED_TRANSPORT_ERROR''),
           fa_received_page_count := length rs,
           fa_received_row_count := sum_list (map rc_received_row_count rs),
           fa_received_byte_count := sum_list (map rc_body_byte_length rs)\<rparr>"
  obtain a source rs db1 where got: "get_attempt k db = Inr (a, source)" and st: "fa_state a = STARTED"
    and nil: "receipts_of (fa_id a) db = []"
    and rs: "partial_receipt_candidates ids now source a e = Inr rs"
    and bulk: "bulk_create_receipts rs db = Inr db1"
    and save: "save_attempt False (?a1 a rs) db1 = Inr db'" and a': "a' = ?a1 a rs"
    using run unfolding fail_kamis_fetch_def
    by (auto simp: require_eq_Inr case_prod_beta Let_def elim!: ebind_InrE)
  have row: "get_row fa_id k (db_attempts db) = Some a"
    using got by (auto simp: get_attempt_Inr)
  note ev = fetch_invD [OF inv row]
  have own: "\<forall>r \<in> set rs. rc_fetch_attempt r = fa_id a"
    using rs by (auto simp: partial_receipt_candidates_def Let_def elim!: ebind_InrE split: if_split_asm)
  have db': "db' = db\<lparr>db_receipts := db_receipts db @ rs, db_artifacts := db_artifacts db,
      db_attempts := upsert_row fa_id a' (db_attempts db)\<rparr>"
    using bulk_create_receipts_Inr [OF bulk] save_attempt_Inr [OF save] a' by simp
  have sorted_rs: "receipts_in_order (fa_id a) db' = sort_key rc_request_ordinal rs"
    using nil own by (simp add: receipts_in_order_def receipts_of_def db' filter_id_conv)
  have sums: "length (sort_key rc_request_ordinal rs) = length rs"
    "sum_list (map f (sort_key rc_request_ordinal rs)) = sum_list (map f rs)" for f :: "_ \<Rightarrow> nat"
    by (simp_all add: sum_mset_sum_list [symmetric] del: sum_mset_sum_list)
  have "fst (classify_transport_failure e) \<in> {RETRYABLE_FAILED, TERMINAL_FAILED}"
    by (simp add: classify_transport_failure_def)
  moreover have "fa_artifact a = None"
    using ev(1) st by (simp add: attempt_evidence_def)
  ultimately have "attempt_evidence db' a'"
    using save_attempt_Inr [OF save] sorted_rs sums
    by (auto simp: attempt_evidence_def a' Let_def)
  then have "fetch_inv db'"
    using fetch_inv_update [OF inv _ _ _ db'] ev own a' by simp
  then show ?thesis
    using db' own a' row st ev by (intro conjI exI [of _ a] exI [of _ rs]) auto
qed

lemma save_attempt_new_inv:
  assumes inv: "fetch_inv db" and save: "save_attempt True a db = Inr db'" and st: "fa_state a = STARTED"
    and none: "fa_artifact a = None"
  shows "fetch_inv db' \<and> db' = db\<lparr>db_attempts := db_attempts db @ [a]\<rparr>"
proof -
  note s = save_attempt_Inr [OF save]
  then have db': "db' = db\<lparr>db_attempts := db_attempts db @ [a]\<rparr>" and new: "fa_id a \<notin> fa_id ` set (db_attempts db)"
    by (auto simp: upsert_row_def)
  have "\<forall>r \<in> set (db_receipts db). rc_fetch_attempt r \<noteq> fa_id a"
    using inv new unfolding fetch_inv_def by metis
  then have "receipts_of (fa_id a) db' = []"
    by (simp add: receipts_of_def db' filter_empty_conv)
  then have "attempt_evidence db' a"
    using s st none by (simp add: attempt_evidence_def receipts_in_order_def Let_def)
  moreover have "attempt_evidence db' x" if "x \<in> set (db_attempts db)" for x
    using inv that by (intro attempt_evidence_frame [of db x db']) (auto simp: fetch_inv_def receipts_of_def db')
  ultimately show ?thesis
    using inv new by (auto simp: fetch_inv_def db')
qed

lemma start_kamis_fetch_inv:
  assumes "fetch_inv db" and "start_kamis_fetch ids now s run n db = Inr (a, db')"
  shows "fetch_inv db' \<and> db' = db\<lparr>db_attempts := db_attempts db @ [a]\<rparr> \<and> fa_state a = STARTED"
proof -
  have "save_attempt True a db = Inr db'" "fa_state a = STARTED" "fa_artifact a = None"
    using assms(2) by (auto simp: start_kamis_fetch_def Let_def elim!: ebind_InrE)
  then show ?thesis using save_attempt_new_inv [OF assms(1)] by blast
qed

lemma save_source_configuration_inv:
  assumes inv: "fetch_inv db" and save: "save_source_configuration url_ok adding s db = Inr db'"
  shows "fetch_inv db'"
proof -
  obtain rows where db': "db' = db\<lparr>db_sources := rows\<rparr>"
    using save_source_configuration_Inr [OF save] by auto
  have "attempt_evidence db' a" if a: "a \<in> set (db_attempts db)" for a
  proof (rule attempt_evidence_frame [of db a db'])
    fix row
    have "source_in_use (fa_source_configuration a) db"
      using a by (auto simp: source_in_use_def list_ex_iff)
    then show "get_row sc_id (fa_source_configuration a) (db_sources db) = Some row
        \<Longrightarrow> get_row sc_id (fa_source_configuration a) (db_sources db') = Some row"
      using save_keeps_used_row [OF save] by blast
  qed (use inv a in \<open>auto simp: fetch_inv_def receipts_of_def db'\<close>)
  then show ?thesis using inv by (simp add: fetch_inv_def db')
qed

lemma complete_kamis_fetch_inv:
  assumes "fetch_inv db" and "complete_kamis_fetch ids now k result db = Inr (c, db')"
  shows "fetch_inv db'
    \<and> (db' = db \<or> (\<exists>a rs as a'. get_row fa_id k (db_attempts db) = Some a \<and> fa_state a = STARTED \<and> fa_id a' = k
        \<and> db' = db\<lparr>db_receipts := db_receipts db @ rs, db_artifacts := as,
                   db_attempts := upsert_row fa_id a' (db_attempts db)\<rparr>
        \<and> (as = db_artifacts db \<or> as = db_artifacts db @ [cf_artifact c])
        \<and> (\<forall>r \<in> set rs. rc_fetch_attempt r = k)))"
proof -
  obtain a source where got: "get_attempt k db = Inr (a, source)"
    and run: "if fa_state a = SUCCEEDED then db' = db
      else fa_state a = STARTED \<and> complete_started ids now source a result db = Inr (c, db')"
    using assms(2) unfolding complete_kamis_fetch_def
    by (auto simp: require_eq_Inr elim!: ebind_InrE split: if_split_asm prod.split_asm)
  have row: "get_row fa_id k (db_attempts db) = Some a"
    using got by (auto simp: get_attempt_Inr)
  note k = fetch_invD(2) [OF assms(1) row]
  show ?thesis
  proof (cases "fa_state a = SUCCEEDED")
    case False
    then have st: "fa_state a = STARTED" and run': "complete_started ids now source a result db = Inr (c, db')"
      using run by auto
    show ?thesis
      using complete_started_inv [OF assms(1) got st run'] row st k by metis
  qed (use run assms(1) in simp)
qed

section \<open>Runs\<close>

inductive fetch_step :: "fetch_db \<Rightarrow> fetch_db \<Rightarrow> bool" where
  configure: "save_source_configuration url_ok adding s db = Inr db' \<Longrightarrow> fetch_step db db'"
| correct: "save_correction adding c db = Inr db' \<Longrightarrow> fetch_step db db'"
| bootstrap: "bootstrap_kamis_source_configuration url_ok now db = Inr (s, db') \<Longrightarrow> fetch_step db db'"
| start: "start_kamis_fetch ids now source run n db = Inr (a, db') \<Longrightarrow> fetch_step db db'"
| complete: "complete_kamis_fetch ids now k result db = Inr (c, db') \<Longrightarrow> fetch_step db db'"
| fail: "fail_kamis_fetch ids now k e db = Inr (a, db') \<Longrightarrow> fetch_step db db'"

inductive_cases fetch_stepE: "fetch_step db db'"

definition fetch_reachable :: "fetch_db \<Rightarrow> bool" where
  "fetch_reachable db \<longleftrightarrow> fetch_step\<^sup>*\<^sup>* empty_db db"

lemma save_correction_Inr:
  "save_correction adding c db = Inr db' \<Longrightarrow> \<exists>rows. db' = db\<lparr>db_corrections := rows\<rparr>"
  by (auto simp: save_correction_def elim!: ebind_InrE)

lemma bootstrap_saves:
  assumes "bootstrap_kamis_source_configuration url_ok now db = Inr (s, db')"
  shows "db' = db \<or> (\<exists>e. save_source_configuration url_ok True e db = Inr db')"
  using assms
  by (auto simp: bootstrap_kamis_source_configuration_def in_database_def get_or_create_source_def Let_def
        elim!: ebind_InrE split: sum.split_asm prod.split_asm option.split_asm)

lemma correction_inv:
  assumes "fetch_inv db" and "save_correction adding c db = Inr db'"
  shows "fetch_inv db'"
proof -
  obtain rows where db': "db' = db\<lparr>db_corrections := rows\<rparr>"
    using save_correction_Inr [OF assms(2)] by blast
  have "attempt_evidence db' a" if "a \<in> set (db_attempts db)" for a
    using assms(1) that by (intro attempt_evidence_frame [of db a db']) (auto simp: fetch_inv_def receipts_of_def db')
  then show ?thesis using assms(1) by (simp add: fetch_inv_def db')
qed

lemma fetch_step_inv:
  assumes "fetch_step db db'" and "fetch_inv db"
  shows "fetch_inv db'"
  using assms
proof (cases rule: fetch_step.cases)
  case (configure url_ok adding s)
  then show ?thesis by (rule save_source_configuration_inv [OF assms(2)])
next
  case (correct adding c)
  then show ?thesis by (rule correction_inv [OF assms(2)])
next
  case (bootstrap url_ok now s)
  then show ?thesis
    using bootstrap_saves save_source_configuration_inv [OF assms(2)] assms(2) by blast
next
  case (start ids now source run n a)
  then show ?thesis using start_kamis_fetch_inv [OF assms(2)] by blast
next
  case (complete ids now k result c)
  then show ?thesis using complete_kamis_fetch_inv [OF assms(2)] by blast
next
  case (fail ids now k e a)
  then show ?thesis using fail_kamis_fetch_inv [OF assms(2)] by blast
qed

lemma empty_inv: "fetch_inv empty_db"
  by (simp add: fetch_inv_def empty_db_def)

text \<open>What a step leaves alone.\<close>

definition keeps_finished :: "fetch_db \<Rightarrow> fetch_db \<Rightarrow> bool" where
  "keeps_finished db db' \<longleftrightarrow>
     (\<exists>new. db_artifacts db' = db_artifacts db @ new) \<and> (\<exists>new. db_receipts db' = db_receipts db @ new)
     \<and> (\<forall>a \<in> set (db_attempts db). fa_state a \<noteq> STARTED \<longrightarrow>
          get_row fa_id (fa_id a) (db_attempts db') = Some a
          \<and> receipts_of (fa_id a) db' = receipts_of (fa_id a) db)"

lemma keeps_finished_only:
  assumes "fetch_inv db" and "get_row fa_id k (db_attempts db) = Some a" and "fa_state a = STARTED"
    and "fa_id a' = k" and "as = db_artifacts db \<or> as = db_artifacts db @ [new]"
    and "\<forall>r \<in> set rs. rc_fetch_attempt r = k"
    and db': "db' = db\<lparr>db_receipts := db_receipts db @ rs, db_artifacts := as,
                       db_attempts := upsert_row fa_id a' (db_attempts db)\<rparr>"
  shows "keeps_finished db db'"
proof -
  have "get_row fa_id (fa_id x) (db_attempts db') = Some x \<and> receipts_of (fa_id x) db' = receipts_of (fa_id x) db"
    if x: "x \<in> set (db_attempts db)" "fa_state x \<noteq> STARTED" for x
  proof -
    have gx: "get_row fa_id (fa_id x) (db_attempts db) = Some x"
      using assms(1) x get_row_member by (auto simp: fetch_inv_def)
    then have "fa_id x \<noteq> k" using assms(2,3) x(2) by auto
    then show ?thesis
      using gx assms(4,6) by (auto simp: db' get_row_upsert receipts_of_def filter_empty_conv)
  qed
  moreover have "\<exists>more. as = db_artifacts db @ more" using assms(5) by auto
  ultimately show ?thesis by (simp add: keeps_finished_def db')
qed

lemma keeps_finished_same:
  assumes "fetch_inv db" and "db_artifacts db' = db_artifacts db" and "db_receipts db' = db_receipts db"
    and "\<And>k a. get_row fa_id k (db_attempts db) = Some a \<Longrightarrow> get_row fa_id k (db_attempts db') = Some a"
  shows "keeps_finished db db'"
proof -
  have "get_row fa_id (fa_id a) (db_attempts db') = Some a" if "a \<in> set (db_attempts db)" for a
    using assms(1,4) get_row_member that unfolding fetch_inv_def by metis
  then show ?thesis using assms(2,3) by (simp add: keeps_finished_def receipts_of_def)
qed

lemma fetch_step_keeps:
  assumes "fetch_step db db'" and inv: "fetch_inv db"
  shows "keeps_finished db db'"
  using assms(1)
proof (cases rule: fetch_step.cases)
  case (configure url_ok adding s)
  then show ?thesis
    using save_source_configuration_Inr inv by (fastforce intro!: keeps_finished_same)
next
  case (correct adding c)
  then show ?thesis
    using save_correction_Inr inv by (fastforce intro!: keeps_finished_same)
next
  case (bootstrap url_ok now s)
  then show ?thesis
    using bootstrap_saves save_source_configuration_Inr inv by (fastforce intro!: keeps_finished_same)
next
  case (start ids now source run n a)
  then show ?thesis
    using start_kamis_fetch_inv [OF inv] inv by (fastforce intro!: keeps_finished_same simp: get_row_append)
next
  case (complete ids now k result c)
  note c = complete_kamis_fetch_inv [OF inv complete]
  show ?thesis
  proof (cases "db' = db")
    case True
    then show ?thesis using keeps_finished_same [OF inv, of db] by simp
  next
    case False
    with c obtain a rs as a' where f: "get_row fa_id k (db_attempts db) = Some a" "fa_state a = STARTED"
      "fa_id a' = k" "as = db_artifacts db \<or> as = db_artifacts db @ [cf_artifact c]"
      "\<forall>r \<in> set rs. rc_fetch_attempt r = k"
      "db' = db\<lparr>db_receipts := db_receipts db @ rs, db_artifacts := as,
                db_attempts := upsert_row fa_id a' (db_attempts db)\<rparr>"
      by blast
    show ?thesis by (rule keeps_finished_only [OF inv f])
  qed
next
  case (fail ids now k e a')
  obtain a rs where f: "get_row fa_id k (db_attempts db) = Some a" "fa_state a = STARTED" "fa_id a' = k"
      "\<forall>r \<in> set rs. rc_fetch_attempt r = k"
      "db' = db\<lparr>db_receipts := db_receipts db @ rs, db_attempts := upsert_row fa_id a' (db_attempts db)\<rparr>"
    using fail_kamis_fetch_inv [OF inv fail] by blast
  show ?thesis
    by (rule keeps_finished_only [OF inv f(1,2,3) _ f(4), of "db_artifacts db" undefined]) (simp_all add: f(5))
qed

lemma keeps_finished_trans:
  assumes "keeps_finished a b" and "keeps_finished b c"
  shows "keeps_finished a c"
proof -
  have "get_row fa_id (fa_id x) (db_attempts c) = Some x \<and> receipts_of (fa_id x) c = receipts_of (fa_id x) a"
    if x: "x \<in> set (db_attempts a)" "fa_state x \<noteq> STARTED" for x
  proof -
    have b: "get_row fa_id (fa_id x) (db_attempts b) = Some x" "receipts_of (fa_id x) b = receipts_of (fa_id x) a"
      using assms(1) x by (auto simp: keeps_finished_def)
    then have "x \<in> set (db_attempts b)" using get_row_Some by fastforce
    then show ?thesis using assms(2) x(2) b(2) by (auto simp: keeps_finished_def)
  qed
  then show ?thesis
    using assms by (auto simp: keeps_finished_def)
qed

text \<open>The acquisition side is a growing system; its runs inherit the contract.\<close>

interpretation acquisition: started_system fetch_inv fetch_step keeps_finished empty_db
  by unfold_locales
     (auto intro: fetch_step_inv fetch_step_keeps keeps_finished_same empty_inv dest: keeps_finished_trans)

text \<open>
  C19: in every state the operations of the acquisition side can reach, every attempt has exactly
  the evidence its state claims: a started one has no receipts; a succeeded one has receipts of
  pages 1, 2, ... that agree on a total, reconcile with its counters and hash to the manifest of
  its artifact; a failed one counts exactly the receipts it kept and has no artifact.
\<close>

theorem reachable_evidence_reconciles:
  "fetch_reachable db \<Longrightarrow> fetch_inv db"
  using acquisition.reachable_inv by (simp add: fetch_reachable_def)

text \<open>
  C20: evidence is append-only. Whatever sequence of operations follows, a finished attempt and
  its receipts stay exactly as they are, and artifacts are only added.
\<close>

theorem finished_evidence_is_append_only:
  assumes "fetch_reachable db" and "fetch_step\<^sup>*\<^sup>* db db'"
  shows "keeps_finished db db'"
  using assms by (auto simp: fetch_reachable_def intro: acquisition.reachable_grow)

end
