(* ===== verification/Price_Evidence.thy ===== *)
theory Price_Evidence
  imports Generation_Contract Fetch_Evidence "HOL-Library.Sublist"
begin

text \<open>
  What every operation of a parse generation keeps. \<open>price_inv\<close> says that the tables are keyed,
  that facts hang together (snapshots on validated runs, references on snapshots, change facts on
  references) and that each stored change fact is the recalculation of its stored prices;
  \<open>keeps_facts\<close> that facts are only added and a finished run never changes. Both are shown for
  each \<open>save\<close>, lifted through the loops, and carried along the steps of the system.
\<close>

section \<open>Loops that thread a state\<close>

lemma estate_rel:
  assumes "estate f xs s = Inr (ys, s')"
    and "R s s" and "\<And>a b c. R a b \<Longrightarrow> R b c \<Longrightarrow> R a c"
    and "\<And>x a y b. x \<in> set xs \<Longrightarrow> f x a = Inr (y, b) \<Longrightarrow> R a b"
    and "\<And>a. R a a"
  shows "R s s'"
  using assms(1,4)
proof (induction xs arbitrary: s ys)
  case Nil
  then show ?case using assms(5) by simp
next
  case (Cons x xs)
  obtain y s1 ys1 where "f x s = Inr (y, s1)" "estate f xs s1 = Inr (ys1, s')"
    using Cons.prems(1) by (auto elim!: ebind_InrE split: prod.split_asm)
  then show ?case using Cons.IH [of s1 ys1] Cons.prems(2) assms(3) by (metis list.set_intros)
qed

section \<open>The invariant\<close>

definition run_validated :: "parse_run list \<Rightarrow> uuid \<Rightarrow> bool" where
  "run_validated runs k \<longleftrightarrow> (case get_row run_id k runs of None \<Rightarrow> False | Some r \<Rightarrow> run_status r = RUN_VALIDATED)"

definition change_recalculates :: "'a price_db_scheme \<Rightarrow> price_change_fact \<Rightarrow> bool" where
  "change_recalculates db c \<longleftrightarrow>
     (case get_row sr_id (cf_reference_price c) (db_references db) of
        None \<Rightarrow> False
      | Some r \<Rightarrow> (case expected_fields r db of Inl _ \<Rightarrow> False | Inr e \<Rightarrow> same_change c e))"

definition run_identity :: "parse_run \<Rightarrow> uuid \<times> pystr \<times> pystr" where
  "run_identity r = (run_artifact r, run_parser_revision r, run_configuration_hash r)"

definition price_keys :: "'a price_db_scheme \<Rightarrow> bool" where
  "price_keys db \<longleftrightarrow>
     distinct (map run_id (db_runs db)) \<and> distinct (map run_identity (db_runs db))
     \<and> distinct (map ser_id (db_series db))
     \<and> distinct (map ser_identity (db_series db)) \<and> distinct (map sn_id (db_snapshots db))
     \<and> distinct (map (\<lambda>s. (sn_parse_run s, sn_series s)) (db_snapshots db))
     \<and> distinct (map sr_id (db_references db))
     \<and> distinct (map (\<lambda>r. (sr_snapshot r, sr_period r)) (db_references db))
     \<and> distinct (map cf_id (db_changes db)) \<and> distinct (map cf_reference_price (db_changes db))"

definition price_links :: "'a price_db_scheme \<Rightarrow> bool" where
  "price_links db \<longleftrightarrow>
     list_all (\<lambda>s. run_validated (db_runs db) (sn_parse_run s) \<and> sn_series s \<in> ser_id ` set (db_series db))
       (db_snapshots db)
     \<and> list_all (\<lambda>r. sr_snapshot r \<in> sn_id ` set (db_snapshots db)) (db_references db)"

definition price_inv :: "'a price_db_scheme \<Rightarrow> bool" where
  "price_inv db \<longleftrightarrow> price_keys db \<and> price_links db \<and> list_all (change_recalculates db) (db_changes db)"

definition keeps_facts :: "'a price_db_scheme \<Rightarrow> 'a price_db_scheme \<Rightarrow> bool" where
  "keeps_facts db db' \<longleftrightarrow>
     prefix (db_series db) (db_series db') \<and> prefix (db_snapshots db) (db_snapshots db')
     \<and> prefix (db_references db) (db_references db') \<and> prefix (db_changes db) (db_changes db')
     \<and> (\<forall>k r. get_row run_id k (db_runs db) = Some r \<longrightarrow> run_status r \<noteq> RUN_STARTED \<longrightarrow>
          get_row run_id k (db_runs db') = Some r)"

lemma keeps_facts_refl [simp]: "keeps_facts db db"
  by (simp add: keeps_facts_def)

lemma keeps_facts_trans: "keeps_facts a b \<Longrightarrow> keeps_facts b c \<Longrightarrow> keeps_facts a c"
  unfolding keeps_facts_def by (blast intro: prefix_order.trans)

text \<open>A step keeps both: the form in which the operations are proved.\<close>

definition evolves :: "'a price_db_scheme \<Rightarrow> 'a price_db_scheme \<Rightarrow> bool" where
  "evolves db db' \<longleftrightarrow> price_inv db \<longrightarrow> price_inv db' \<and> keeps_facts db db'"

lemma evolves_refl [simp]: "evolves db db"
  by (simp add: evolves_def)

lemma evolves_trans: "evolves a b \<Longrightarrow> evolves b c \<Longrightarrow> evolves a c"
  unfolding evolves_def using keeps_facts_trans by blast

lemma estate_evolves:
  assumes "estate f xs s = Inr (ys, s')" and "\<And>x a y b. x \<in> set xs \<Longrightarrow> f x a = Inr (y, b) \<Longrightarrow> evolves a b"
  shows "evolves s s'"
  by (rule estate_rel [OF assms(1) evolves_refl evolves_trans assms(2) evolves_refl])

section \<open>Saving a run\<close>

lemma save_parse_run_Inr:
  assumes "save_parse_run adding r db = Inr db'"
  shows "db' = db\<lparr>db_runs := upsert_row run_id r (db_runs db)\<rparr>"
    and "adding \<Longrightarrow> run_id r \<notin> run_id ` set (db_runs db)"
    and "\<not> adding \<Longrightarrow> get_row run_id (run_id r) (db_runs db) = Some p \<Longrightarrow>
           run_status p = RUN_STARTED \<and> same_run_identity r p"
    and "parse_run_fields r" and "parse_run_constraints r" and "parse_run_unique adding r (db_runs db)"
  using assms
  by (auto simp: save_parse_run_def parse_run_unique_def require_eq_Inr
           elim!: ebind_InrE split: if_split_asm option.split_asm)

lemma expected_fields_cong:
  assumes "db_references db' = db_references db" and "db_snapshots db' = db_snapshots db"
  shows "expected_fields r db' = expected_fields r db"
  by (simp add: expected_fields_def references_of_def assms)

lemma change_recalculates_cong:
  assumes "db_references db' = db_references db" and "db_snapshots db' = db_snapshots db"
  shows "change_recalculates db' c \<longleftrightarrow> change_recalculates db c"
  by (simp add: change_recalculates_def expected_fields_cong [OF assms] assms cong: option.case_cong)

lemma upsert_run_identities:
  assumes "parse_run_unique adding r rows" and "distinct (map run_id rows)" and "distinct (map run_identity rows)"
    and "\<And>p. get_row run_id (run_id r) rows = Some p \<Longrightarrow> same_run_identity r p"
  shows "distinct (map run_identity (upsert_row run_id r rows))"
proof (cases "get_row run_id (run_id r) rows")
  case None
  then have "run_id r \<notin> run_id ` set rows" by (simp add: get_row_None)
  moreover have "run_identity r \<notin> run_identity ` set rows"
    using assms(1) calculation
    by (auto simp: parse_run_unique_def run_identity_def list_ex_iff) (metis imageI)
  ultimately show ?thesis using assms(3) by (simp add: upsert_row_def)
next
  case (Some p)
  have "run_identity x = run_identity r" if "x \<in> set rows" "run_id x = run_id r" for x
    using get_row_member [OF assms(2) that(1)] that(2) Some assms(4) [OF Some]
    by (auto simp: run_identity_def same_run_identity_def)
  then have "map run_identity (put_row run_id r rows) = map run_identity rows"
    by (auto simp: put_row_def)
  then show ?thesis
    using get_row_Some [OF Some] assms(3) by (metis imageI list.set_map upsert_row_def)
qed

lemma save_parse_run_evolves:
  assumes "save_parse_run adding r db = Inr db'"
  shows "evolves db db'"
  unfolding evolves_def
proof (intro impI conjI)
  assume inv: "price_inv db"
  note db' = save_parse_run_Inr(1) [OF assms]
  have kept: "get_row run_id k (db_runs db') = Some p"
    if "get_row run_id k (db_runs db) = Some p" "run_status p \<noteq> RUN_STARTED" for k p
  proof -
    have "run_id p = k" "p \<in> set (db_runs db)" using get_row_Some [OF that(1)] by auto
    then have "k \<noteq> run_id r"
      using save_parse_run_Inr(2,3) [OF assms] that by (cases adding) (metis imageI, metis)
    then show ?thesis using that by (simp add: db' get_row_upsert)
  qed
  have v: "run_validated (db_runs db') k" if "run_validated (db_runs db) k" for k
    using that kept [of k] by (auto simp: run_validated_def split: option.split_asm)
  have "same_run_identity r p" if "get_row run_id (run_id r) (db_runs db) = Some p" for p
    using save_parse_run_Inr(2,3) [OF assms] that get_row_Some [OF that] by (cases adding) (metis imageI, blast)
  then have "distinct (map run_identity (upsert_row run_id r (db_runs db)))"
    using inv save_parse_run_Inr(6) [OF assms] upsert_run_identities [of adding r "db_runs db"]
    by (simp add: price_inv_def price_keys_def)
  then show "price_inv db'"
    using inv v
    by (auto simp: price_inv_def price_keys_def price_links_def list_all_iff db'
                   change_recalculates_cong [of "db\<lparr>db_runs := rs\<rparr>" db for rs])
  show "keeps_facts db db'" using kept by (simp add: keeps_facts_def db')
qed

section \<open>Adding facts\<close>

lemma expected_fields_Inr:
  assumes "expected_fields r db = Inr e"
  shows "length (references_of (sr_snapshot r) db) = 3"
    and "set (map sr_period (references_of (sr_snapshot r) db)) = set all_periods"
    and "\<exists>s. get_row sn_id (sr_snapshot r) (db_snapshots db) = Some s"
  using assms
  by (simp_all only: expected_fields_def Let_def require_eq_Inr of_option_eq_Inr ebind_eq_Inr) blast+

text \<open>A snapshot that has its three references cannot get another one.\<close>

lemma expected_fields_mono:
  assumes "expected_fields r db = Inr e"
    and "db_snapshots db' = db_snapshots db @ sns" and "db_references db' = db_references db @ new"
    and "\<forall>x \<in> set new. \<not> (\<exists>y \<in> set (db_references db). sr_snapshot y = sr_snapshot x \<and> sr_period y = sr_period x)"
  shows "expected_fields r db' = Inr e"
proof -
  note full = expected_fields_Inr [OF assms(1)]
  have "sr_snapshot x \<noteq> sr_snapshot r" if x: "x \<in> set new" for x
  proof
    assume eq: "sr_snapshot x = sr_snapshot r"
    have "sr_period x \<in> set all_periods" by (cases "sr_period x") (simp_all add: all_periods_def)
    then obtain y where "y \<in> set (references_of (sr_snapshot r) db)" "sr_period y = sr_period x"
      using full(2) by (metis (no_types, lifting) image_iff list.set_map)
    then show False using assms(4) x eq by (auto simp: references_of_def)
  qed
  then have refs: "references_of (sr_snapshot r) db' = references_of (sr_snapshot r) db"
    by (auto simp: references_of_def assms(3) filter_empty_conv)
  have sn: "get_row sn_id (sr_snapshot r) (db_snapshots db') = get_row sn_id (sr_snapshot r) (db_snapshots db)"
    using full(3) by (auto simp: assms(2) get_row_append)
  show ?thesis using assms(1) by (simp add: expected_fields_def refs sn)
qed

lemma change_recalculates_mono:
  assumes "change_recalculates db c"
    and "db_snapshots db' = db_snapshots db @ sns" and "db_references db' = db_references db @ new"
    and "\<forall>x \<in> set new. \<not> (\<exists>y \<in> set (db_references db). sr_snapshot y = sr_snapshot x \<and> sr_period y = sr_period x)"
  shows "change_recalculates db' c"
proof -
  obtain r e where r: "get_row sr_id (cf_reference_price c) (db_references db) = Some r"
    and e: "expected_fields r db = Inr e" "same_change c e"
    using assms(1) by (auto simp: change_recalculates_def split: option.split_asm sum.split_asm)
  have "get_row sr_id (cf_reference_price c) (db_references db') = Some r"
    using r by (simp add: assms(3) get_row_append)
  then show ?thesis
    using expected_fields_mono [OF e(1) assms(2-4)] e(2) by (simp add: change_recalculates_def)
qed

lemma save_series_Inr:
  assumes "save_series adding s db = Inr db'"
  shows "db' = db\<lparr>db_series := db_series db @ [s]\<rparr>" and "ser_id s \<notin> ser_id ` set (db_series db)"
    and "ser_identity s \<notin> ser_identity ` set (db_series db)"
  using assms by (auto simp: save_series_def require_eq_Inr elim!: ebind_InrE)

lemma save_series_evolves: "save_series adding s db = Inr db' \<Longrightarrow> evolves db db'"
  unfolding evolves_def
  using save_series_Inr [of adding s db db']
  by (auto simp: price_inv_def price_keys_def price_links_def list_all_iff keeps_facts_def
        change_recalculates_cong [of "db\<lparr>db_series := xs\<rparr>" db for xs])

lemma save_snapshot_Inr:
  assumes "save_snapshot adding s db = Inr db'"
  shows "db' = db\<lparr>db_snapshots := db_snapshots db @ [s\<lparr>sn_current_price := numeric_column 0 (sn_current_price s)\<rparr>]\<rparr>"
    and "sn_id s \<notin> sn_id ` set (db_snapshots db)" and "sn_series s \<in> ser_id ` set (db_series db)"
    and "run_validated (db_runs db) (sn_parse_run s)"
    and "\<not> (\<exists>x \<in> set (db_snapshots db). sn_parse_run x = sn_parse_run s \<and> sn_series x = sn_series s)"
  using assms
  by (auto simp: save_snapshot_def snapshot_full_clean_def snapshot_clean_def run_validated_def list_ex_iff
        succeeds_iff require_eq_Inr of_option_eq_Inr elim!: ebind_InrE)

lemma save_snapshot_evolves:
  assumes "save_snapshot adding s db = Inr db'"
  shows "evolves db db'"
  unfolding evolves_def
proof (intro impI conjI)
  assume inv: "price_inv db"
  note S = save_snapshot_Inr [OF assms]
  have "change_recalculates db' c" if "change_recalculates db c" for c
    by (rule change_recalculates_mono [OF that, of db' _ "[]"]) (simp_all add: S(1))
  then show "price_inv db'"
    using inv S(2-5)
    by (auto simp: price_inv_def price_keys_def price_links_def list_all_iff S(1))
  show "keeps_facts db db'" by (simp add: keeps_facts_def S(1))
qed

lemma save_reference_Inr:
  assumes "save_reference adding r db = Inr db'"
  shows "db' = db\<lparr>db_references := db_references db @ [r\<lparr>sr_value := map_option (numeric_column 0) (sr_value r)\<rparr>]\<rparr>"
    and "sr_id r \<notin> sr_id ` set (db_references db)" and "sr_snapshot r \<in> sn_id ` set (db_snapshots db)"
    and "\<not> (\<exists>x \<in> set (db_references db). sr_snapshot x = sr_snapshot r \<and> sr_period x = sr_period r)"
  using assms
  by (auto simp: save_reference_def reference_full_clean_def list_ex_iff require_eq_Inr elim!: ebind_InrE)

lemma save_reference_evolves:
  assumes "save_reference adding r db = Inr db'"
  shows "evolves db db'"
  unfolding evolves_def
proof (intro impI conjI)
  assume inv: "price_inv db"
  note S = save_reference_Inr [OF assms]
  have "change_recalculates db' c" if "change_recalculates db c" for c
    by (rule change_recalculates_mono [OF that, of db' "[]"]) (use S(4) in \<open>auto simp: S(1)\<close>)
  then show "price_inv db'"
    using inv S(2-4)
    by (auto simp: price_inv_def price_keys_def price_links_def list_all_iff S(1))
  show "keeps_facts db db'" by (simp add: keeps_facts_def S(1))
qed

text \<open>A column of the right scale stores the value unchanged.\<close>

lemma numeric_column_val:
  assumes "decimal_field digits places (Fin s m e)"
  shows "\<exists>s' m'. numeric_column places (Fin s m e) = Fin s' m' (- int places)
           \<and> dec_val (numeric_column places (Fin s m e)) = dec_val (Fin s m e)"
proof -
  have e: "- int places \<le> e" using assms by (auto simp: Let_def split: if_split_asm)
  have "nat (e - - int places) = nat (e + int places)" by simp
  then have "(10 :: real) powi e = 10 ^ nat (e + int places) * 10 powi (- int places)"
    using shift_exponent [OF e] by simp
  then show ?thesis by (auto simp: signed_def)
qed

lemma value_eq_stored:
  assumes "value_eq v w" and "\<And>d. v = Some d \<Longrightarrow> decimal_field digits places d"
  shows "value_eq (map_option (numeric_column places) v) w"
proof (cases v)
  case (Some d)
  then obtain s m e where d: "d = Fin s m e" using assms(2) by (cases d) auto
  obtain d' where w: "w = Some d'" "dec_eq d d'" using assms(1) Some by (cases w) auto
  obtain s' m' where n: "numeric_column places d = Fin s' m' (- int places)"
    "dec_val (numeric_column places d) = dec_val d"
    using numeric_column_val [of digits places s m e] assms(2) Some d by blast
  have "dec_eq (numeric_column places d) d'"
    using w(2) n by (metis d dec_eq_finite)
  then show ?thesis using Some w by simp
next
  case None
  then show ?thesis using assms(1) by simp
qed

lemma save_change_Inr:
  assumes "save_change adding x db = Inr db'"
  shows "db' = db\<lparr>db_changes := db_changes db @ [stored_change x]\<rparr>"
    and "cf_id x \<notin> cf_id ` set (db_changes db)"
    and "cf_reference_price x \<notin> cf_reference_price ` set (db_changes db)"
    and "change_fields x" and "change_recalculates db x"
  using assms
  by (auto simp: save_change_def change_full_clean_def change_clean_def change_recalculates_def
        succeeds_iff require_eq_Inr of_option_eq_Inr elim!: ebind_InrE)

lemma change_recalculates_stored:
  assumes "change_recalculates db x" and "change_fields x"
  shows "change_recalculates db (stored_change x)"
proof -
  obtain r e where r: "get_row sr_id (cf_reference_price x) (db_references db) = Some r"
    "expected_fields r db = Inr e" "same_change x e"
    using assms(1) by (auto simp: change_recalculates_def split: option.split_asm sum.split_asm)
  have "value_eq (map_option (numeric_column 0) (cf_signed_difference x)) (pc_difference e)"
    using r(3) assms(2) by (intro value_eq_stored [of _ _ 12]) (auto simp: same_change_def change_fields_def)
  moreover have "value_eq (map_option (numeric_column 1) (cf_signed_percentage x)) (pc_percentage e)"
    using r(3) assms(2) by (intro value_eq_stored [of _ _ 16]) (auto simp: same_change_def change_fields_def)
  ultimately show ?thesis using r by (simp add: change_recalculates_def same_change_def stored_change_def)
qed

lemma stored_change_simps [simp]:
  "cf_id (stored_change x) = cf_id x" "cf_reference_price (stored_change x) = cf_reference_price x"
  by (simp_all add: stored_change_def)

lemma save_change_evolves:
  assumes "save_change adding x db = Inr db'"
  shows "evolves db db'"
  unfolding evolves_def
proof (intro impI conjI)
  assume inv: "price_inv db"
  note S = save_change_Inr [OF assms]
  have "change_recalculates db' c \<longleftrightarrow> change_recalculates db c" for c
    by (rule change_recalculates_cong) (simp_all add: S(1))
  then show "price_inv db'"
    using inv S(2,3) change_recalculates_stored [OF S(5,4)]
    by (auto simp: price_inv_def price_keys_def price_links_def list_all_iff S(1))
  show "keeps_facts db db'" by (simp add: keeps_facts_def S(1))
qed

section \<open>The operations\<close>

lemma series_get_or_validate_evolves:
  "series_get_or_validate new i f db = Inr (s, db') \<Longrightarrow> evolves db db'"
  by (auto simp: series_get_or_validate_def Let_def elim!: ebind_InrE split: option.split_asm
           dest: save_series_evolves)

lemma snapshot_get_or_validate_evolves:
  "snapshot_get_or_validate c db = Inr (s, db') \<Longrightarrow> evolves db db'"
  by (auto simp: snapshot_get_or_validate_def elim!: ebind_InrE split: option.split_asm
           dest: save_snapshot_evolves)

lemma reference_get_or_validate_evolves:
  "reference_get_or_validate c db = Inr (s, db') \<Longrightarrow> evolves db db'"
  by (auto simp: reference_get_or_validate_def elim!: ebind_InrE split: option.split_asm
           dest: save_reference_evolves)

lemma change_get_or_validate_evolves:
  "change_get_or_validate new r db = Inr (s, db') \<Longrightarrow> evolves db db'"
  by (auto simp: change_get_or_validate_def Let_def elim!: ebind_InrE split: option.split_asm
           dest: save_change_evolves)

lemma persist_facts_evolves:
  assumes "persist_reference_price_facts ids k vs db = Inr (cs, db')"
  shows "evolves db db'"
proof -
  obtain rs db1 where
    refs: "estate (\<lambda>(new, period). reference_get_or_validate (reference_candidate new k period
        (Option.bind (map_of vs period) (\<lambda>v. v)))) (zip (map ids [0, 1, 2]) all_periods) db = Inr (rs, db1)"
    and chs: "estate (\<lambda>(new, r). change_get_or_validate new (sr_id r)) (zip (map ids [3, 4, 5]) rs) db1
      = Inr (cs, db')"
    using assms
    unfolding persist_reference_price_facts_def by (elim ebind_InrE) (auto split: prod.split_asm)
  have "evolves db db1"
    by (rule estate_evolves [OF refs]) (auto split: prod.split_asm intro: reference_get_or_validate_evolves)
  moreover have "evolves db1 db'"
    by (rule estate_evolves [OF chs]) (auto split: prod.split_asm intro: change_get_or_validate_evolves)
  ultimately show ?thesis by (rule evolves_trans)
qed

lemma persist_row_evolves:
  assumes "persist_row m ids k turn db = Inr (u, db')"
  shows "evolves db db'"
proof -
  obtain i p where t: "turn = (i, p)" by (cases turn)
  obtain s db1 where 1: "series_get_or_validate (ids (8 * i + 6)) (row_series_identity (prr_identity p))
      (row_reviewed_fields m (prr_identity p)) db = Inr (s, db1)"
    and rest: "ebind (snapshot_get_or_validate
              \<lparr>sn_id = ids (8 * i + 7), sn_parse_run = k, sn_series = ser_id s,
               sn_source_effective_date = prr_source_effective_date p, sn_source_recorded_at = None,
               sn_current_price = prr_current_price p, sn_source_row_sha256 = prr_source_row_hash p,
               sn_source_contract_revision = KAMIS_SOURCE_CONTRACT_REVISION\<rparr> db1) (\<lambda>(snapshot, db2).
     ebind (persist_reference_price_facts (\<lambda>j. ids (8 * i + j)) (sn_id snapshot)
              (map (\<lambda>r. (prf_period r, prf_value r)) (prr_references p)) db2) (\<lambda>(_, db3).
     Inr ((), db3))) = Inr (u, db')"
    using assms unfolding persist_row_def t Let_def prod.case
    by (elim ebind_InrE) (auto split: prod.split_asm)
  obtain sn db2 cs where 2: "snapshot_get_or_validate
              \<lparr>sn_id = ids (8 * i + 7), sn_parse_run = k, sn_series = ser_id s,
               sn_source_effective_date = prr_source_effective_date p, sn_source_recorded_at = None,
               sn_current_price = prr_current_price p, sn_source_row_sha256 = prr_source_row_hash p,
               sn_source_contract_revision = KAMIS_SOURCE_CONTRACT_REVISION\<rparr> db1 = Inr (sn, db2)"
    and 3: "persist_reference_price_facts (\<lambda>j. ids (8 * i + j)) (sn_id sn)
              (map (\<lambda>r. (prf_period r, prf_value r)) (prr_references p)) db2 = Inr (cs, db')"
    using rest by (elim ebind_InrE) (auto split: prod.split_asm elim!: ebind_InrE)
  show ?thesis
    using series_get_or_validate_evolves [OF 1] snapshot_get_or_validate_evolves [OF 2]
      persist_facts_evolves [OF 3] by (metis evolves_trans)
qed

lemma start_run_evolves:
  "start_or_get_kamis_parse_run m ids now a db = Inr (r, created, db') \<Longrightarrow> evolves db db'"
  by (auto simp: start_or_get_kamis_parse_run_def at_boundary_def db_step_def Let_def
           elim!: ebind_InrE split: sum.split_asm option.split_asm body_error.split_asm dest: save_parse_run_evolves)

lemma db_step_Inr [exc_simps]: "db_step x = Inr y \<longleftrightarrow> x = Inr y"
  by (auto simp: db_step_def split: sum.split)

lemma at_boundary_Inr [exc_simps]: "at_boundary t c x = Inr y \<longleftrightarrow> x = Inr y"
  by (auto simp: at_boundary_def split: sum.split body_error.split)

text \<open>A first completion: the run is marked, every row is persisted and the whole is checked.\<close>

lemma complete_body_Inr:
  assumes "complete_generation_body m ids now k result db = Inr (g, db')"
  obtains (replay) r a missing snapshots where "get_run k db = Inr (r, a)"
      "validate_parse_run_contract m r a = Inr ()" "run_status r = RUN_VALIDATED"
      "run_result_hash r = res_result_hash result" "validate_result m result = Inr missing"
      "validate_persisted_replay m r result missing db = Inr snapshots" "db' = db"
      "g = \<lparr>cg_parse_run = r, cg_snapshots = snapshots, cg_replayed = True\<rparr>"
  | (first) r a missing snapshots db1 us where "get_run k db = Inr (r, a)"
      "validate_parse_run_contract m r a = Inr ()" "run_status r = RUN_STARTED"
      "validate_result m result = Inr missing"
      "save_parse_run False (validated_run now result missing r) db = Inr db1"
      "estate (persist_row m ids k) (zip [0..<length (res_rows result)] (res_rows result)) db1 = Inr (us, db')"
      "validate_persisted_replay m (validated_run now result missing r) result missing db' = Inr snapshots"
      "g = \<lparr>cg_parse_run = validated_run now result missing r, cg_snapshots = snapshots, cg_replayed = False\<rparr>"
proof -
  obtain r a where ra: "get_run k db = Inr (r, a)" "validate_parse_run_contract m r a = Inr ()"
    using assms unfolding complete_generation_body_def by (elim ebind_InrE) (auto elim!: ebind_InrE)
  show ?thesis
  proof (cases "run_status r = RUN_VALIDATED")
    case True
    then show ?thesis
      using assms ra replay by (auto simp: complete_generation_body_def require_eq_Inr elim!: ebind_InrE)
  next
    case False
    then have body: "ebind (require (run_status r = RUN_STARTED) (ParseGenerationError PARSE_RUN_NOT_STARTED)) (\<lambda>_.
          ebind (validate_result m result) (\<lambda>missing.
          ebind (db_step (save_parse_run False (validated_run now result missing r) db)) (\<lambda>db1.
          ebind (db_step (estate (persist_row m ids k)
                   (zip [0..<length (res_rows result)] (res_rows result)) db1)) (\<lambda>(_, db2).
          ebind (validate_persisted_replay m (validated_run now result missing r) result missing db2) (\<lambda>snapshots.
          Inr (\<lparr>cg_parse_run = validated_run now result missing r, cg_snapshots = snapshots,
                cg_replayed = False\<rparr>, db2)))))) = Inr (g, db')"
      using assms ra by (simp add: complete_generation_body_def Let_def)
    obtain missing db1 us db2 snapshots where
      "run_status r = RUN_STARTED" "validate_result m result = Inr missing"
      "save_parse_run False (validated_run now result missing r) db = Inr db1"
      "estate (persist_row m ids k) (zip [0..<length (res_rows result)] (res_rows result)) db1 = Inr (us, db2)"
      "validate_persisted_replay m (validated_run now result missing r) result missing db2 = Inr snapshots"
      "g = \<lparr>cg_parse_run = validated_run now result missing r, cg_snapshots = snapshots, cg_replayed = False\<rparr>"
      "db' = db2"
      using body by (auto simp: require_eq_Inr db_step_Inr elim!: ebind_InrE split: prod.split_asm)
    then show ?thesis using ra first by blast
  qed
qed

lemma complete_run_evolves:
  assumes "complete_kamis_parse_generation m ids now k result db = Inr (g, db')"
  shows "evolves db db'"
proof -
  have "complete_generation_body m ids now k result db = Inr (g, db')"
    using assms by (simp add: complete_kamis_parse_generation_def at_boundary_Inr)
  then show ?thesis
  proof (cases rule: complete_body_Inr)
    case (first r a missing snapshots db1 us)
    have "evolves db1 db'"
      by (rule estate_evolves [OF first(6)]) (rule persist_row_evolves)
    then show ?thesis using save_parse_run_evolves [OF first(5)] evolves_trans by blast
  qed simp
qed

lemma fail_run_Inr:
  assumes "fail_kamis_parse_run m now k code db = Inr (r, db')"
  obtains c p a where "code = Some c" "get_run k db = Inr (p, a)" "validate_parse_run_contract m p a = Inr ()"
    "run_status p = RUN_STARTED" "\<not> list_ex (\<lambda>s. sn_parse_run s = k) (db_snapshots db)"
    "r = p\<lparr>run_status := RUN_FAILED, run_completed_at := Some now, run_failure_code := parse_failure_value c\<rparr>"
    "save_parse_run False r db = Inr db'"
  using assms
  by (auto simp: fail_kamis_parse_run_def fail_run_body_def at_boundary_Inr db_step_Inr Let_def
        require_eq_Inr of_option_eq_Inr elim!: ebind_InrE split: prod.split_asm)

lemma fail_run_evolves:
  assumes "fail_kamis_parse_run m now k code db = Inr (r, db')"
  shows "evolves db db'"
  using assms by (rule fail_run_Inr) (rule save_parse_run_evolves)

end
