(* ===== verification/Publication_Facts.thy ===== *)
theory Publication_Facts
  imports Review_Models Price_Evidence
begin

text \<open>
  Canonical hashes of a publication's facts (\<open>grocery/publication_facts.py\<close>), and the database
  function that recomputes the hash of one snapshot from the stored rows
  (\<open>grocery_publication_snapshot_fact_sha256\<close> of migration 0007). Columns with a fixed value
  appear as that value. Both sides write \<open>source_recorded_at\<close> on their own; instants count whole
  seconds, so the fraction either would append is empty.
\<close>

section \<open>Texts of dates, instants and numbers\<close>

text \<open>\<open>date.fromordinal\<close>: the day with a given ordinal, as \<open>_ord2ymd\<close> finds it.\<close>

function month_and_day :: "nat \<Rightarrow> nat \<Rightarrow> nat \<Rightarrow> date" where
  "month_and_day y m n =
     (if m < 12 \<and> days_in_month y m \<le> n then month_and_day y (m + 1) (n - days_in_month y m) else (y, m, n + 1))"
  by auto
termination by (relation "measure (\<lambda>(y, m, n). 12 - m)") auto

definition fromordinal :: "nat \<Rightarrow> date" where
  "fromordinal ordinal =
     (let n = ordinal - 1; n400 = n div 146097; n1 = n mod 146097; n100 = n1 div 36524; n2 = n1 mod 36524;
          n4 = n2 div 1461; n3 = n2 mod 1461; years = n3 div 365; days = n3 mod 365;
          year = n400 * 400 + 1 + n100 * 100 + n4 * 4 + years
      in if years = 4 \<or> n100 = 4 then (year - 1, 12, 31) else month_and_day year 1 days)"

text \<open>\<open>datetime.isoformat\<close> of an aware UTC instant, counted in seconds since 1970.\<close>

definition instant_isoformat :: "instant \<Rightarrow> pystr" where
  "instant_isoformat t =
     (let s = nat (t mod 86400) in
      date_isoformat (fromordinal (nat (719163 + t div 86400))) @ lit ''T''
      @ pad_left 2 (nat_text (s div 3600)) @ [58] @ pad_left 2 (nat_text (s div 60 mod 60)) @ [58]
      @ pad_left 2 (nat_text (s mod 60)) @ lit ''+00:00'')"

text \<open>\<open>format(value, "f")\<close>\<close>

fun plain_decimal_text :: "decimal \<Rightarrow> pystr" where
  "plain_decimal_text (Fin s m e) =
     (if s then [45] else [])
     @ (if 0 \<le> e then nat_text (if m = 0 then 0 else m * 10 ^ nat e)
        else nat_text (m div 10 ^ nat (- e)) @ [46] @ pad_left (nat (- e)) (nat_text (m mod 10 ^ nat (- e))))"
| "plain_decimal_text (Infinite s) = (if s then [45] else []) @ lit ''Infinity''"
| "plain_decimal_text (NotANumber s) = (if s then lit ''sNaN'' else lit ''NaN'')"

definition nullable_decimal_text :: "decimal option \<Rightarrow> json" where
  "nullable_decimal_text v = jstr_opt (map_option plain_decimal_text v)"

section \<open>Texts of the enumerations\<close>

fun direction_text :: "direction \<Rightarrow> pystr" where
  "direction_text LOWER = lit ''LOWER''"
| "direction_text EQUAL = lit ''EQUAL''"
| "direction_text HIGHER = lit ''HIGHER''"
| "direction_text DIRECTION_UNAVAILABLE = lit ''UNAVAILABLE''"

section \<open>The fact of one snapshot\<close>

definition ENTRY_HASH_VERSION :: pystr where
  "ENTRY_HASH_VERSION = lit ''recent-retail-entry-v1''"

definition FACT_SET_HASH_VERSION :: pystr where
  "FACT_SET_HASH_VERSION = lit ''recent-retail-fact-set-v1''"

definition canonical_change_data :: "price_change_fact \<Rightarrow> json" where
  "canonical_change_data c = JObj
     [(lit ''direction'', JStr (direction_text (cf_direction c))),
      (lit ''signed_difference'', nullable_decimal_text (cf_signed_difference c)),
      (lit ''signed_percentage'', nullable_decimal_text (cf_signed_percentage c)),
      (lit ''calculation_revision'', JStr (lit ''PRICE_COMPARISON_V1'')),
      (lit ''rounding_mode'', JStr (lit ''ROUND_HALF_UP''))]"

definition canonical_reference_json :: "stored_reference \<Rightarrow> price_change_fact \<Rightarrow> json" where
  "canonical_reference_json r c = JObj
     [(lit ''period'', JStr (period_text (sr_period r))),
      (lit ''value_status'', JStr (value_status_text (sr_value_status r))),
      (lit ''value'', nullable_decimal_text (sr_value r)),
      (lit ''unavailable_reason'', jstr_opt (sr_unavailable_reason r)),
      (lit ''reference_date_status'', JStr (reference_date_status_text (sr_reference_date_status r))),
      (lit ''source_reference_date'', jstr_opt (map_option date_isoformat (sr_source_reference_date r))),
      (lit ''change'', canonical_change_data c)]"

definition canonical_reference_data :: "'a price_db_scheme \<Rightarrow> stored_reference \<Rightarrow> db_error + json" where
  "canonical_reference_data db r =
     ebind (of_option (ValidationError ''Every publication reference requires a change fact.'')
              (get_row cf_reference_price (sr_id r) (db_changes db))) (\<lambda>c.
     Inr (canonical_reference_json r c))"

definition canonical_series_json :: "price_series_key \<Rightarrow> json" where
  "canonical_series_json x = (let i = ser_identity x; f = ser_reviewed x in JObj
     [(lit ''product_class_code'', JStr (si_product_class_code i)),
      (lit ''product_class_name'', JStr (rf_product_class_name f)),
      (lit ''category_code'', JStr (si_category_code i)),
      (lit ''category_name'', JStr (rf_category_name f)),
      (lit ''item_code'', JStr (si_item_code i)),
      (lit ''item_name'', JStr (rf_item_name f)),
      (lit ''variety_code'', JStr (si_variety_code i)),
      (lit ''variety_name'', JStr (rf_variety_name f)),
      (lit ''grade_code'', JStr (si_grade_code i)),
      (lit ''grade_name'', JStr (rf_grade_name f)),
      (lit ''raw_unit'', JStr (si_raw_unit i)),
      (lit ''raw_unit_size'', JStr (si_raw_unit_size i)),
      (lit ''coverage_identity'', JStr (si_coverage_identity i)),
      (lit ''identity_evidence_revision'', JStr (rf_identity_evidence_revision f))])"

definition canonical_snapshot_json :: "retail_price_snapshot \<Rightarrow> json" where
  "canonical_snapshot_json s = JObj
     [(lit ''source_effective_date'', JStr (date_isoformat (sn_source_effective_date s))),
      (lit ''source_recorded_at'', jstr_opt (map_option instant_isoformat (sn_source_recorded_at s))),
      (lit ''current_price'', JStr (plain_decimal_text (sn_current_price s))),
      (lit ''currency'', JStr (lit ''KRW'')),
      (lit ''source_row_sha256'', JStr (sn_source_row_sha256 s)),
      (lit ''source_contract_revision'', JStr (sn_source_contract_revision s))]"

definition canonical_fact_json :: "price_series_key \<Rightarrow> retail_price_snapshot \<Rightarrow> json list \<Rightarrow> json" where
  "canonical_fact_json x s references = JObj
     [(lit ''entry_hash_version'', JStr ENTRY_HASH_VERSION),
      (lit ''series'', canonical_series_json x), (lit ''snapshot'', canonical_snapshot_json s),
      (lit ''references'', JArr references)]"

text \<open>A snapshot whose series is missing does not occur: the series is a foreign key.\<close>

definition canonical_snapshot_data :: "retail_price_snapshot \<Rightarrow> 'a price_db_scheme \<Rightarrow> db_error + json" where
  "canonical_snapshot_data s db =
     ebind (of_option (DoesNotExist ''PriceSeriesKey'') (snapshot_series db s)) (\<lambda>x.
     let references = references_of (sn_id s) db in
     ebind (require (length references = 3 \<and> set (map sr_period references) = set all_periods)
              (ValidationError ''Publication requires exactly WEEK, MONTH, and YEAR references.'')) (\<lambda>_.
     ebind (emap (\<lambda>p. ebind (of_option (UncaughtError ''KeyError'')
                        (find (\<lambda>r. sr_period r = p) (rev references))) (canonical_reference_data db))
              all_periods) (\<lambda>js.
     Inr (canonical_fact_json x s js))))"

definition canonical_fact_hash :: "json \<Rightarrow> pystr option" where
  "canonical_fact_hash j = map_option (\<lambda>bs. sha256 (ENTRY_HASH_VERSION @ [10] @ bs)) (utf8 (dumps False j))"

definition snapshot_fact_sha256 :: "retail_price_snapshot \<Rightarrow> 'a price_db_scheme \<Rightarrow> db_error + pystr" where
  "snapshot_fact_sha256 s db =
     ebind (canonical_snapshot_data s db) (\<lambda>j.
     of_option (UncaughtError ''UnicodeEncodeError'') (canonical_fact_hash j))"

section \<open>The fact set of a generation\<close>

record canonical_entry =
  ce_ordinal :: nat
  ce_snapshot :: uuid
  ce_fact_sha256 :: pystr

record canonical_fact_set =
  fs_entries :: "canonical_entry list"
  fs_typed_fact_set_sha256 :: pystr
  fs_source_effective_date_min :: date
  fs_source_effective_date_max :: date

definition snapshot_order_key :: "retail_price_snapshot \<times> price_series_key \<Rightarrow> semantic_identity_key" where
  "snapshot_order_key p = series_sort_key (ser_identity (snd p))"

definition fact_set_hash :: "pystr list \<Rightarrow> pystr" where
  "fact_set_hash hashes = sha256 (FACT_SET_HASH_VERSION @ [10] @ join [10] hashes)"

definition with_series ::
    "'a price_db_scheme \<Rightarrow> retail_price_snapshot \<Rightarrow> db_error + (retail_price_snapshot \<times> price_series_key)" where
  "with_series db s = ebind (of_option (DoesNotExist ''PriceSeriesKey'') (snapshot_series db s)) (\<lambda>x. Inr (s, x))"

definition build_publication_fact_set ::
    "retail_price_snapshot list \<Rightarrow> 'a price_db_scheme \<Rightarrow> db_error + canonical_fact_set" where
  "build_publication_fact_set snapshots db =
     ebind (require (snapshots \<noteq> []) (ValidationError ''A publication fact set cannot be empty.'')) (\<lambda>_.
     ebind (require (card (set (map sn_parse_run snapshots)) = 1)
              (ValidationError ''A publication fact set must use one parse generation.'')) (\<lambda>_.
     ebind (require (card (set (map sn_id snapshots)) = length snapshots)
              (ValidationError ''A publication fact set cannot repeat a snapshot.'')) (\<lambda>_.
     ebind (emap (with_series db) snapshots) (\<lambda>pairs.
     let ordered = map fst (sort_key snapshot_order_key pairs) in
     ebind (emap (\<lambda>(i, s). ebind (snapshot_fact_sha256 s db) (\<lambda>h.
                Inr \<lparr>ce_ordinal = i, ce_snapshot = sn_id s, ce_fact_sha256 = h\<rparr>))
              (zip [1..<length ordered + 1] ordered)) (\<lambda>entries.
     let dates = map sn_source_effective_date ordered in
     Inr \<lparr>fs_entries = entries, fs_typed_fact_set_sha256 = fact_set_hash (map ce_fact_sha256 entries),
          fs_source_effective_date_min = foldr min dates (hd dates),
          fs_source_effective_date_max = foldr max dates (hd dates)\<rparr>)))))"

section \<open>The database function\<close>

text \<open>\<open>to_json(x::text)::text\<close>, and \<open>null\<close> for a missing value.\<close>

definition sql_quote :: "pystr \<Rightarrow> pystr" where
  "sql_quote s = quote False s"

definition sql_nullable :: "pystr option \<Rightarrow> pystr" where
  "sql_nullable x = (case x of None \<Rightarrow> lit ''null'' | Some s \<Rightarrow> sql_quote s)"

definition sql_member :: "string \<Rightarrow> pystr \<Rightarrow> pystr" where
  "sql_member k v = [34] @ lit k @ [34, 58] @ v"

definition sql_object :: "pystr list \<Rightarrow> pystr" where
  "sql_object ms = [123] @ join [44] ms @ [125]"

definition sql_reference :: "stored_reference \<Rightarrow> price_change_fact \<Rightarrow> pystr" where
  "sql_reference r c = sql_object
     [sql_member ''change'' (sql_object
        [sql_member ''calculation_revision'' (sql_quote (lit ''PRICE_COMPARISON_V1'')),
         sql_member ''direction'' (sql_quote (direction_text (cf_direction c))),
         sql_member ''rounding_mode'' (sql_quote (lit ''ROUND_HALF_UP'')),
         sql_member ''signed_difference'' (sql_nullable (map_option plain_decimal_text (cf_signed_difference c))),
         sql_member ''signed_percentage'' (sql_nullable (map_option plain_decimal_text (cf_signed_percentage c)))]),
      sql_member ''period'' (sql_quote (period_text (sr_period r))),
      sql_member ''reference_date_status'' (sql_quote (reference_date_status_text (sr_reference_date_status r))),
      sql_member ''source_reference_date'' (sql_nullable (map_option date_isoformat (sr_source_reference_date r))),
      sql_member ''unavailable_reason'' (sql_nullable (sr_unavailable_reason r)),
      sql_member ''value'' (sql_nullable (map_option plain_decimal_text (sr_value r))),
      sql_member ''value_status'' (sql_quote (value_status_text (sr_value_status r)))]"

text \<open>The references joined with their change facts, in the order of the periods.\<close>

definition period_rank :: "comparison_period \<Rightarrow> nat" where
  "period_rank p = (case p of WEEK \<Rightarrow> 1 | MONTH \<Rightarrow> 2 | YEAR \<Rightarrow> 3)"

definition sql_references :: "uuid \<Rightarrow> 'a price_db_scheme \<Rightarrow> (stored_reference \<times> price_change_fact) list" where
  "sql_references k db =
     sort_key (\<lambda>(r, c). period_rank (sr_period r))
       (concat (map (\<lambda>r. map (Pair r) (filter (\<lambda>c. cf_reference_price c = sr_id r) (db_changes db)))
          (references_of k db)))"

text \<open>
  \<open>to_char(_, 'YYYY-MM-DD"T"HH24:MI:SS')\<close> in UTC, the fraction unless it is zero, and the offset.
  \<open>extract(microseconds ...)\<close> is the seconds field with its fraction, a multiple of a million here.
\<close>

definition sql_microseconds :: "instant \<Rightarrow> nat" where
  "sql_microseconds t = nat (t mod 60) * 1000000"

definition sql_timestamp_text :: "instant \<Rightarrow> pystr" where
  "sql_timestamp_text t =
     (let s = nat (t mod 86400); fraction = sql_microseconds t mod 1000000 in
      date_isoformat (fromordinal (nat (719163 + t div 86400))) @ lit ''T''
      @ join [58] (map (\<lambda>n. pad_left 2 (nat_text n)) [s div 3600, s mod 3600 div 60, s mod 60])
      @ (if fraction = 0 then [] else [46] @ pad_left 6 (nat_text fraction))
      @ lit ''+00:00'')"

definition sql_fact :: "price_series_key \<Rightarrow> retail_price_snapshot \<Rightarrow> pystr list \<Rightarrow> pystr" where
  "sql_fact x s references = (let i = ser_identity x; f = ser_reviewed x in sql_object
     [sql_member ''entry_hash_version'' (sql_quote (lit ''recent-retail-entry-v1'')),
      sql_member ''references'' ([91] @ join [44] references @ [93]),
      sql_member ''series'' (sql_object
        [sql_member ''category_code'' (sql_quote (si_category_code i)),
         sql_member ''category_name'' (sql_quote (rf_category_name f)),
         sql_member ''coverage_identity'' (sql_quote (si_coverage_identity i)),
         sql_member ''grade_code'' (sql_quote (si_grade_code i)),
         sql_member ''grade_name'' (sql_quote (rf_grade_name f)),
         sql_member ''identity_evidence_revision'' (sql_quote (rf_identity_evidence_revision f)),
         sql_member ''item_code'' (sql_quote (si_item_code i)),
         sql_member ''item_name'' (sql_quote (rf_item_name f)),
         sql_member ''product_class_code'' (sql_quote (si_product_class_code i)),
         sql_member ''product_class_name'' (sql_quote (rf_product_class_name f)),
         sql_member ''raw_unit'' (sql_quote (si_raw_unit i)),
         sql_member ''raw_unit_size'' (sql_quote (si_raw_unit_size i)),
         sql_member ''variety_code'' (sql_quote (si_variety_code i)),
         sql_member ''variety_name'' (sql_quote (rf_variety_name f))]),
      sql_member ''snapshot'' (sql_object
        [sql_member ''currency'' (sql_quote (lit ''KRW'')),
         sql_member ''current_price'' (sql_quote (plain_decimal_text (sn_current_price s))),
         sql_member ''source_contract_revision'' (sql_quote (sn_source_contract_revision s)),
         sql_member ''source_effective_date'' (sql_quote (date_isoformat (sn_source_effective_date s))),
         sql_member ''source_recorded_at'' (sql_nullable (map_option sql_timestamp_text (sn_source_recorded_at s))),
         sql_member ''source_row_sha256'' (sql_quote (sn_source_row_sha256 s))])])"

text \<open>\<open>None\<close> is \<open>NULL\<close>: no such snapshot, or no reference with a change fact.\<close>

definition sql_snapshot_fact_sha256 :: "uuid \<Rightarrow> 'a price_db_scheme \<Rightarrow> pystr option" where
  "sql_snapshot_fact_sha256 k db =
     (case get_row sn_id k (db_snapshots db) of
        None \<Rightarrow> None
      | Some s \<Rightarrow> (case snapshot_series db s of
          None \<Rightarrow> None
        | Some x \<Rightarrow> (let rows = sql_references k db in
            if rows = [] then None
            else map_option (\<lambda>bs. sha256 (lit ''recent-retail-entry-v1'' @ [10] @ bs))
                   (utf8 (sql_fact x s (map (\<lambda>(r, c). sql_reference r c) rows))))))"

section \<open>Both hashes agree\<close>

lemma sort_key_sorted: "mset xs = mset ys \<Longrightarrow> sorted (map k ys) \<Longrightarrow> distinct (map k ys) \<Longrightarrow> sort_key k xs = ys"
  by (metis mset_eq_imp_distinct_iff mset_map sort_key_id_if_sorted sort_key_mset_cong)

definition plain_key :: "string \<Rightarrow> bool" where
  "plain_key k \<longleftrightarrow> list_all (\<lambda>c. 32 \<le> c \<and> c \<noteq> 34 \<and> c \<noteq> 92) (lit k)"

lemma quote_plain: "plain_key k \<Longrightarrow> quote False (lit k) = [34] @ lit k @ [34]"
proof -
  assume "plain_key k"
  then have "\<forall>c \<in> set (lit k). escape_char False c = [c]"
    by (auto simp: plain_key_def list_all_iff escape_char_def)
  then have "concat (map (escape_char False) (lit k)) = concat (map (\<lambda>c. [c]) (lit k))"
    by (metis map_cong)
  then show ?thesis by (simp add: quote_def)
qed

text \<open>An object with plain keys, written member by member in the order of its keys.\<close>

lemma dumps_members:
  assumes "mset kvs = mset (map (\<lambda>(k, v). (lit k, v)) ms)" and "sorted (map (\<lambda>(k, v). lit k) ms)"
    and "distinct (map fst ms)" and "list_all (\<lambda>(k, v). plain_key k) ms"
  shows "dumps False (JObj kvs) = sql_object (map (\<lambda>(k, v). sql_member k (dumps False v)) ms)"
proof -
  let ?ds = "map (\<lambda>(k, v). (lit k, dumps False v)) ms"
  have "mset (map (\<lambda>(k, v). (k, dumps False v)) kvs) = mset (map (\<lambda>(k, v). (k, dumps False v)) (map (\<lambda>(k, v). (lit k, v)) ms))"
    using assms(1) by (metis mset_map)
  also have "map (\<lambda>(k, v). (k, dumps False v)) (map (\<lambda>(k, v). (lit k, v)) ms) = ?ds"
    by (simp add: comp_def case_prod_beta)
  finally have m: "mset (map (\<lambda>(k, v). (k, dumps False v)) kvs) = mset ?ds" .
  have s: "sorted (map fst ?ds)" using assms(2) by (simp add: comp_def case_prod_unfold)
  have "map fst ?ds = map lit (map fst ms)" by (simp add: comp_def case_prod_beta)
  then have "distinct (map fst ?ds)"
    using assms(3) by (simp only: distinct_map) (simp add: inj_on_def)
  then have "sort_key fst (map (\<lambda>(k, v). (k, dumps False v)) kvs) = ?ds"
    using sort_key_sorted [OF m s] by blast
  moreover have "map (\<lambda>(k, t). quote False k @ [58] @ t) ?ds = map (\<lambda>(k, v). sql_member k (dumps False v)) ms"
    using assms(4) by (auto simp: list_all_iff quote_plain sql_member_def)
  ultimately show ?thesis by (simp add: sql_object_def del: map_map)
qed

lemma dumps_nullable: "dumps False (jstr_opt x) = sql_nullable x" "dumps False (nullable_decimal_text v) = sql_nullable (map_option plain_decimal_text v)"
  by (cases x; cases v; simp add: jstr_opt_def nullable_decimal_text_def sql_nullable_def sql_quote_def)+

lemmas member_conditions = plain_key_def lit_def add_mset_commute

lemma dumps_change: "dumps False (canonical_change_data c) = sql_object
        [sql_member ''calculation_revision'' (sql_quote (lit ''PRICE_COMPARISON_V1'')),
         sql_member ''direction'' (sql_quote (direction_text (cf_direction c))),
         sql_member ''rounding_mode'' (sql_quote (lit ''ROUND_HALF_UP'')),
         sql_member ''signed_difference'' (sql_nullable (map_option plain_decimal_text (cf_signed_difference c))),
         sql_member ''signed_percentage'' (sql_nullable (map_option plain_decimal_text (cf_signed_percentage c)))]"
  unfolding canonical_change_data_def
  by (subst dumps_members [of _ "[(''calculation_revision'', JStr (lit ''PRICE_COMPARISON_V1'')),
        (''direction'', JStr (direction_text (cf_direction c))), (''rounding_mode'', JStr (lit ''ROUND_HALF_UP'')),
        (''signed_difference'', nullable_decimal_text (cf_signed_difference c)),
        (''signed_percentage'', nullable_decimal_text (cf_signed_percentage c))]"])
     (simp_all add: add_mset_commute dumps_nullable sql_quote_def, simp_all add: member_conditions)

lemma dumps_reference: "dumps False (canonical_reference_json r c) = sql_reference r c"
  unfolding canonical_reference_json_def
  by (subst dumps_members [of _ "[(''change'', canonical_change_data c), (''period'', JStr (period_text (sr_period r))),
        (''reference_date_status'', JStr (reference_date_status_text (sr_reference_date_status r))),
        (''source_reference_date'', jstr_opt (map_option date_isoformat (sr_source_reference_date r))),
        (''unavailable_reason'', jstr_opt (sr_unavailable_reason r)),
        (''value'', nullable_decimal_text (sr_value r)),
        (''value_status'', JStr (value_status_text (sr_value_status r)))]"])
     (simp_all add: add_mset_commute dumps_nullable sql_quote_def dumps_change sql_reference_def,
      simp_all add: member_conditions)

lemma dumps_series: "dumps False (canonical_series_json x) = (let i = ser_identity x; f = ser_reviewed x in sql_object
        [sql_member ''category_code'' (sql_quote (si_category_code i)),
         sql_member ''category_name'' (sql_quote (rf_category_name f)),
         sql_member ''coverage_identity'' (sql_quote (si_coverage_identity i)),
         sql_member ''grade_code'' (sql_quote (si_grade_code i)),
         sql_member ''grade_name'' (sql_quote (rf_grade_name f)),
         sql_member ''identity_evidence_revision'' (sql_quote (rf_identity_evidence_revision f)),
         sql_member ''item_code'' (sql_quote (si_item_code i)),
         sql_member ''item_name'' (sql_quote (rf_item_name f)),
         sql_member ''product_class_code'' (sql_quote (si_product_class_code i)),
         sql_member ''product_class_name'' (sql_quote (rf_product_class_name f)),
         sql_member ''raw_unit'' (sql_quote (si_raw_unit i)),
         sql_member ''raw_unit_size'' (sql_quote (si_raw_unit_size i)),
         sql_member ''variety_code'' (sql_quote (si_variety_code i)),
         sql_member ''variety_name'' (sql_quote (rf_variety_name f))])"
  unfolding canonical_series_json_def Let_def
  by (subst dumps_members [of _ "let i = ser_identity x; f = ser_reviewed x in
        [(''category_code'', JStr (si_category_code i)), (''category_name'', JStr (rf_category_name f)),
         (''coverage_identity'', JStr (si_coverage_identity i)), (''grade_code'', JStr (si_grade_code i)),
         (''grade_name'', JStr (rf_grade_name f)),
         (''identity_evidence_revision'', JStr (rf_identity_evidence_revision f)),
         (''item_code'', JStr (si_item_code i)), (''item_name'', JStr (rf_item_name f)),
         (''product_class_code'', JStr (si_product_class_code i)),
         (''product_class_name'', JStr (rf_product_class_name f)), (''raw_unit'', JStr (si_raw_unit i)),
         (''raw_unit_size'', JStr (si_raw_unit_size i)), (''variety_code'', JStr (si_variety_code i)),
         (''variety_name'', JStr (rf_variety_name f))]"])
     (simp_all add: Let_def add_mset_commute sql_quote_def, simp_all add: member_conditions)

lemma dumps_snapshot: "dumps False (canonical_snapshot_json s) = sql_object
        [sql_member ''currency'' (sql_quote (lit ''KRW'')),
         sql_member ''current_price'' (sql_quote (plain_decimal_text (sn_current_price s))),
         sql_member ''source_contract_revision'' (sql_quote (sn_source_contract_revision s)),
         sql_member ''source_effective_date'' (sql_quote (date_isoformat (sn_source_effective_date s))),
         sql_member ''source_recorded_at'' (sql_nullable (map_option instant_isoformat (sn_source_recorded_at s))),
         sql_member ''source_row_sha256'' (sql_quote (sn_source_row_sha256 s))]"
  unfolding canonical_snapshot_json_def
  by (subst dumps_members [of _ "[(''currency'', JStr (lit ''KRW'')),
        (''current_price'', JStr (plain_decimal_text (sn_current_price s))),
        (''source_contract_revision'', JStr (sn_source_contract_revision s)),
        (''source_effective_date'', JStr (date_isoformat (sn_source_effective_date s))),
        (''source_recorded_at'', jstr_opt (map_option instant_isoformat (sn_source_recorded_at s))),
        (''source_row_sha256'', JStr (sn_source_row_sha256 s))]"])
     (simp_all add: add_mset_commute dumps_nullable sql_quote_def, simp_all add: member_conditions)

lemma sql_timestamp_text_eq: "sql_timestamp_text = instant_isoformat"
proof
  fix t
  have "n mod 3600 div 60 = n div 60 mod 60" for n :: nat
    using mod_mult2_eq [of n 60 60] by (simp add: div_mult2_eq [symmetric])
  then show "sql_timestamp_text t = instant_isoformat t"
    by (simp add: sql_timestamp_text_def instant_isoformat_def sql_microseconds_def Let_def)
qed

lemma dumps_fact: "dumps False (canonical_fact_json x s js) = sql_fact x s (map (dumps False) js)"
  unfolding canonical_fact_json_def
  by (subst dumps_members [of _ "[(''entry_hash_version'', JStr ENTRY_HASH_VERSION), (''references'', JArr js),
        (''series'', canonical_series_json x), (''snapshot'', canonical_snapshot_json s)]"])
     (simp_all add: add_mset_commute dumps_series dumps_snapshot sql_quote_def sql_fact_def sql_timestamp_text_eq ENTRY_HASH_VERSION_def Let_def,
      simp_all add: member_conditions)

text \<open>The rows the join reads are those of the canonical data, in the same order.\<close>

lemma filter_unique:
  "distinct (map key xs) \<Longrightarrow> filter (\<lambda>x. key x = k) xs = (case get_row key k xs of None \<Rightarrow> [] | Some x \<Rightarrow> [x])"
proof (induction xs)
  case (Cons x xs)
  show ?case
  proof (cases "key x = k")
    case True
    then have "filter (\<lambda>x. key x = k) xs = []"
      using Cons.prems by (force simp: filter_empty_conv image_iff)
    then show ?thesis using True by simp
  next
    case False
    then show ?thesis using Cons by simp
  qed
qed simp

lemma sql_references_canonical:
  assumes "price_keys db" and "length (references_of k db) = 3"
    and "set (map sr_period (references_of k db)) = set all_periods"
    and "emap (\<lambda>p. ebind (of_option (UncaughtError ''KeyError'')
            (find (\<lambda>r. sr_period r = p) (rev (references_of k db)))) (canonical_reference_data db)) all_periods = Inr js"
  shows "map (\<lambda>(r, c). sql_reference r c) (sql_references k db) = map (dumps False) js"
    and "sql_references k db \<noteq> []"
proof -
  let ?rs = "references_of k db"
  let ?find = "\<lambda>p. find (\<lambda>r. sr_period r = p) (rev ?rs)"
  obtain w m y cw cm cy where f: "?find WEEK = Some w" "?find MONTH = Some m" "?find YEAR = Some y"
    and c: "get_row cf_reference_price (sr_id w) (db_changes db) = Some cw"
      "get_row cf_reference_price (sr_id m) (db_changes db) = Some cm"
      "get_row cf_reference_price (sr_id y) (db_changes db) = Some cy"
    and js: "js = [canonical_reference_json w cw, canonical_reference_json m cm, canonical_reference_json y cy]"
    using assms(4)
    by (auto simp: all_periods_def canonical_reference_data_def of_option_eq_Inr elim!: ebind_InrE)
  have mem: "w \<in> set ?rs" "m \<in> set ?rs" "y \<in> set ?rs" and p: "sr_period w = WEEK" "sr_period m = MONTH" "sr_period y = YEAR"
    using f [THEN find_Some_member] by auto
  have d3: "distinct [w, m, y]" using p by auto
  then have "card (set [w, m, y]) = 3" using distinct_card by force
  moreover have sub: "set [w, m, y] \<subseteq> set ?rs" using mem by simp
  moreover have "card (set ?rs) \<le> 3" using card_length [of ?rs] assms(2) by simp
  ultimately have eq: "set ?rs = set [w, m, y]" using card_subset_eq [of "set ?rs" "set [w, m, y]"] card_mono [OF _ sub] by simp
  have "distinct ?rs" using eq assms(2) \<open>card (set [w, m, y]) = 3\<close> card_distinct [of ?rs] by simp
  then have ms: "mset ?rs = mset [w, m, y]" using eq d3 by (metis set_eq_iff_mset_eq_distinct)
  let ?g = "\<lambda>r. map (Pair r) (filter (\<lambda>c. cf_reference_price c = sr_id r) (db_changes db))"
  have keys: "distinct (map cf_reference_price (db_changes db))" using assms(1) by (simp add: price_keys_def)
  have g: "?g w = [(w, cw)]" "?g m = [(m, cm)]" "?g y = [(y, cy)]"
    by (simp_all only: filter_unique [OF keys] c option.case list.map)
  have "mset (concat (map ?g ?rs)) = mset (concat (map ?g [w, m, y]))" by (rule concat_map_mset_cong [OF ms])
  then have "sql_references k db = [(w, cw), (m, cm), (y, cy)]"
    unfolding sql_references_def using g p by (intro sort_key_sorted) (simp_all add: period_rank_def)
  then show "map (\<lambda>(r, c). sql_reference r c) (sql_references k db) = map (dumps False) js"
    "sql_references k db \<noteq> []"
    by (simp_all add: js dumps_reference)
qed

text \<open>The database recomputes the hash of the service from the rows it stores.\<close>

lemma sql_hash_agrees:
  assumes "price_keys db" and "s \<in> set (db_snapshots db)" and "snapshot_fact_sha256 s db = Inr h"
  shows "sql_snapshot_fact_sha256 (sn_id s) db = Some h"
proof -
  obtain x js where x: "snapshot_series db s = Some x"
    and rs: "length (references_of (sn_id s) db) = 3" "set (map sr_period (references_of (sn_id s) db)) = set all_periods"
    and js: "emap (\<lambda>p. ebind (of_option (UncaughtError ''KeyError'')
        (find (\<lambda>r. sr_period r = p) (rev (references_of (sn_id s) db)))) (canonical_reference_data db)) all_periods = Inr js"
    and h: "canonical_fact_hash (canonical_fact_json x s js) = Some h"
    using assms(3)
    by (auto simp: snapshot_fact_sha256_def canonical_snapshot_data_def Let_def require_eq_Inr of_option_eq_Inr
             elim!: ebind_InrE)
  note refs = sql_references_canonical [OF assms(1) rs js]
  have "get_row sn_id (sn_id s) (db_snapshots db) = Some s"
    using assms(1,2) by (intro get_row_member) (simp_all add: price_keys_def)
  then show ?thesis
    using x refs h
    by (simp add: sql_snapshot_fact_sha256_def Let_def canonical_fact_hash_def dumps_fact ENTRY_HASH_VERSION_def)
qed

end
