(* ===== verification/Publication.thy ===== *)
theory Publication
  imports Publication_Facts
begin

text \<open>
  Sealing a publication (\<open>PublicationRevision\<close>, \<open>PublicationEntry\<close> and
  \<open>seal_recent_publication\<close> of \<open>grocery/models.py\<close>) with the triggers of migration 0007. The
  columns a constraint fixes to one value (channel, mode, hash version) are left out.
\<close>

section \<open>Rows\<close>

record publication_revision =
  pv_id :: uuid
  pv_review_decision :: uuid
  pv_generation :: uuid
  pv_parser_revision :: pystr
  pv_typed_fact_set_sha256 :: pystr
  pv_entry_count :: nat
  pv_source_effective_date_min :: date
  pv_source_effective_date_max :: date
  pv_public_copy_revision :: pystr
  pv_created_at :: instant
  pv_sealed_at :: "instant option"

record publication_entry =
  en_id :: uuid
  en_revision :: uuid
  en_snapshot :: uuid
  en_ordinal :: nat
  en_fact_sha256 :: pystr

record seal_db = review_db +
  db_revisions :: "publication_revision list"
  db_entries :: "publication_entry list"

section \<open>Revisions\<close>

text \<open>\<open>^[a-z0-9][a-z0-9._-]{0,63}$\<close>\<close>

definition copy_revision_text :: "pystr \<Rightarrow> bool" where
  "copy_revision_text s \<longleftrightarrow> (case s of [] \<Rightarrow> False
     | c # cs \<Rightarrow> (is_lower c \<or> is_digit c) \<and> length cs \<le> 63
         \<and> list_all (\<lambda>d. is_lower d \<or> is_digit d \<or> d \<in> {46, 95, 45}) cs)"

definition revision_fields :: "publication_revision \<Rightarrow> bool" where
  "revision_fields v \<longleftrightarrow>
     char_field 64 (pv_parser_revision v)
     \<and> char_field 64 (pv_typed_fact_set_sha256 v) \<and> sha256_validator (pv_typed_fact_set_sha256 v)
     \<and> 1 \<le> pv_entry_count v \<and> integer_field (pv_entry_count v)
     \<and> char_field 64 (pv_public_copy_revision v) \<and> dollar copy_revision_text (pv_public_copy_revision v)"

definition revision_links :: "publication_revision \<Rightarrow> 'a seal_db_scheme \<Rightarrow> bool" where
  "revision_links v db \<longleftrightarrow> pv_review_decision v \<in> set (map rd_id (db_reviews db))
     \<and> pv_generation v \<in> set (map run_id (db_runs db))"

definition revision_constraints :: "publication_revision \<Rightarrow> bool" where
  "revision_constraints v \<longleftrightarrow>
     SHA256_PATTERN (pv_typed_fact_set_sha256 v) \<and> 0 < pv_entry_count v
     \<and> pv_source_effective_date_min v \<le> pv_source_effective_date_max v
     \<and> copy_revision_text (pv_public_copy_revision v)
     \<and> (case pv_sealed_at v of None \<Rightarrow> True | Some t \<Rightarrow> pv_created_at v \<le> t)"

definition same_publication :: "publication_revision \<Rightarrow> publication_revision \<Rightarrow> bool" where
  "same_publication v w \<longleftrightarrow> pv_typed_fact_set_sha256 v = pv_typed_fact_set_sha256 w
     \<and> pv_public_copy_revision v = pv_public_copy_revision w"

text \<open>The trigger \<open>grocery_publicationrevision_unsealed_insert\<close> refuses a row that is already sealed.\<close>

definition save_revision ::
    "bool \<Rightarrow> publication_revision \<Rightarrow> 'a seal_db_scheme \<Rightarrow> db_error + 'a seal_db_scheme" where
  "save_revision adding v db =
     ebind (require adding (ValidationError ''Publication revisions are immutable after construction.'')) (\<lambda>_.
     ebind (require (revision_fields v \<and> revision_links v db \<and> pv_id v \<notin> set (map pv_id (db_revisions db))
              \<and> \<not> list_ex (same_publication v) (db_revisions db) \<and> revision_constraints v)
              (FullClean ''PublicationRevision'')) (\<lambda>_.
     ebind (require (pv_sealed_at v = None) (IntegrityError ''PublicationRevision'')) (\<lambda>_.
     Inr (db\<lparr>db_revisions := db_revisions db @ [v]\<rparr>))))"

section \<open>Entries\<close>

definition entry_fields :: "publication_entry \<Rightarrow> bool" where
  "entry_fields e \<longleftrightarrow> 1 \<le> en_ordinal e \<and> integer_field (en_ordinal e)
     \<and> char_field 64 (en_fact_sha256 e) \<and> sha256_validator (en_fact_sha256 e)"

definition entry_constraints :: "publication_entry \<Rightarrow> bool" where
  "entry_constraints e \<longleftrightarrow> 0 < en_ordinal e \<and> SHA256_PATTERN (en_fact_sha256 e)"

definition entry_clean :: "publication_entry \<Rightarrow> 'a seal_db_scheme \<Rightarrow> db_error + unit" where
  "entry_clean e db =
     ebind (of_option (DoesNotExist ''PublicationRevision'') (get_row pv_id (en_revision e) (db_revisions db))) (\<lambda>v.
     ebind (require (pv_sealed_at v = None)
              (ValidationError ''Publication entries can only be added before sealing.'')) (\<lambda>_.
     ebind (of_option (DoesNotExist ''RetailPriceSnapshot'') (get_row sn_id (en_snapshot e) (db_snapshots db))) (\<lambda>s.
     require (sn_parse_run s = pv_generation v)
       (ValidationError ''Publication entries must belong to the revision generation.''))))"

definition entry_unique :: "publication_entry \<Rightarrow> publication_entry list \<Rightarrow> bool" where
  "entry_unique e rows \<longleftrightarrow> en_id e \<notin> set (map en_id rows)
     \<and> \<not> list_ex (\<lambda>x. en_revision x = en_revision e
           \<and> (en_ordinal x = en_ordinal e \<or> en_snapshot x = en_snapshot e)) rows"

text \<open>\<open>grocery_publicationentry_validate_insert\<close>\<close>

definition entry_trigger :: "publication_entry \<Rightarrow> 'a seal_db_scheme \<Rightarrow> bool" where
  "entry_trigger e db \<longleftrightarrow>
     (case (get_row pv_id (en_revision e) (db_revisions db), get_row sn_id (en_snapshot e) (db_snapshots db)) of
        (Some v, Some s) \<Rightarrow> pv_sealed_at v = None \<and> sn_parse_run s = pv_generation v
          \<and> sql_snapshot_fact_sha256 (en_snapshot e) db = Some (en_fact_sha256 e)
      | _ \<Rightarrow> False)"

definition save_entry ::
    "bool \<Rightarrow> publication_entry \<Rightarrow> 'a seal_db_scheme \<Rightarrow> db_error + 'a seal_db_scheme" where
  "save_entry adding e db =
     ebind (require adding (ValidationError ''Publication entries are immutable.'')) (\<lambda>_.
     ebind (require (entry_fields e \<and> en_revision e \<in> set (map pv_id (db_revisions db))
              \<and> en_snapshot e \<in> set (map sn_id (db_snapshots db)) \<and> succeeds (entry_clean e db)
              \<and> entry_unique e (db_entries db) \<and> entry_constraints e) (FullClean ''PublicationEntry'')) (\<lambda>_.
     ebind (require (entry_trigger e db) (IntegrityError ''PublicationEntry'')) (\<lambda>_.
     Inr (db\<lparr>db_entries := db_entries db @ [e]\<rparr>))))"

section \<open>The seal\<close>

definition entries_of :: "uuid \<Rightarrow> 'a seal_db_scheme \<Rightarrow> publication_entry list" where
  "entries_of k db = filter (\<lambda>e. en_revision e = k) (db_entries db)"

definition entries_in_order :: "uuid \<Rightarrow> 'a seal_db_scheme \<Rightarrow> publication_entry list" where
  "entries_in_order k db = sort_key en_ordinal (entries_of k db)"

text \<open>The entries joined with their snapshots, and with the series of these.\<close>

definition entry_snapshots :: "uuid \<Rightarrow> 'a seal_db_scheme \<Rightarrow> retail_price_snapshot list" where
  "entry_snapshots k db = List.map_filter (\<lambda>e. get_row sn_id (en_snapshot e) (db_snapshots db)) (entries_of k db)"

definition entry_series :: "uuid \<Rightarrow> 'a seal_db_scheme \<Rightarrow> price_series_key list" where
  "entry_series k db = List.map_filter (snapshot_series db) (entry_snapshots k db)"

text \<open>\<open>grocery_publicationrevision_validate_seal\<close>, check by check.\<close>

definition seal_decision_ok :: "publication_revision \<Rightarrow> 'a seal_db_scheme \<Rightarrow> bool" where
  "seal_decision_ok new db \<longleftrightarrow>
     (case get_row rd_id (pv_review_decision new) (db_reviews db) of
        None \<Rightarrow> False
      | Some d \<Rightarrow>
          rd_decision d = APPROVE \<and> rd_parse_run d = pv_generation new
          \<and> rd_approved_mode d = lit ''RECENT_COMPARISON''
          \<and> \<not> list_ex (\<lambda>x. rd_supersedes x = Some (rd_id d)) (db_reviews db)
          \<and> (case get_row sc_id (rd_source_configuration d) (db_sources db) of
               None \<Rightarrow> False
             | Some source \<Rightarrow> sc_publication_mode source = RECENT_COMPARISON
                 \<and> rd_approved_coverage_identity d = sc_coverage_identity source
                 \<and> rd_approved_coverage_evidence_revision d = sc_coverage_evidence_revision source)
          \<and> list_all (\<lambda>x. si_coverage_identity (ser_identity x) = rd_approved_coverage_identity d)
              (entry_series (pv_id new) db))"

definition seal_generation_ok :: "publication_revision \<Rightarrow> 'a seal_db_scheme \<Rightarrow> bool" where
  "seal_generation_ok new db \<longleftrightarrow>
     (case get_row run_id (pv_generation new) (db_runs db) of
        None \<Rightarrow> False
      | Some r \<Rightarrow> run_status r = RUN_VALIDATED \<and> run_parser_revision r = pv_parser_revision new
          \<and> run_accepted_row_count r = pv_entry_count new)
     \<and> length (snapshots_of_run (pv_generation new) db) = pv_entry_count new"

definition seal_entries_ok :: "publication_revision \<Rightarrow> 'a seal_db_scheme \<Rightarrow> bool" where
  "seal_entries_ok new db \<longleftrightarrow>
     (let entries = entries_of (pv_id new) db; ordinals = set (map en_ordinal entries);
          snapshots = entry_snapshots (pv_id new) db; dates = map sn_source_effective_date snapshots in
     length entries = pv_entry_count new
     \<and> card (set (map en_snapshot entries)) = pv_entry_count new \<and> card ordinals = pv_entry_count new
     \<and> entries \<noteq> [] \<and> Min ordinals = 1 \<and> Max ordinals = pv_entry_count new
     \<and> list_all (\<lambda>s. sn_parse_run s = pv_generation new) snapshots
     \<and> dates \<noteq> [] \<and> foldr min dates (hd dates) = pv_source_effective_date_min new
     \<and> foldr max dates (hd dates) = pv_source_effective_date_max new
     \<and> sha256 (lit ''recent-retail-fact-set-v1'' @ [10]
               @ join [10] (map en_fact_sha256 (entries_in_order (pv_id new) db))) = pv_typed_fact_set_sha256 new)"

definition seal_trigger :: "publication_revision \<Rightarrow> publication_revision \<Rightarrow> 'a seal_db_scheme \<Rightarrow> bool" where
  "seal_trigger old new db \<longleftrightarrow>
     pv_sealed_at old = None \<and> pv_sealed_at new \<noteq> None
     \<and> new\<lparr>pv_sealed_at := None\<rparr> = old\<lparr>pv_sealed_at := None\<rparr>
     \<and> seal_decision_ok new db \<and> seal_generation_ok new db \<and> seal_entries_ok new db"

text \<open>\<open>filter(pk=..., sealed_at__isnull=True).update(sealed_at=now)\<close>, which answers the number of rows.\<close>

definition update_seal :: "uuid \<Rightarrow> instant \<Rightarrow> 'a seal_db_scheme \<Rightarrow> db_error + (nat \<times> 'a seal_db_scheme)" where
  "update_seal k now db =
     (case get_row pv_id k (db_revisions db) of
        None \<Rightarrow> Inr (0, db)
      | Some old \<Rightarrow>
          if pv_sealed_at old \<noteq> None then Inr (0, db)
          else
            let new = old\<lparr>pv_sealed_at := Some now\<rparr> in
            ebind (require (seal_trigger old new db \<and> revision_constraints new)
                     (IntegrityError ''PublicationRevision'')) (\<lambda>_.
            Inr (1, db\<lparr>db_revisions := put_row pv_id new (db_revisions db)\<rparr>)))"

section \<open>Sealing\<close>

definition is_superseded :: "review_decision list \<Rightarrow> review_decision \<Rightarrow> bool" where
  "is_superseded ds d \<longleftrightarrow> list_ex (\<lambda>x. rd_supersedes x = Some (rd_id d)) ds"

text \<open>The decision must be the only one of its generation that no other supersedes.\<close>

definition require_review_tail :: "review_decision \<Rightarrow> 'a review_db_scheme \<Rightarrow> db_error + unit" where
  "require_review_tail d db =
     (let ds = filter (\<lambda>x. review_generation x = review_generation d) (db_reviews db);
          tails = filter (\<lambda>x. \<not> is_superseded ds x) ds in
     ebind (require (map rd_id tails = [rd_id d])
              (ValidationError ''Publication requires the latest review decision tail.'')) (\<lambda>_.
     require (rd_decision d = APPROVE)
       (ValidationError ''Publication requires a latest APPROVE review decision.'')))"

definition require_publication_contract ::
    "review_decision \<Rightarrow> source_configuration \<Rightarrow> parse_run \<Rightarrow> db_error + unit" where
  "require_publication_contract d source generation =
     require (\<not> (rd_parse_run d \<noteq> run_id generation
                 \<or> rd_approved_mode d \<noteq> mode_value RECENT_COMPARISON
                 \<or> sc_publication_mode source \<noteq> RECENT_COMPARISON
                 \<or> rd_approved_mode d \<noteq> mode_value (sc_publication_mode source)
                 \<or> rd_approved_coverage_identity d \<noteq> sc_coverage_identity source
                 \<or> rd_approved_coverage_evidence_revision d \<noteq> sc_coverage_evidence_revision source
                 \<or> run_status generation \<noteq> RUN_VALIDATED \<or> run_parser_revision generation = []))
       (ValidationError ''Publication decision, generation, parser, mode, and coverage must match exactly.'')"

definition coverage_approved :: "review_decision \<Rightarrow> 'a price_db_scheme \<Rightarrow> retail_price_snapshot \<Rightarrow> bool" where
  "coverage_approved d db s \<longleftrightarrow> (case snapshot_series db s of
     None \<Rightarrow> False | Some x \<Rightarrow> si_coverage_identity (ser_identity x) = rd_approved_coverage_identity d)"

definition publication_candidate ::
    "uuid \<Rightarrow> instant \<Rightarrow> review_decision \<Rightarrow> parse_run \<Rightarrow> canonical_fact_set \<Rightarrow> pystr \<Rightarrow> publication_revision" where
  "publication_candidate k now d generation facts copy_revision =
     \<lparr>pv_id = k, pv_review_decision = rd_id d, pv_generation = run_id generation,
      pv_parser_revision = run_parser_revision generation,
      pv_typed_fact_set_sha256 = fs_typed_fact_set_sha256 facts, pv_entry_count = length (fs_entries facts),
      pv_source_effective_date_min = fs_source_effective_date_min facts,
      pv_source_effective_date_max = fs_source_effective_date_max facts,
      pv_public_copy_revision = copy_revision, pv_created_at = now, pv_sealed_at = None\<rparr>"

text \<open>Equal in every field but identifier and times.\<close>

definition same_revision_fields :: "publication_revision \<Rightarrow> publication_revision \<Rightarrow> bool" where
  "same_revision_fields v w \<longleftrightarrow>
     v\<lparr>pv_id := 0, pv_created_at := 0, pv_sealed_at := None\<rparr>
       = w\<lparr>pv_id := 0, pv_created_at := 0, pv_sealed_at := None\<rparr>"

definition stored_entry :: "publication_entry \<Rightarrow> canonical_entry" where
  "stored_entry e = \<lparr>ce_ordinal = en_ordinal e, ce_snapshot = en_snapshot e, ce_fact_sha256 = en_fact_sha256 e\<rparr>"

definition replay_publication ::
    "publication_revision \<Rightarrow> publication_revision \<Rightarrow> canonical_fact_set \<Rightarrow> 'a seal_db_scheme
      \<Rightarrow> db_error + publication_revision" where
  "replay_publication existing candidate facts db =
     ebind (require (pv_sealed_at existing \<noteq> None \<and> same_revision_fields existing candidate)
              (ValidationError ''Publication replay conflicts with stored sealed evidence.'')) (\<lambda>_.
     ebind (require (map stored_entry (entries_in_order (pv_id existing) db) = fs_entries facts)
              (ValidationError ''Publication replay conflicts with stored membership.'')) (\<lambda>_.
     Inr existing))"

fun create_entries ::
    "(nat \<Rightarrow> uuid) \<Rightarrow> uuid \<Rightarrow> canonical_entry list \<Rightarrow> 'a seal_db_scheme \<Rightarrow> db_error + 'a seal_db_scheme" where
  "create_entries ids revision [] db = Inr db"
| "create_entries ids revision (c # cs) db =
     ebind (save_entry True \<lparr>en_id = ids (ce_ordinal c), en_revision = revision, en_snapshot = ce_snapshot c,
              en_ordinal = ce_ordinal c, en_fact_sha256 = ce_fact_sha256 c\<rparr> db) (\<lambda>db'.
     create_entries ids revision cs db')"

definition create_publication ::
    "(nat \<Rightarrow> uuid) \<Rightarrow> instant \<Rightarrow> publication_revision \<Rightarrow> canonical_fact_set \<Rightarrow> 'a seal_db_scheme
      \<Rightarrow> db_error + (publication_revision \<times> 'a seal_db_scheme)" where
  "create_publication ids sealed candidate facts db =
     ebind (save_revision True candidate db) (\<lambda>db1.
     ebind (create_entries ids (pv_id candidate) (fs_entries facts) db1) (\<lambda>db2.
     ebind (update_seal (pv_id candidate) sealed db2) (\<lambda>(updated, db3).
     ebind (require (updated = 1)
              (ValidationError ''Publication seal transition did not affect exactly one revision.'')) (\<lambda>_.
     ebind (of_option (DoesNotExist ''PublicationRevision'') (get_row pv_id (pv_id candidate) (db_revisions db3))) (\<lambda>v.
     Inr (v, db3))))))"

text \<open>
  \<open>ids 0\<close> is drawn for the revision, \<open>ids n\<close> for entry \<open>n\<close>; the two times are those read when
  the revision is inserted and when it is sealed.
\<close>

definition seal_recent_publication ::
    "(nat \<Rightarrow> uuid) \<Rightarrow> instant \<Rightarrow> instant \<Rightarrow> uuid \<Rightarrow> pystr \<Rightarrow> 'a seal_db_scheme
      \<Rightarrow> db_error + (publication_revision \<times> 'a seal_db_scheme)" where
  "seal_recent_publication ids created sealed decision_id copy_revision db =
     ebind (of_option (DoesNotExist ''ReviewDecision'') (get_row rd_id decision_id (db_reviews db))) (\<lambda>d.
     ebind (require_review_tail d db) (\<lambda>_.
     ebind (of_option (DoesNotExist ''SourceConfiguration'')
              (get_row sc_id (rd_source_configuration d) (db_sources db))) (\<lambda>source.
     ebind (of_option (DoesNotExist ''ParseRun'') (get_row run_id (rd_parse_run d) (db_runs db))) (\<lambda>generation.
     ebind (require_publication_contract d source generation) (\<lambda>_.
     let snapshots = snapshots_of_run (run_id generation) db in
     ebind (require (length snapshots = run_accepted_row_count generation)
              (ValidationError ''Publication membership must equal the accepted generation count.'')) (\<lambda>_.
     ebind (require (list_all (coverage_approved d db) snapshots)
              (ValidationError ''Publication snapshot coverage must match the approved coverage.'')) (\<lambda>_.
     ebind (build_publication_fact_set snapshots db) (\<lambda>facts.
     let candidate = publication_candidate (ids 0) created d generation facts copy_revision in
     ebind (require (revision_fields candidate \<and> revision_links candidate db)
              (FullClean ''PublicationRevision'')) (\<lambda>_.
     (case find (same_publication candidate) (db_revisions db) of
        Some existing \<Rightarrow> ebind (replay_publication existing candidate facts db) (\<lambda>v. Inr (v, db))
      | None \<Rightarrow> create_publication ids sealed candidate facts db))))))))))"

end
