(* ===== verification/Activation.thy ===== *)
theory Activation
  imports Publication
begin

text \<open>
  The current pointer of the recent channel and its append-only events (\<open>PublicationChannel\<close>,
  \<open>PublicationActivation\<close> and \<open>transition_recent_publication\<close> of \<open>grocery/models.py\<close>), with
  the triggers of migration 0008 that guard both tables. The table of channels has at most the one
  row of \<open>RECENT_RETAIL\<close>. The transaction setting \<open>grocery.publication_transition_id\<close> is the
  argument \<open>capability\<close> of the triggers.
\<close>

section \<open>Rows\<close>

datatype publication_operation = ACTIVATE | ROLLBACK | WITHDRAW

record publication_channel =
  ch_current_revision :: "uuid option"
  ch_version :: nat

record publication_activation =
  pa_id :: uuid
  pa_operation :: publication_operation
  pa_sequence :: nat
  pa_previous_revision :: "uuid option"
  pa_target_revision :: "uuid option"
  pa_publisher :: user
  pa_reason_code :: pystr
  pa_acceptance_evidence_sha256 :: pystr
  pa_created_at :: instant

record publication_db = seal_db +
  db_channel :: "publication_channel option"
  db_activations :: "publication_activation list"

definition channel_constraints :: "publication_channel \<Rightarrow> bool" where
  "channel_constraints c \<longleftrightarrow> (ch_version c = 0 \<and> ch_current_revision c = None \<or> 0 < ch_version c)
     \<and> big_field (ch_version c)"

definition activation_fields :: "publication_activation \<Rightarrow> bool" where
  "activation_fields a \<longleftrightarrow> 1 \<le> pa_sequence a \<and> big_field (pa_sequence a)
     \<and> char_field 64 (pa_reason_code a) \<and> code_validator (pa_reason_code a)
     \<and> char_field 64 (pa_acceptance_evidence_sha256 a) \<and> sha256_validator (pa_acceptance_evidence_sha256 a)"

definition revision_exists :: "uuid option \<Rightarrow> 'a seal_db_scheme \<Rightarrow> bool" where
  "revision_exists k db \<longleftrightarrow> (case k of None \<Rightarrow> True | Some v \<Rightarrow> v \<in> set (map pv_id (db_revisions db)))"

definition activation_constraints :: "publication_activation \<Rightarrow> bool" where
  "activation_constraints a \<longleftrightarrow> 0 < pa_sequence a \<and> upper_code (pa_reason_code a)
     \<and> SHA256_PATTERN (pa_acceptance_evidence_sha256 a)
     \<and> (pa_operation a = WITHDRAW \<longleftrightarrow> pa_target_revision a = None)"

definition activation_unique :: "publication_activation \<Rightarrow> publication_activation list \<Rightarrow> bool" where
  "activation_unique a rows \<longleftrightarrow> pa_id a \<notin> set (map pa_id rows) \<and> pa_sequence a \<notin> set (map pa_sequence rows)"

section \<open>Database triggers\<close>

text \<open>A revision that is sealed and whose approval is not superseded.\<close>

definition target_approved :: "uuid \<Rightarrow> 'a seal_db_scheme \<Rightarrow> bool" where
  "target_approved k db \<longleftrightarrow>
     (case get_row pv_id k (db_revisions db) of
        None \<Rightarrow> False
      | Some v \<Rightarrow> pv_sealed_at v \<noteq> None
          \<and> (case get_row rd_id (pv_review_decision v) (db_reviews db) of
               None \<Rightarrow> False
             | Some d \<Rightarrow> rd_decision d = APPROVE
                 \<and> \<not> list_ex (\<lambda>x. rd_supersedes x = Some (rd_id d)) (db_reviews db)))"

text \<open>\<open>grocery_publicationactivation_validate_insert\<close>\<close>

definition activation_trigger :: "uuid option \<Rightarrow> publication_activation \<Rightarrow> 'a publication_db_scheme \<Rightarrow> bool" where
  "activation_trigger capability a db \<longleftrightarrow>
     capability = Some (pa_id a)
     \<and> (case db_channel db of
          None \<Rightarrow> False
        | Some c \<Rightarrow> pa_sequence a = ch_version c + 1 \<and> pa_previous_revision a = ch_current_revision c)
     \<and> (if pa_operation a = WITHDRAW
        then pa_target_revision a = None \<and> pa_previous_revision a \<noteq> None
        else (case pa_target_revision a of
                None \<Rightarrow> False
              | Some k \<Rightarrow> pa_previous_revision a \<noteq> Some k \<and> target_approved k db
                  \<and> (pa_operation a = ROLLBACK \<longrightarrow>
                       list_ex (\<lambda>x. pa_sequence x < pa_sequence a \<and> pa_operation x \<in> {ACTIVATE, ROLLBACK}
                         \<and> pa_target_revision x = Some k) (db_activations db))))"

text \<open>\<open>grocery_publicationchannel_guard_mutation\<close> on an insert and on an update.\<close>

definition channel_insert_guard :: "uuid option \<Rightarrow> publication_channel \<Rightarrow> bool" where
  "channel_insert_guard capability c \<longleftrightarrow>
     capability \<noteq> None \<and> ch_current_revision c = None \<and> ch_version c = 0"

definition channel_update_guard ::
    "uuid option \<Rightarrow> publication_channel \<Rightarrow> publication_channel \<Rightarrow> 'a publication_db_scheme \<Rightarrow> bool" where
  "channel_update_guard capability old new db \<longleftrightarrow>
     capability \<noteq> None \<and> ch_version new = ch_version old + 1
     \<and> list_ex (\<lambda>a. Some (pa_id a) = capability \<and> pa_sequence a = ch_version new
          \<and> pa_previous_revision a = ch_current_revision old
          \<and> pa_target_revision a = ch_current_revision new) (db_activations db)"

text \<open>
  \<open>grocery_publication_assert_channel_state\<close>, the deferred check at commit: sequences count the
  events, the pointer is the latest target and every event starts where the one before it ended.
\<close>

definition latest_target :: "publication_activation list \<Rightarrow> uuid option" where
  "latest_target events = pa_target_revision (last (sort_key pa_sequence events))"

definition channel_state_consistent :: "'a publication_db_scheme \<Rightarrow> bool" where
  "channel_state_consistent db \<longleftrightarrow>
     (case db_channel db of
        None \<Rightarrow> False
      | Some c \<Rightarrow> (let events = db_activations db in
          if events = [] then ch_version c = 0 \<and> ch_current_revision c = None
          else ch_version c = Max (set (map pa_sequence events))
            \<and> Max (set (map pa_sequence events)) = length events
            \<and> ch_current_revision c = latest_target events
            \<and> list_all (\<lambda>a.
                \<not> (pa_sequence a = 1 \<and> pa_previous_revision a \<noteq> None)
                \<and> (pa_sequence a > 1 \<longrightarrow>
                     list_ex (\<lambda>b. pa_sequence b = pa_sequence a - 1) events
                     \<and> list_all (\<lambda>b. pa_sequence b = pa_sequence a - 1 \<longrightarrow>
                         pa_previous_revision a = pa_target_revision b) events)) events))"

section \<open>Writes\<close>

definition save_activation ::
    "(user \<Rightarrow> bool) \<Rightarrow> uuid option \<Rightarrow> bool \<Rightarrow> bool \<Rightarrow> publication_activation \<Rightarrow> 'a publication_db_scheme
      \<Rightarrow> db_error + 'a publication_db_scheme" where
  "save_activation users capability adding transition_write a db =
     ebind (require adding (ValidationError ''Publication activations are append-only.'')) (\<lambda>_.
     ebind (require transition_write
              (ValidationError ''Publication activations can only be added by the transition service.'')) (\<lambda>_.
     ebind (require (activation_fields a \<and> users (pa_publisher a) \<and> db_channel db \<noteq> None
              \<and> revision_exists (pa_previous_revision a) db \<and> revision_exists (pa_target_revision a) db
              \<and> activation_unique a (db_activations db) \<and> activation_constraints a)
              (FullClean ''PublicationActivation'')) (\<lambda>_.
     ebind (require (activation_trigger capability a db) (IntegrityError ''PublicationActivation'')) (\<lambda>_.
     Inr (db\<lparr>db_activations := db_activations db @ [a]\<rparr>)))))"

text \<open>\<open>bulk_create(..., ignore_conflicts=True)\<close>: an existing row is left as it is.\<close>

definition bootstrap_recent_publication_channel ::
    "uuid option \<Rightarrow> 'a publication_db_scheme \<Rightarrow> db_error + 'a publication_db_scheme" where
  "bootstrap_recent_publication_channel capability db =
     (let c = \<lparr>ch_current_revision = None, ch_version = 0\<rparr> in
     ebind (require (channel_insert_guard capability c \<and> channel_constraints c)
              (IntegrityError ''PublicationChannel'')) (\<lambda>_.
     Inr (if db_channel db = None then db\<lparr>db_channel := Some c\<rparr> else db)))"

definition update_recent_publication_pointer ::
    "uuid option \<Rightarrow> uuid option \<Rightarrow> nat \<Rightarrow> uuid option \<Rightarrow> 'a publication_db_scheme
      \<Rightarrow> db_error + (nat \<times> 'a publication_db_scheme)" where
  "update_recent_publication_pointer capability expected_current expected_version target db =
     (case db_channel db of
        None \<Rightarrow> Inr (0, db)
      | Some old \<Rightarrow>
          if ch_current_revision old = expected_current \<and> ch_version old = expected_version
          then
            let new = \<lparr>ch_current_revision = target, ch_version = expected_version + 1\<rparr> in
            ebind (require (channel_update_guard capability old new db \<and> channel_constraints new
                     \<and> revision_exists target db) (IntegrityError ''PublicationChannel'')) (\<lambda>_.
            Inr (1, db\<lparr>db_channel := Some new\<rparr>))
          else Inr (0, db))"

section \<open>The transition\<close>

text \<open>
  The keyword arguments. \<open>None\<close> stands for an operation identifier that is not a \<open>UUID\<close>, for a
  version that is not an \<open>int\<close> and for an operation that is not one of the three.
\<close>

record transition_arguments =
  ta_operation_id :: "uuid option"
  ta_operation :: "publication_operation option"
  ta_target_revision :: "uuid option"
  ta_expected_current_revision :: "uuid option"
  ta_expected_version :: "int option"
  ta_reason_code :: pystr
  ta_acceptance_evidence_sha256 :: pystr

definition same_activation :: "user \<Rightarrow> nat \<Rightarrow> transition_arguments \<Rightarrow> publication_activation \<Rightarrow> bool" where
  "same_activation publisher version t a \<longleftrightarrow>
     ta_operation t = Some (pa_operation a) \<and> pa_sequence a = version + 1
     \<and> pa_previous_revision a = ta_expected_current_revision t
     \<and> pa_target_revision a = ta_target_revision t \<and> pa_publisher a = publisher
     \<and> pa_reason_code a = ta_reason_code t
     \<and> pa_acceptance_evidence_sha256 a = ta_acceptance_evidence_sha256 t"

definition was_current :: "uuid \<Rightarrow> nat \<Rightarrow> publication_activation list \<Rightarrow> bool" where
  "was_current k version events \<longleftrightarrow>
     list_ex (\<lambda>x. pa_sequence x \<le> version \<and> pa_operation x \<in> {ACTIVATE, ROLLBACK}
        \<and> pa_target_revision x = Some k) events"

text \<open>The checks between the replay and the write.\<close>

definition check_transition ::
    "publication_channel \<Rightarrow> nat \<Rightarrow> transition_arguments \<Rightarrow> 'a publication_db_scheme
      \<Rightarrow> db_error + publication_operation" where
  "check_transition channel version t db =
     ebind (require (\<not> (ch_version channel \<noteq> version
                     \<or> ch_current_revision channel \<noteq> ta_expected_current_revision t))
              (ValidationError ''Publication expectation is stale.'')) (\<lambda>_.
     ebind (of_option (ValidationError ''Publication operation is invalid.'') (ta_operation t)) (\<lambda>operation.
     ebind (if operation = WITHDRAW
            then require (\<not> (ta_target_revision t \<noteq> None \<or> ch_current_revision channel = None))
                   (ValidationError ''Withdrawal requires one current revision and no target.'')
            else (case ta_target_revision t of
                    None \<Rightarrow> Inl (ValidationError ''Publication transition requires a different target revision.'')
                  | Some k \<Rightarrow>
                      ebind (require (ch_current_revision channel \<noteq> Some k)
                               (ValidationError ''Publication transition requires a different target revision.'')) (\<lambda>_.
                      ebind (require (target_approved k db)
                               (ValidationError ''Publication target must be a sealed approved revision.'')) (\<lambda>_.
                      require (\<not> (operation = ROLLBACK \<and> \<not> was_current k version (db_activations db)))
                        (ValidationError ''Rollback target was not a previously current revision.''))))) (\<lambda>_.
     Inr operation)))"

definition activation_row ::
    "uuid \<Rightarrow> publication_operation \<Rightarrow> nat \<Rightarrow> user \<Rightarrow> instant \<Rightarrow> transition_arguments \<Rightarrow> publication_activation" where
  "activation_row k operation version publisher now t =
     \<lparr>pa_id = k, pa_operation = operation, pa_sequence = version + 1,
      pa_previous_revision = ta_expected_current_revision t, pa_target_revision = ta_target_revision t,
      pa_publisher = publisher, pa_reason_code = ta_reason_code t,
      pa_acceptance_evidence_sha256 = ta_acceptance_evidence_sha256 t, pa_created_at = now\<rparr>"

text \<open>
  \<open>commit\<close> is the end of the atomic block, where the deferred triggers run if the block wrote to
  one of the two tables.
\<close>

definition commit :: "bool \<Rightarrow> 'a publication_db_scheme \<Rightarrow> db_error + unit" where
  "commit written db =
     require (\<not> (written \<and> \<not> channel_state_consistent db)) (IntegrityError ''PublicationActivation'')"

definition transition_recent_publication ::
    "(user \<Rightarrow> bool) \<Rightarrow> instant \<Rightarrow> actor \<Rightarrow> transition_arguments \<Rightarrow> 'a publication_db_scheme
      \<Rightarrow> db_error + (publication_activation \<times> bool \<times> 'a publication_db_scheme)" where
  "transition_recent_publication users now actor t db =
     ebind (of_option (PermissionDenied ''An active publisher with publish_publication permission is required.'')
              (authorized ''grocery.publish_publication'' actor)) (\<lambda>publisher.
     ebind (of_option (ValidationError ''Publication operation ID must be a UUID.'') (ta_operation_id t)) (\<lambda>k.
     ebind (of_option (ValidationError ''Expected publication version must be a non-negative integer.'')
              (case ta_expected_version t of
                 None \<Rightarrow> None | Some i \<Rightarrow> if i < 0 then None else Some (nat i))) (\<lambda>version.
     ebind (bootstrap_recent_publication_channel (Some k) db) (\<lambda>db1.
     ebind (of_option (DoesNotExist ''PublicationChannel'') (db_channel db1)) (\<lambda>channel.
     (case get_row pa_id k (db_activations db1) of
        Some existing \<Rightarrow>
          ebind (require (same_activation publisher version t existing)
                   (ValidationError ''Publication operation UUID conflicts with stored evidence.'')) (\<lambda>_.
          ebind (commit (db_channel db = None) db1) (\<lambda>_.
          Inr (existing, False, db1)))
      | None \<Rightarrow>
          ebind (check_transition channel version t db1) (\<lambda>operation.
          let a = activation_row k operation version publisher now t in
          ebind (save_activation users (Some k) True True a db1) (\<lambda>db2.
          ebind (update_recent_publication_pointer (Some k) (ta_expected_current_revision t) version
                   (ta_target_revision t) db2) (\<lambda>(updated, db3).
          ebind (require (updated = 1)
                   (ValidationError ''Publication pointer transition did not affect exactly one channel.'')) (\<lambda>_.
          ebind (commit True db3) (\<lambda>_. Inr (a, True, db3)))))))))))) "

end
