(* ===== verification/Kamis_Parser_Examples.thy ===== *)
theory Kamis_Parser_Examples
  imports Kamis_Parser
begin

text \<open>
  Concrete rows of the recent source: one row of a reviewed series (cabbage), the same row in a
  category out of scope, and malformed variants. They instantiate the theorems on the parser and
  show which errors leave the contract of its module.
\<close>

definition example_registry :: exact_identity_registry where
  "example_registry =
     \<lparr>reg_item_names = ITEM_NAMES, reg_variety_names = VARIETY_NAMES, reg_grade_names = GRADE_NAMES,
      reg_units = UNITS,
      reg_evidence = \<lparr>ie_codebook_sha256 = OFFICIAL_DOCS_ZIP_SHA256,
        ie_unit_contract_sha256 = OFFICIAL_DOCS_ZIP_SHA256,
        ie_coverage_evidence_revision = IDENTITY_EVIDENCE_REVISION\<rparr>,
      reg_coverage_identity = KAMIS_RETAIL_COVERAGE_IDENTITY\<rparr>"

definition example_row :: row where
  "example_row =
     [(lit ''se_cd'', JStr (lit ''01'')), (lit ''se_nm'', JStr [49548, 47588]),
      (lit ''ctgry_cd'', JStr (lit ''200'')), (lit ''ctgry_nm'', JStr [52292, 49548, 47448]),
      (lit ''item_cd'', JStr (lit ''212'')), (lit ''item_nm'', JStr [50577, 48176, 52628]),
      (lit ''vrty_cd'', JStr (lit ''00'')), (lit ''vrty_nm'', JStr [50577, 48176, 52628]),
      (lit ''grd_cd'', JStr (lit ''04'')), (lit ''grd_nm'', JStr [49345, 54408]),
      (lit ''unit'', JStr [54252, 44592]), (lit ''unit_sz'', JStr (lit ''1'')),
      (lit ''exmn_ymd'', JStr (lit ''20260830'')), (lit ''exmn_dd_prc'', JStr (lit ''3500'')),
      (lit ''exmn_dd_cnvs_prc'', JStr (lit ''3500'')), (lit ''dd1_bfr_prc'', JNull),
      (lit ''dd1_bfr_cnvs_prc'', JNull), (lit ''ww1_bfr_prc'', JStr (lit ''3600'')),
      (lit ''ww1_bfr_cnvs_prc'', JNull), (lit ''mm1_bfr_prc'', JNull),
      (lit ''mm1_bfr_cnvs_prc'', JNull), (lit ''yy1_bfr_prc'', JStr (lit ''4200'')),
      (lit ''yy1_bfr_cnvs_prc'', JNull)]"

definition set_field :: "string \<Rightarrow> json \<Rightarrow> row \<Rightarrow> row" where
  "set_field f v r = map (\<lambda>(k, w). if k = lit f then (k, v) else (k, w)) r"

definition mapping_of :: "row \<Rightarrow> raw_row" where
  "mapping_of r = RowMapping (map (\<lambda>(k, v). (StrKey k, v)) r)"

text \<open>The same row with a category outside the scope of the product.\<close>

definition example_out_of_scope_row :: row where
  "example_out_of_scope_row = set_field ''ctgry_cd'' (JStr (lit ''300'')) example_row"

lemma str_keys_mapping: "str_keys (map (\<lambda>(k, v). (StrKey k, v)) r) = Some r"
  by (induction r) auto

definition example_parsed :: "pystr \<Rightarrow> parsed_retail_price_row" where
  "example_parsed h =
     \<lparr>prr_identity = \<lparr>io_product_class_code = lit ''01'', io_product_class_name = [49548, 47588],
        io_category_code = lit ''200'', io_category_name = [52292, 49548, 47448],
        io_item_code = lit ''212'', io_item_name = [50577, 48176, 52628],
        io_variety_code = lit ''00'', io_variety_name = [50577, 48176, 52628],
        io_grade_code = lit ''04'', io_grade_name = [49345, 54408],
        io_raw_unit = [54252, 44592], io_raw_unit_size = lit ''1'',
        io_coverage_identity = KAMIS_RETAIL_COVERAGE_IDENTITY\<rparr>,
      prr_source_effective_date = (2026, 8, 30), prr_current_price = Fin False 3500 0,
      prr_references =
        [\<lparr>prf_period = WEEK, prf_value_status = AVAILABLE, prf_value = Some (Fin False 3600 0),
          prf_unavailable_reason = None,
          prf_reference_date_status = SOURCE_REFERENCE_DATE_UNAVAILABLE, prf_source_reference_date = None\<rparr>,
         \<lparr>prf_period = MONTH, prf_value_status = UNAVAILABLE, prf_value = None,
          prf_unavailable_reason = Some (lit ''SOURCE_VALUE_MISSING''),
          prf_reference_date_status = SOURCE_REFERENCE_DATE_UNAVAILABLE, prf_source_reference_date = None\<rparr>,
         \<lparr>prf_period = YEAR, prf_value_status = AVAILABLE, prf_value = Some (Fin False 4200 0),
          prf_unavailable_reason = None,
          prf_reference_date_status = SOURCE_REFERENCE_DATE_UNAVAILABLE, prf_source_reference_date = None\<rparr>],
      prr_source_row_hash = h\<rparr>"

lemma example_shape: "validate_row_shape (map (\<lambda>(k, v). (StrKey k, v)) example_row) i = Inr example_row"
  "set (map fst example_row) = set KAMIS_RECENT_PRICE_FIELDS"
proof -
  show s: "set (map fst example_row) = set KAMIS_RECENT_PRICE_FIELDS"
    by (simp add: example_row_def KAMIS_RECENT_PRICE_FIELDS_def) blast
  then show "validate_row_shape (map (\<lambda>(k, v). (StrKey k, v)) example_row) i = Inr example_row"
    by (simp add: validate_row_shape_def str_keys_mapping)
qed

lemma example_target: "is_target_scope example_row example_registry = Inr True"
  by (simp add: is_target_scope_def row_at_def example_row_def example_registry_def UNITS_def
        KAMIS_ALLOWED_CATEGORIES_def KAMIS_RETAIL_PRODUCT_CLASS_CODE_def)

lemma example_date:
  "ebind (row_at example_row (lit ''exmn_ymd'')) (\<lambda>v. parse_effective_date v 0) = Inr (2026, 8, 30)"
  by (simp add: row_at_def example_row_def strptime_ymd_def Let_def valid_date_def days_in_month_def
        text_nat_def lit_def all_digits_def is_digit_def)

lemma example_identity: "observe_identity example_row 0 = Inr (prr_identity (example_parsed h))"
  by (simp add: observe_identity_def identity_text_def row_at_def example_row_def IDENTITY_FIELDS_def
        example_parsed_def) (simp add: lit_def strip_def is_space_def)

lemma example_identity_accepted:
  "validate_identity example_registry (prr_identity (example_parsed h)) 0 = Inr ()"
  by (simp add: validate_identity_iff example_registry_def example_parsed_def observed_series_def
        KAMIS_ALLOWED_CATEGORIES_def KAMIS_RETAIL_PRODUCT_CLASS_CODE_def
        KAMIS_RETAIL_PRODUCT_CLASS_NAME_def ITEM_NAMES_def VARIETY_NAMES_def GRADE_NAMES_def UNITS_def)

lemma price_texts: "integer_price_text (lit ''3500'')" "integer_price_text (lit ''3600'')"
  "integer_price_text (lit ''4200'')" "text_nat (lit ''3500'') = 3500" "text_nat (lit ''3600'') = 3600"
  "text_nat (lit ''4200'') = 4200"
  by (simp_all add: lit_def integer_price_text_def text_nat_def is_digit_def)

lemma example_price:
  "ebind (row_at example_row (lit ''exmn_dd_prc'')) (\<lambda>v. parse_required_price v 0 (lit ''exmn_dd_prc''))
     = Inr (Fin False 3500 0)"
  by (simp add: row_at_def example_row_def price_texts)

lemma example_references:
  "emap (row_reference example_row 0) REFERENCE_FIELDS = Inr (prr_references (example_parsed h))"
  by (simp add: row_reference_def REFERENCE_FIELDS_def row_at_def example_row_def parse_reference_def
        price_texts example_parsed_def)

lemma example_ignored:
  "eall (\<lambda>f. ebind (row_at example_row f) (\<lambda>v. validate_ignored_price v 0 f)) IGNORED_PRICE_FIELDS = Inr ()"
  by (simp add: IGNORED_PRICE_FIELDS_def row_at_def example_row_def validate_ignored_price_def price_texts)

lemma example_row_clean: "clean_json (JObj example_row)"
  by (simp add: example_row_def surrogate_def)

lemma example_item:
  "\<exists>h. item_outcome example_registry (mapping_of example_row) = Some (Inl (example_parsed h))"
proof -
  obtain h where h: "canonical_hash (JObj example_row) = Some h"
    using canonical_hash_Some [OF example_row_clean] by blast
  have "parse_row example_row 0 example_registry = Inr (example_parsed h)"
    unfolding parse_row_def
    by (simp add: example_identity [of h] example_identity_accepted [of h] example_date example_price
          example_references [of h] example_ignored canonical_hash_or_raise_def h) (simp add: example_parsed_def)
  then have "item_outcome example_registry (mapping_of example_row) = Some (Inl (example_parsed h))"
    by (simp add: item_outcome_def parse_item_def mapping_of_def example_shape example_target)
  then show ?thesis by (rule exI)
qed

lemmas example_evaluation = row_at_def set_field_def example_row_def example_out_of_scope_row_def

definition example_surrogate_row :: row where
  "example_surrogate_row = set_field ''item_nm'' (JStr [55296]) example_out_of_scope_row"

definition example_unhashable_row :: row where
  "example_unhashable_row = set_field ''ctgry_cd'' (JArr []) example_row"

lemma example_surrogate_contract:
  "validate_contract_types source_required_order OPTIONAL_PRICE_FIELDS example_surrogate_row 0 = Inr ()"
  by (simp add: validate_contract_types_def source_required_order_def KAMIS_RECENT_PRICE_FIELDS_def
        OPTIONAL_PRICE_FIELDS_def IDENTITY_FIELDS_def IGNORED_PRICE_FIELDS_def example_surrogate_row_def
        example_evaluation validate_ignored_price_def price_texts parse_reference_def)
     (simp add: lit_def strip_def is_space_def strptime_ymd_def Let_def valid_date_def
        days_in_month_def text_nat_def all_digits_def is_digit_def)

lemma example_surrogate_scope: "is_target_scope example_surrogate_row reg = Inr False"
  by (simp add: is_target_scope_def example_surrogate_row_def example_evaluation
        KAMIS_RETAIL_PRODUCT_CLASS_CODE_def KAMIS_ALLOWED_CATEGORIES_def)

lemma example_surrogate_shape:
  "validate_row_shape (map (\<lambda>(k, v). (StrKey k, v)) example_surrogate_row) i = Inr example_surrogate_row"
proof -
  have "set (map fst example_surrogate_row) = set KAMIS_RECENT_PRICE_FIELDS"
    using example_shape(2) by (simp add: example_surrogate_row_def example_out_of_scope_row_def
        set_field_def example_row_def)
  then show ?thesis by (simp add: validate_row_shape_def str_keys_mapping)
qed

lemma example_surrogate_unclean: "\<not> clean_json (JObj example_surrogate_row)"
  by (simp add: example_surrogate_row_def example_evaluation surrogate_def)

lemma example_unhashable_shape:
  "validate_row_shape (map (\<lambda>(k, v). (StrKey k, v)) example_unhashable_row) i = Inr example_unhashable_row"
proof -
  have "set (map fst example_unhashable_row) = set KAMIS_RECENT_PRICE_FIELDS"
    using example_shape(2) by (simp add: example_unhashable_row_def set_field_def example_row_def)
  then show ?thesis by (simp add: validate_row_shape_def str_keys_mapping)
qed

section \<open>Errors that leave the contract of the parser\<close>

lemma parse_loop_fails:
  assumes "parse_loop item i before seen = Inr out" and "item (i + length before) raw = Inl e"
  shows "parse_loop item i (before @ raw # after) seen = Inl e"
  using assms
proof (induction before arbitrary: i seen out)
  case (Cons b before)
  then have step: "item (Suc i + length before) raw = Inl e" by simp
  obtain x where x: "item i b = Inr x" using Cons.prems(1) by (auto simp: exc_simps)
  show ?case
  proof (cases x)
    case (Inl p)
    then have fresh: "semantic_identity_key p \<notin> set seen" using Cons.prems(1) x by (auto split: if_splits)
    then obtain out' where "parse_loop item (Suc i) before (semantic_identity_key p # seen) = Inr out'"
      using Cons.prems(1) x Inl by (auto simp: exc_simps)
    then show ?thesis using Cons.IH [OF _ step] x Inl fresh by simp
  next
    case (Inr h)
    then obtain out' where "parse_loop item (Suc i) before seen = Inr out'"
      using Cons.prems(1) x by (auto simp: exc_simps)
    then show ?thesis using Cons.IH [OF _ step] x Inr by simp
  qed
qed simp

lemma parse_fails_at:
  assumes "succeeds (parse_recent_price_rows ro oo reg (Items before))"
    and "parse_item ro oo reg (length before) raw = Inl e"
  shows "parse_recent_price_rows ro oo reg (Items (before @ raw # after)) = Inl e"
proof -
  obtain out where "parse_loop (parse_item ro oo reg) 0 before [] = Inr out"
    using assms(1) by (auto simp: parse_recent_price_rows_def succeeds_iff exc_simps)
  then show ?thesis
    using parse_loop_fails [of "parse_item ro oo reg" 0 before "[]" out raw e after] assms(2)
    by (simp add: parse_recent_price_rows_def)
qed

text \<open>
  A row whose scope cannot be looked up: a retail row whose category is a list or an object, or one
  of an allowed category whose item, variety or grade is.
\<close>

definition unhashable_scope_key :: "row \<Rightarrow> bool" where
  "unhashable_scope_key r \<longleftrightarrow>
     map_of r (lit ''se_cd'') = Some (JStr KAMIS_RETAIL_PRODUCT_CLASS_CODE)
     \<and> (\<exists>c. map_of r (lit ''ctgry_cd'') = Some c
          \<and> (\<not> hashable c
             \<or> Option.bind (jstr_text c) (map_of KAMIS_ALLOWED_CATEGORIES) \<noteq> None
               \<and> (\<exists>f \<in> {lit ''item_cd'', lit ''vrty_cd'', lit ''grd_cd''}.
                    \<exists>v. map_of r f = Some v \<and> \<not> hashable v)))"

lemma row_fields_present:
  assumes "validate_row_shape kvs i = Inr r" and "f \<in> set KAMIS_RECENT_PRICE_FIELDS"
  obtains v where "map_of r f = Some v"
proof -
  have "set (map fst r) = set KAMIS_RECENT_PRICE_FIELDS"
    using assms(1) by (auto simp: validate_row_shape_def split: option.split_asm if_split_asm list.split_asm)
  then have "f \<in> fst ` set r" using assms(2) by simp
  then show ?thesis using that by (metis map_of_eq_None_iff not_None_eq)
qed

lemma target_scope_unhashable:
  assumes "validate_row_shape kvs i = Inr r" and "unhashable_scope_key r"
  shows "is_target_scope r reg = Inl UnhashableTypeError"
proof -
  have f: "{lit ''item_cd'', lit ''vrty_cd'', lit ''grd_cd''} \<subseteq> set KAMIS_RECENT_PRICE_FIELDS"
    by (simp add: KAMIS_RECENT_PRICE_FIELDS_def)
  obtain it v g where "map_of r (lit ''item_cd'') = Some it" "map_of r (lit ''vrty_cd'') = Some v"
    "map_of r (lit ''grd_cd'') = Some g"
    using row_fields_present [OF assms(1)] f by (metis insert_subset)
  then show ?thesis
    using assms(2) by (auto simp: unhashable_scope_key_def is_target_scope_def row_at_def)
qed

text \<open>
  C8: two errors leave the parser without being its redacted error. After any items that parse, a
  row out of scope that passes the checks of the provider contract and has a text with a lone
  surrogate (valid JSON; a name, say, since prices and
  dates must be digits) raises the encoding error of its digest, whose object is the canonical text; and a retail row whose category
  is a list or an object, or one of an allowed category whose item, variety or grade is, raises a
  type error before any field is checked. What follows the row does not matter.
\<close>

theorem parser_raises_foreign_errors:
  assumes "succeeds (parse_recent_price_rows ro oo reg (Items before))"
    and "validate_row_shape kvs (length before) = Inr r"
  shows "(is_target_scope r reg = Inr False
      \<and> succeeds (validate_contract_types ro oo r (length before)) \<and> \<not> clean_json (JObj r)
      \<longrightarrow> parse_recent_price_rows ro oo reg (Items (before @ RowMapping kvs # after))
          = Inl UnicodeEncodeError)
    \<and> (unhashable_scope_key r
      \<longrightarrow> parse_recent_price_rows ro oo reg (Items (before @ RowMapping kvs # after))
          = Inl UnhashableTypeError)"
proof (intro conjI impI)
  assume row: "is_target_scope r reg = Inr False
      \<and> succeeds (validate_contract_types ro oo r (length before)) \<and> \<not> clean_json (JObj r)"
  then have "canonical_hash (JObj r) = None" using canonical_hash_None [of "JObj r"] by blast
  then have "parse_item ro oo reg (length before) (RowMapping kvs) = Inl UnicodeEncodeError"
    using row by (auto simp: parse_item_def assms(2) succeeds_iff canonical_hash_or_raise_def)
  then show "parse_recent_price_rows ro oo reg (Items (before @ RowMapping kvs # after))
      = Inl UnicodeEncodeError"
    by (rule parse_fails_at [OF assms(1)])
next
  assume "unhashable_scope_key r"
  then have "parse_item ro oo reg (length before) (RowMapping kvs) = Inl UnhashableTypeError"
    by (simp add: parse_item_def assms(2) target_scope_unhashable [OF assms(2)])
  then show "parse_recent_price_rows ro oo reg (Items (before @ RowMapping kvs # after))
      = Inl UnhashableTypeError"
    by (rule parse_fails_at [OF assms(1)])
qed

section \<open>A complete parse\<close>

lemma surrogate_free_nat_text [simp]: "surrogate_free (nat_text n)"
  by (rule surrogate_free_digits [OF all_digits_nat_text])

lemma surrogate_free_pad_left: "surrogate_free s \<Longrightarrow> surrogate_free (pad_left w s)"
  by (auto simp: pad_left_def surrogate_free_def surrogate_def list_all_iff split: if_splits)

lemma surrogate_free_date [simp]: "surrogate_free (date_isoformat d)"
  by (cases d) (simp add: date_isoformat_def surrogate_free_pad_left surrogate_def)

lemma clean_example_parsed:
  assumes "sha256_text h"
  shows "clean_json (row_canonical_data (example_parsed h))"
  by (simp add: row_canonical_data_def example_parsed_def Let_def reference_canonical_data_def
        jstr_opt_def surrogate_def KAMIS_RETAIL_COVERAGE_IDENTITY_def surrogate_free_sha256_text [OF assms])

lemma example_parse:
  "\<exists>res h. parse_recent_price_rows source_required_order OPTIONAL_PRICE_FIELDS example_registry
       (Items [mapping_of example_row]) = Inr res \<and> res_rows res = [example_parsed h]"
proof -
  obtain h where i: "item_outcome example_registry (mapping_of example_row) = Some (Inl (example_parsed h))"
    using example_item by blast
  then have "sha256_text h"
    using item_outcome_accepted by (fastforce simp: parsed_row_ok_def example_parsed_def)
  then have "clean_json (result_json [example_parsed h] [])"
    by (simp add: result_json_def clean_example_parsed)
  then obtain g where g: "canonical_hash (result_json [example_parsed h] []) = Some g"
    using canonical_hash_Some by blast
  let ?res = "\<lparr>res_rows = [example_parsed h], res_input_row_count = 1, res_out_of_scope_row_count = 0,
    res_out_of_scope_row_hashes = [], res_result_hash = g\<rparr>"
  have "parse_recent_price_rows source_required_order OPTIONAL_PRICE_FIELDS example_registry
      (Items [mapping_of example_row]) = Inr ?res"
    unfolding parse_recent_price_rows_iff [OF iteration_orders_source]
    by (rule exI [of _ "[Inl (example_parsed h)]"]) (simp add: g i)
  then show ?thesis by (metis parsed_recent_price_result.select_convs(1))
qed

lemma example_unhashable_scope: "unhashable_scope_key example_unhashable_row"
  by (simp add: unhashable_scope_key_def example_unhashable_row_def example_evaluation
        KAMIS_RETAIL_PRODUCT_CLASS_CODE_def)

lemma parser_raises_foreign_errors_witness:
  "parse_recent_price_rows source_required_order OPTIONAL_PRICE_FIELDS example_registry
     (Items [mapping_of example_row, mapping_of example_surrogate_row, NotMapping]) = Inl UnicodeEncodeError
   \<and> parse_recent_price_rows source_required_order OPTIONAL_PRICE_FIELDS example_registry
     (Items [mapping_of example_row, mapping_of example_unhashable_row]) = Inl UnhashableTypeError"
proof -
  have one: "succeeds (parse_recent_price_rows source_required_order OPTIONAL_PRICE_FIELDS example_registry
      (Items [mapping_of example_row]))"
    using example_parse by (auto simp: succeeds_iff)
  have surrogate: "validate_row_shape (map (\<lambda>(k, v). (StrKey k, v)) example_surrogate_row)
      (length [mapping_of example_row]) = Inr example_surrogate_row"
    by (rule example_surrogate_shape)
  have list: "validate_row_shape (map (\<lambda>(k, v). (StrKey k, v)) example_unhashable_row)
      (length [mapping_of example_row]) = Inr example_unhashable_row"
    by (rule example_unhashable_shape)
  have contract: "succeeds (validate_contract_types source_required_order OPTIONAL_PRICE_FIELDS
      example_surrogate_row (length [mapping_of example_row]))"
    using outcome_contract_types [OF iteration_orders_source iteration_orders_source, of example_surrogate_row 1 0]
    by (simp add: example_surrogate_contract outcome_eq_Some succeeds_iff)
  show ?thesis
    using parser_raises_foreign_errors [OF one surrogate, of "[NotMapping]"]
      parser_raises_foreign_errors [OF one list, of "[]"]
      example_surrogate_scope contract example_surrogate_unclean example_unhashable_scope
    by (simp add: mapping_of_def)
qed

lemma parse_recent_price_rows_reconciles_witness:
  "\<exists>res. parse_recent_price_rows source_required_order OPTIONAL_PRICE_FIELDS example_registry
       (Items [mapping_of example_row]) = Inr res
     \<and> accepted_row_count res = 1 \<and> res_out_of_scope_row_count res = 0 \<and> res_input_row_count res = 1"
proof -
  obtain res h where res: "parse_recent_price_rows source_required_order OPTIONAL_PRICE_FIELDS
      example_registry (Items [mapping_of example_row]) = Inr res" "res_rows res = [example_parsed h]"
    using example_parse by blast
  have "accepted_row_count res = 1" using res(2) by (simp add: accepted_row_count_def)
  then show ?thesis
    using res(1) parse_recent_price_rows_reconciles [OF iteration_orders_source res(1)] by auto
qed

lemma parse_recent_price_rows_order_independent_witness:
  "outcome (parse_recent_price_rows (rev source_required_order) (rev OPTIONAL_PRICE_FIELDS) example_registry
      (Items [mapping_of example_row, mapping_of example_unhashable_row]))
   = outcome (parse_recent_price_rows source_required_order OPTIONAL_PRICE_FIELDS example_registry
      (Items [mapping_of example_unhashable_row, mapping_of example_row]))"
  using iteration_orders_source
  by (intro parse_recent_price_rows_order_independent) (auto simp: iteration_orders_def)

lemma parse_recent_price_rows_fails_closed_witness:
  "\<not> succeeds (parse_recent_price_rows source_required_order OPTIONAL_PRICE_FIELDS example_registry
      (Items [mapping_of example_row, NotMapping]))"
  by (rule parse_recent_price_rows_fails_closed [OF iteration_orders_source, of NotMapping])
     (simp_all add: provider_row_def)

end
