(* ===== verification/Daily_Rows.thy ===== *)
theory Daily_Rows
  imports Kamis_Parser_Examples Generation_Contract
begin

text \<open>
  Rendering and parsing: the provider's row for a reviewed observation, a day and its prices, and
  the proof that the parser of \<open>grocery/source/kamis.py\<close> reads it back; a day that lists the ten
  reviewed series once each, in any order and among rows out of scope, is parsed completely.
\<close>

section \<open>Numerals and days\<close>

lemma text_nat_pad_left [simp]: "text_nat (pad_left w s) = text_nat s"
proof -
  have "text_nat (replicate k 48 @ s) = text_nat s" for k
    by (induction k) (simp_all add: text_nat_Cons)
  then show ?thesis by (simp add: pad_left_def)
qed

lemma length_nat_text: "0 < w \<Longrightarrow> n < 10 ^ w \<Longrightarrow> length (nat_text n) \<le> w"
proof (induction n arbitrary: w rule: nat_text.induct)
  case (1 n)
  show ?case
  proof (cases "n < 10")
    case True
    then show ?thesis using "1.prems" by (subst nat_text.simps) simp
  next
    case False
    then obtain v where v: "w = Suc v" "0 < v"
      using "1.prems" by (cases w; cases "w = 1") auto
    have "n div 10 < 10 ^ v" using "1.prems"(2) v(1) by (simp add: less_mult_imp_div_less mult.commute)
    then have "length (nat_text (n div 10)) \<le> v" using "1.IH" [OF False v(2)] by simp
    then show ?thesis using False v(1) by (subst nat_text.simps) simp
  qed
qed

lemma length_pad_left [simp]: "0 < w \<Longrightarrow> n < 10 ^ w \<Longrightarrow> length (pad_left w (nat_text n)) = w"
  using length_nat_text [of w n] by (simp add: pad_left_def)

lemma all_digits_pad_left [simp]: "all_digits (pad_left w (nat_text n))"
  using all_digits_nat_text [of n] by (auto simp: pad_left_def all_digits_def is_digit_def list_all_iff)

lemma integer_price_text_nat_text: "0 < n \<Longrightarrow> integer_price_text (nat_text n)"
proof (induction n rule: nat_text.induct)
  case (1 n)
  show ?case
  proof (cases "n < 10")
    case True
    then show ?thesis using "1.prems"
      by (subst nat_text.simps) (simp add: integer_price_text_def digit_char_def)
  next
    case False
    then have "integer_price_text (nat_text (n div 10))" using "1.IH" by simp
    then show ?thesis using False
      by (subst nat_text.simps)
         (auto simp: integer_price_text_def digit_char_def is_digit_def split: list.splits)
  qed
qed

definition ymd_text :: "date \<Rightarrow> pystr" where
  "ymd_text d = (case d of (y, m, dd) \<Rightarrow>
     pad_left 4 (nat_text y) @ pad_left 2 (nat_text m) @ pad_left 2 (nat_text dd))"

lemma ymd_text_parts:
  assumes "valid_date (y, m, dd)"
  shows "length (ymd_text (y, m, dd)) = 8" and "all_digits (ymd_text (y, m, dd))"
    and "strptime_ymd (ymd_text (y, m, dd)) = Some (y, m, dd)"
proof -
  have b: "y < 10 ^ 4" "m < 10 ^ 2" "dd < 10 ^ 2"
    using assms by (auto simp: valid_date_def days_in_month_def split: if_splits)
  show "length (ymd_text (y, m, dd)) = 8" using b by (simp add: ymd_text_def del: power_numeral)
  show "all_digits (ymd_text (y, m, dd))"
    using all_digits_pad_left [of 4 y] all_digits_pad_left [of 2 m] all_digits_pad_left [of 2 dd]
    by (simp add: ymd_text_def all_digits_def)
  show "strptime_ymd (ymd_text (y, m, dd)) = Some (y, m, dd)"
    using b assms length_pad_left [OF _ b(1)] length_pad_left [OF _ b(2)] length_pad_left [OF _ b(3)]
    by (simp add: strptime_ymd_def ymd_text_def Let_def)
qed

section \<open>The provider's row\<close>

fun price_json :: "nat option \<Rightarrow> json" where
  "price_json None = JNull"
| "price_json (Some n) = JStr (nat_text n)"

definition render_row ::
    "identity_observation \<Rightarrow> date \<Rightarrow> nat \<Rightarrow> (comparison_period \<Rightarrow> nat option) \<Rightarrow> row" where
  "render_row ob d price reference =
     [(lit ''se_cd'', JStr (io_product_class_code ob)), (lit ''se_nm'', JStr (io_product_class_name ob)),
      (lit ''ctgry_cd'', JStr (io_category_code ob)), (lit ''ctgry_nm'', JStr (io_category_name ob)),
      (lit ''item_cd'', JStr (io_item_code ob)), (lit ''item_nm'', JStr (io_item_name ob)),
      (lit ''vrty_cd'', JStr (io_variety_code ob)), (lit ''vrty_nm'', JStr (io_variety_name ob)),
      (lit ''grd_cd'', JStr (io_grade_code ob)), (lit ''grd_nm'', JStr (io_grade_name ob)),
      (lit ''unit'', JStr (io_raw_unit ob)), (lit ''unit_sz'', JStr (io_raw_unit_size ob)),
      (lit ''exmn_ymd'', JStr (ymd_text d)), (lit ''exmn_dd_prc'', JStr (nat_text price)),
      (lit ''exmn_dd_cnvs_prc'', JNull), (lit ''dd1_bfr_prc'', JNull), (lit ''dd1_bfr_cnvs_prc'', JNull),
      (lit ''ww1_bfr_prc'', price_json (reference WEEK)), (lit ''ww1_bfr_cnvs_prc'', JNull),
      (lit ''mm1_bfr_prc'', price_json (reference MONTH)), (lit ''mm1_bfr_cnvs_prc'', JNull),
      (lit ''yy1_bfr_prc'', price_json (reference YEAR)), (lit ''yy1_bfr_cnvs_prc'', JNull)]"

definition parsed_reference :: "comparison_period \<Rightarrow> nat option \<Rightarrow> parsed_reference_price" where
  "parsed_reference p v =
     \<lparr>prf_period = p, prf_value_status = (if v = None then UNAVAILABLE else AVAILABLE),
      prf_value = map_option (\<lambda>n. Fin False n 0) v,
      prf_unavailable_reason = (if v = None then Some (lit ''SOURCE_VALUE_MISSING'') else None),
      prf_reference_date_status = SOURCE_REFERENCE_DATE_UNAVAILABLE, prf_source_reference_date = None\<rparr>"

definition parsed_price_row ::
    "identity_observation \<Rightarrow> date \<Rightarrow> nat \<Rightarrow> (comparison_period \<Rightarrow> nat option) \<Rightarrow> pystr
      \<Rightarrow> parsed_retail_price_row" where
  "parsed_price_row ob d price reference h =
     \<lparr>prr_identity = ob, prr_source_effective_date = d, prr_current_price = Fin False price 0,
      prr_references = map (\<lambda>p. parsed_reference p (reference p)) all_periods,
      prr_source_row_hash = h\<rparr>"

definition observation_texts :: "identity_observation \<Rightarrow> pystr list" where
  "observation_texts ob =
     [io_product_class_code ob, io_product_class_name ob, io_category_code ob, io_category_name ob,
      io_item_code ob, io_item_name ob, io_variety_code ob, io_variety_name ob, io_grade_code ob,
      io_grade_name ob, io_raw_unit ob, io_raw_unit_size ob]"

definition plain_text :: "pystr \<Rightarrow> bool" where
  "plain_text t \<longleftrightarrow> t \<noteq> [] \<and> strip t = t \<and> surrogate_free t"

definition renderable :: "identity_observation \<Rightarrow> nat \<Rightarrow> (comparison_period \<Rightarrow> nat option) \<Rightarrow> bool" where
  "renderable ob price reference \<longleftrightarrow>
     list_all plain_text (observation_texts ob) \<and> io_coverage_identity ob = KAMIS_RETAIL_COVERAGE_IDENTITY
     \<and> 0 < price \<and> reference WEEK \<noteq> Some 0 \<and> reference MONTH \<noteq> Some 0 \<and> reference YEAR \<noteq> Some 0"

lemma render_row_shape:
  "validate_row_shape (map (\<lambda>(k, v). (StrKey k, v)) (render_row ob d price reference)) i
     = Inr (render_row ob d price reference)"
proof -
  have "set (map fst (render_row ob d price reference)) = set KAMIS_RECENT_PRICE_FIELDS"
    by (simp add: render_row_def KAMIS_RECENT_PRICE_FIELDS_def) blast
  then show ?thesis by (simp add: validate_row_shape_def str_keys_mapping)
qed

lemma render_row_fields:
  "map_of (render_row ob d price reference) (lit ''exmn_ymd'') = Some (JStr (ymd_text d))"
  "map_of (render_row ob d price reference) (lit ''exmn_dd_prc'') = Some (JStr (nat_text price))"
  "map_of (render_row ob d price reference) (lit ''ww1_bfr_prc'') = Some (price_json (reference WEEK))"
  "map_of (render_row ob d price reference) (lit ''mm1_bfr_prc'') = Some (price_json (reference MONTH))"
  "map_of (render_row ob d price reference) (lit ''yy1_bfr_prc'') = Some (price_json (reference YEAR))"
  "f \<in> set IGNORED_PRICE_FIELDS \<Longrightarrow> map_of (render_row ob d price reference) f = Some JNull"
  by (auto simp: render_row_def IGNORED_PRICE_FIELDS_def)

lemma render_row_scope:
  assumes "validate_identity reg ob i = Inr u"
  shows "is_target_scope (render_row ob d price reference) reg = Inr True"
  using assms
  by (simp add: exc_simps is_target_scope_def row_at_def render_row_def observed_series_def)

lemma render_row_identity:
  assumes "renderable ob price reference"
  shows "observe_identity (render_row ob d price reference) i = Inr ob"
  using assms
  by (simp add: observe_identity_def identity_text_def row_at_def render_row_def IDENTITY_FIELDS_def
        renderable_def observation_texts_def plain_text_def)

lemma parse_reference_rendered:
  assumes "v \<noteq> Some 0"
  shows "parse_reference p (price_json v) i f = Inr (parsed_reference p v)"
  using assms
  by (cases v) (simp_all add: parse_reference_def parsed_reference_def integer_price_text_nat_text Let_def)

lemma render_row_clean:
  assumes "renderable ob price reference"
  shows "clean_json (JObj (render_row ob d price reference))"
proof -
  have j: "clean_json (price_json v)" for v by (cases v) simp_all
  have "surrogate_free (ymd_text d)" by (cases d) (simp add: ymd_text_def surrogate_free_pad_left)
  then show ?thesis
    using assms by (simp add: render_row_def j renderable_def observation_texts_def plain_text_def)
qed

text \<open>What the parser reads back.\<close>

lemma rendered_item:
  assumes "renderable ob price reference" and "valid_date d" and "validate_identity reg ob 0 = Inr ()"
  shows "\<exists>h. item_outcome reg (mapping_of (render_row ob d price reference))
            = Some (Inl (parsed_price_row ob d price reference h))
          \<and> canonical_hash (JObj (render_row ob d price reference)) = Some h"
proof -
  let ?r = "render_row ob d price reference"
  obtain h where h: "canonical_hash (JObj ?r) = Some h"
    using canonical_hash_Some [OF render_row_clean [OF assms(1)]] by blast
  obtain y m dd where e: "d = (y, m, dd)" by (cases d)
  note date = ymd_text_parts [OF assms(2) [unfolded e], folded e]
  have refs: "emap (row_reference ?r 0) REFERENCE_FIELDS
      = Inr (map (\<lambda>p. parsed_reference p (reference p)) all_periods)"
    using assms(1)
    by (simp add: row_reference_def REFERENCE_FIELDS_def row_at_def render_row_fields
          parse_reference_rendered renderable_def all_periods_def)
  have ign: "eall (\<lambda>f. ebind (row_at ?r f) (\<lambda>v. validate_ignored_price v 0 f)) IGNORED_PRICE_FIELDS = Inr ()"
    by (simp add: exc_simps row_at_def render_row_fields validate_ignored_price_def)
  have "parse_row ?r 0 reg = Inr (parsed_price_row ob d price reference h)"
    using assms(1)
    by (simp add: parse_row_def render_row_identity [OF assms(1)] assms(3) row_at_def render_row_fields
          date refs ign [unfolded row_at_def] canonical_hash_or_raise_def h integer_price_text_nat_text renderable_def
          parsed_price_row_def)
  then show ?thesis
    by (simp add: item_outcome_def parse_item_def mapping_of_def render_row_shape
          render_row_scope [OF assms(3)] h)
qed


section \<open>The ten observations of the initial registry\<close>

definition observation_of_unit :: "series_code_key \<times> pystr \<times> pystr \<Rightarrow> identity_observation" where
  "observation_of_unit x = (case x of ((c, i, v, g), u, z) \<Rightarrow>
     \<lparr>io_product_class_code = KAMIS_RETAIL_PRODUCT_CLASS_CODE,
      io_product_class_name = KAMIS_RETAIL_PRODUCT_CLASS_NAME, io_category_code = c,
      io_category_name = the (map_of KAMIS_ALLOWED_CATEGORIES c), io_item_code = i,
      io_item_name = the (map_of ITEM_NAMES (c, i)), io_variety_code = v,
      io_variety_name = the (map_of VARIETY_NAMES (c, i, v)), io_grade_code = g,
      io_grade_name = the (map_of GRADE_NAMES (c, i, v, g)), io_raw_unit = u, io_raw_unit_size = z,
      io_coverage_identity = KAMIS_RETAIL_COVERAGE_IDENTITY\<rparr>)"

definition initial_observations :: "identity_observation list" where
  "initial_observations = map observation_of_unit UNITS"

lemma initial_observations_plain:
  "list_all (\<lambda>ob. list_all plain_text (observation_texts ob)
     \<and> io_coverage_identity ob = KAMIS_RETAIL_COVERAGE_IDENTITY) initial_observations"
  by (simp add: initial_observations_def UNITS_def observation_of_unit_def observation_texts_def
        KAMIS_ALLOWED_CATEGORIES_def ITEM_NAMES_def VARIETY_NAMES_def GRADE_NAMES_def)
     (simp add: plain_text_def strip_eq_self surrogate_free_def surrogate_def lit_def is_space_def
        KAMIS_RETAIL_PRODUCT_CLASS_CODE_def KAMIS_RETAIL_PRODUCT_CLASS_NAME_def)

lemma initial_observations_accepted:
  assumes "INITIAL_RETAIL_IDENTITY_REGISTRY = Inr reg"
  shows "accepted_observations reg = set initial_observations"
    and "distinct (map observed_series initial_observations)"
proof -
  note f = initial_registry_fields [OF assms]
  have series: "observed_series (observation_of_unit x) = fst x" for x
    by (simp add: observation_of_unit_def observed_series_def split: prod.splits)
  have m: "map observed_series initial_observations = map fst UNITS"
    by (simp add: initial_observations_def series)
  show "distinct (map observed_series initial_observations)"
    unfolding m by (simp add: UNITS_def)
  have "list_all (\<lambda>ob. map_of KAMIS_ALLOWED_CATEGORIES (io_category_code ob) = Some (io_category_name ob)
     \<and> map_of ITEM_NAMES (io_category_code ob, io_item_code ob) = Some (io_item_name ob)
     \<and> map_of VARIETY_NAMES (io_category_code ob, io_item_code ob, io_variety_code ob) = Some (io_variety_name ob)
     \<and> map_of GRADE_NAMES (observed_series ob) = Some (io_grade_name ob)
     \<and> map_of UNITS (observed_series ob) = Some (io_raw_unit ob, io_raw_unit_size ob)
     \<and> io_product_class_code ob = KAMIS_RETAIL_PRODUCT_CLASS_CODE
     \<and> io_product_class_name ob = KAMIS_RETAIL_PRODUCT_CLASS_NAME
     \<and> io_coverage_identity ob = KAMIS_RETAIL_COVERAGE_IDENTITY) initial_observations"
    by (simp add: initial_observations_def UNITS_def observation_of_unit_def observed_series_def
          KAMIS_ALLOWED_CATEGORIES_def ITEM_NAMES_def VARIETY_NAMES_def GRADE_NAMES_def)
  then have sup: "set initial_observations \<subseteq> accepted_observations reg"
    by (auto simp: accepted_observations_def exc_simps f list_all_iff)
  have sub: "ob \<in> set initial_observations" if ob: "ob \<in> accepted_observations reg" for ob
  proof -
    have "observed_series ob \<in> set (map fst UNITS)"
      using ob by (auto simp: accepted_observations_def exc_simps f dest: map_of_SomeD intro: rev_image_eqI)
    then obtain b where b: "b \<in> set initial_observations" "observed_series b = observed_series ob"
      using m by (metis (no_types, lifting) in_set_conv_nth length_map nth_map nth_mem)
    then have "b = ob"
      using ob sup by (auto simp: accepted_observations_def intro!: validate_identity_functional [of reg _ 0 _ _ 0])
    then show ?thesis using b by simp
  qed
  show "accepted_observations reg = set initial_observations" using sub sup by blast
qed


section \<open>A complete day\<close>

record price_entry =
  pe_observation :: identity_observation
  pe_price :: nat
  pe_reference :: "comparison_period \<Rightarrow> nat option"

definition entry_row :: "date \<Rightarrow> price_entry \<Rightarrow> row" where
  "entry_row d e = render_row (pe_observation e) d (pe_price e) (pe_reference e)"

definition parsed_entry :: "date \<Rightarrow> price_entry \<Rightarrow> parsed_retail_price_row" where
  "parsed_entry d e = parsed_price_row (pe_observation e) d (pe_price e) (pe_reference e)
     (the (canonical_hash (JObj (entry_row d e))))"

definition entry_ok :: "price_entry \<Rightarrow> bool" where
  "entry_ok e \<longleftrightarrow> pe_observation e \<in> set initial_observations \<and> 0 < pe_price e
     \<and> pe_reference e WEEK \<noteq> Some 0 \<and> pe_reference e MONTH \<noteq> Some 0 \<and> pe_reference e YEAR \<noteq> Some 0"

lemma entry_renderable:
  "entry_ok e \<Longrightarrow> renderable (pe_observation e) (pe_price e) (pe_reference e)"
  using initial_observations_plain by (auto simp: entry_ok_def renderable_def list_all_iff)

lemma entry_item:
  assumes "INITIAL_RETAIL_IDENTITY_REGISTRY = Inr reg" and "valid_date d" and "entry_ok e"
  shows "item_outcome reg (mapping_of (entry_row d e)) = Some (Inl (parsed_entry d e))"
proof -
  have "validate_identity reg (pe_observation e) 0 = Inr ()"
    using assms(3) initial_observations_accepted(1) [OF assms(1)]
    by (auto simp: entry_ok_def accepted_observations_def)
  then obtain h where "item_outcome reg (mapping_of (entry_row d e))
      = Some (Inl (parsed_price_row (pe_observation e) d (pe_price e) (pe_reference e) h))"
    "canonical_hash (JObj (entry_row d e)) = Some h"
    using rendered_item [OF entry_renderable [OF assms(3)] assms(2)] unfolding entry_row_def by blast
  then show ?thesis by (simp add: parsed_entry_def)
qed

lemma clean_parsed_entry:
  assumes "INITIAL_RETAIL_IDENTITY_REGISTRY = Inr reg" and "valid_date d" and "entry_ok e"
  shows "clean_json (row_canonical_data (parsed_entry d e))"
proof -
  have "parsed_row_ok reg (parsed_entry d e)"
    by (rule item_outcome_accepted [OF entry_item [OF assms]])
  then have h: "surrogate_free (prr_source_row_hash (parsed_entry d e))"
    by (simp add: parsed_row_ok_def surrogate_free_sha256_text)
  have r: "clean_json (reference_canonical_data (parsed_reference p v))" for p v
    by (cases p; cases v) (simp_all add: reference_canonical_data_def parsed_reference_def jstr_opt_def)
  have d: "surrogate_free (date_isoformat d)" by simp
  show ?thesis
    using entry_renderable [OF assms(3)] h r d
    by (simp add: row_canonical_data_def parsed_entry_def parsed_price_row_def Let_def renderable_def
          observation_texts_def plain_text_def KAMIS_RETAIL_COVERAGE_IDENTITY_def list_all_iff)
qed

lemma distinct_entry_keys:
  assumes "INITIAL_RETAIL_IDENTITY_REGISTRY = Inr reg" and "valid_date d" and "list_all entry_ok es"
    and "distinct (map (\<lambda>e. observed_series (pe_observation e)) es)"
  shows "distinct (map semantic_identity_key (map (parsed_entry d) es))"
proof -
  have "semantic_identity_key (parsed_entry d e) = key_of_series reg (observed_series (pe_observation e))"
    if "e \<in> set es" for e
    using semantic_key_accepted [OF item_outcome_accepted [OF entry_item [OF assms(1,2)]], of e] assms(3) that
    by (auto simp: list_all_iff parsed_entry_def parsed_price_row_def)
  then have "map semantic_identity_key (map (parsed_entry d) es)
      = map (key_of_series reg) (map (\<lambda>e. observed_series (pe_observation e)) es)"
    by simp
  then show ?thesis
    using assms(4) key_of_series_inj [of reg] by (metis distinct_map inj_on_subset subset_UNIV)
qed

lemma rendered_day:
  assumes "INITIAL_RETAIL_IDENTITY_REGISTRY = Inr reg" and "iteration_orders ro oo" and "valid_date d"
    and "list_all entry_ok es" and "distinct (map (\<lambda>e. observed_series (pe_observation e)) es)"
  shows "\<exists>res. parse_recent_price_rows ro oo reg (Items (map (\<lambda>e. mapping_of (entry_row d e)) es)) = Inr res
    \<and> res_rows res = sort_key semantic_identity_key (map (parsed_entry d) es)
    \<and> res_out_of_scope_row_count res = 0 \<and> res_input_row_count res = length es"
proof -
  let ?ps = "map (parsed_entry d) es"
  let ?rows = "sort_key semantic_identity_key ?ps"
  have "list_all (\<lambda>p. clean_json (row_canonical_data p)) ?rows"
    using assms(4) clean_parsed_entry [OF assms(1,3)] by (auto simp: list_all_iff)
  then have "clean_json (result_json ?rows [])" by (simp add: result_json_def list_all_iff)
  then obtain h where h: "canonical_hash (result_json ?rows []) = Some h"
    using canonical_hash_Some by blast
  let ?res = "\<lparr>res_rows = ?rows, res_input_row_count = length es, res_out_of_scope_row_count = 0,
    res_out_of_scope_row_hashes = [], res_result_hash = h\<rparr>"
  have lr: "lefts (map Inl xs) = xs" "rights (map Inl xs :: ('b + pystr) list) = []" for xs :: "'b list"
    by (induction xs) simp_all
  have "parse_recent_price_rows ro oo reg (Items (map (\<lambda>e. mapping_of (entry_row d e)) es)) = Inr ?res"
    unfolding parse_recent_price_rows_iff [OF assms(2)]
    by (rule exI [of _ "map Inl ?ps"])
       (use assms(4) entry_item [OF assms(1,3)] distinct_entry_keys [OF assms(1,3-5)] h in
         \<open>simp add: lr list_all_iff del: map_map\<close>, simp add: list_all_iff)
  then show ?thesis by (metis parsed_recent_price_result.select_convs(1-3))
qed

text \<open>
  C26: rendering and parsing. The provider's rows of distinct reviewed series on one day, in any
  order, are parsed back: the parse succeeds, finds nothing out of scope, and its rows are those
  observations with their prices, the absent references unavailable, in order of identity.
\<close>

theorem rendered_day_parses_back:
  assumes "INITIAL_RETAIL_IDENTITY_REGISTRY = Inr reg" and "iteration_orders ro oo" and "valid_date d"
    and "list_all entry_ok es" and "distinct (map (\<lambda>e. observed_series (pe_observation e)) es)"
  shows "\<exists>res. parse_recent_price_rows ro oo reg (Items (map (\<lambda>e. mapping_of (entry_row d e)) es)) = Inr res
    \<and> res_rows res = sort_key semantic_identity_key (map (parsed_entry d) es)
    \<and> res_out_of_scope_row_count res = 0 \<and> res_input_row_count res = length es"
  by (rule rendered_day [OF assms])

section \<open>One complete day\<close>

definition example_entry :: "identity_observation \<Rightarrow> price_entry" where
  "example_entry ob = \<lparr>pe_observation = ob, pe_price = 3500,
     pe_reference = (\<lambda>p. case p of WEEK \<Rightarrow> Some 3600 | MONTH \<Rightarrow> None | YEAR \<Rightarrow> Some 4200)\<rparr>"

definition example_day :: "price_entry list" where
  "example_day = map example_entry (rev initial_observations)"

definition example_day_items :: "raw_row list" where
  "example_day_items = map (\<lambda>e. mapping_of (entry_row (2026, 8, 30) e)) example_day"

lemma example_day_ok:
  assumes "INITIAL_RETAIL_IDENTITY_REGISTRY = Inr reg"
  shows "list_all entry_ok example_day"
    and "distinct (map (\<lambda>e. observed_series (pe_observation e)) example_day)"
    and "length example_day = 10" and "valid_date (2026, 8, 30)"
proof -
  show "list_all entry_ok example_day"
    by (simp add: example_day_def list_all_iff entry_ok_def example_entry_def)
  have "distinct (rev (map observed_series initial_observations))"
    using initial_observations_accepted(2) [OF assms] by (simp only: distinct_rev)
  then show "distinct (map (\<lambda>e. observed_series (pe_observation e)) example_day)"
    by (simp add: example_day_def example_entry_def comp_def rev_map)
  show "length example_day = 10" by (simp add: example_day_def initial_observations_def UNITS_def)
  show "valid_date (2026, 8, 30)" by (simp add: valid_date_def days_in_month_def)
qed

lemma example_day_parsed:
  assumes "INITIAL_RETAIL_IDENTITY_REGISTRY = Inr reg"
  shows "\<exists>res. parse_recent_price_rows source_required_order OPTIONAL_PRICE_FIELDS reg (Items example_day_items)
      = Inr res \<and> list_all storable_prices (res_rows res) \<and> length (res_rows res) = 10
      \<and> missing_reference_count res = 10"
proof -
  note ok = example_day_ok [OF assms]
  obtain res where res: "parse_recent_price_rows source_required_order OPTIONAL_PRICE_FIELDS reg
      (Items example_day_items) = Inr res"
    and rows: "res_rows res = sort_key semantic_identity_key (map (parsed_entry (2026, 8, 30)) example_day)"
    using rendered_day [OF assms iteration_orders_source ok(4,1,2)] unfolding example_day_items_def by blast
  have e: "prr_current_price p = Fin False 3500 0
      \<and> prr_references p = [parsed_reference WEEK (Some 3600), parsed_reference MONTH None, parsed_reference YEAR (Some 4200)]"
    if "p \<in> set (res_rows res)" for p
    using that
    by (auto simp: rows parsed_entry_def parsed_price_row_def example_day_def example_entry_def all_periods_def)
  have "list_all storable_prices (res_rows res)"
    using e by (simp add: list_all_iff storable_prices_def parsed_reference_def MAX_SCALE_ZERO_PRICE_def signed_def)
  moreover have "length (res_rows res) = 10" using ok(3) by (simp add: rows)
  moreover have "filter row_misses_reference (res_rows res) = res_rows res"
    using e by (simp add: row_misses_reference_def parsed_reference_def)
  ultimately show ?thesis using res by (auto simp: missing_reference_count_def)
qed

lemma example_day_validated:
  assumes "import_generation = Inr m"
  shows "\<exists>res. parse_recent_price_rows source_required_order OPTIONAL_PRICE_FIELDS (gm_registry m)
      (Items example_day_items) = Inr res
    \<and> length (res_rows res) = 10 \<and> res_input_row_count res = 10 \<and> validate_result m res = Inr 10"
proof -
  have reg: "INITIAL_RETAIL_IDENTITY_REGISTRY = Inr (gm_registry m)"
    using assms by (simp add: import_generation_Inr)
  note ok = example_day_ok [OF reg]
  obtain res where res: "parse_recent_price_rows source_required_order OPTIONAL_PRICE_FIELDS
      (gm_registry m) (Items example_day_items) = Inr res"
    "list_all storable_prices (res_rows res)" "length (res_rows res) = 10" "missing_reference_count res = 10"
    using example_day_parsed [OF reg] by blast
  have "res_input_row_count res = 10"
    using rendered_day [OF reg iteration_orders_source ok(4,1,2)] res(1) ok(3)
    unfolding example_day_items_def by auto
  then show ?thesis
    using res parsed_validated [OF assms iteration_orders_source res(1)] by simp
qed

lemma rendered_day_parses_back_witness:
  "\<exists>reg res. INITIAL_RETAIL_IDENTITY_REGISTRY = Inr reg
     \<and> parse_recent_price_rows source_required_order OPTIONAL_PRICE_FIELDS reg (Items example_day_items) = Inr res
     \<and> res_input_row_count res = 10 \<and> res_out_of_scope_row_count res = 0"
proof -
  obtain reg where reg: "INITIAL_RETAIL_IDENTITY_REGISTRY = Inr reg"
    using initial_registry_ten_observations by blast
  note ok = example_day_ok [OF reg]
  show ?thesis
    using rendered_day_parses_back [OF reg iteration_orders_source ok(4,1,2)] reg ok(3)
    unfolding example_day_items_def by auto
qed

lemma parsed_result_is_validated_witness:
  "\<exists>m res. import_generation = Inr m
     \<and> parse_recent_price_rows source_required_order OPTIONAL_PRICE_FIELDS (gm_registry m)
         (Items example_day_items) = Inr res
     \<and> validate_result m res = Inr 10"
proof -
  obtain m where m: "import_generation = Inr m" using import_generation_succeeds by blast
  then have reg: "INITIAL_RETAIL_IDENTITY_REGISTRY = Inr (gm_registry m)"
    by (simp add: import_generation_Inr)
  obtain res where res: "parse_recent_price_rows source_required_order OPTIONAL_PRICE_FIELDS
      (gm_registry m) (Items example_day_items) = Inr res"
    "list_all storable_prices (res_rows res)" "length (res_rows res) = 10" "missing_reference_count res = 10"
    using example_day_parsed [OF reg] by blast
  have "validate_result m res = Inr 10"
    using parsed_result_is_validated [OF m iteration_orders_source res(1)] res(2-4) by simp
  then show ?thesis using m res(1) by blast
qed

end
