(* ===== verification/Generation_Run.thy ===== *)
theory Generation_Run
  imports Price_Evidence Daily_Rows
begin

text \<open>
  A first completion succeeds. For one row with prices within the columns, each step of
  \<open>persist_row\<close> is computed: the references and change facts written are those of the exact
  comparison, and the tables grow by exactly these rows. The loop over the rows and the check of
  the persisted generation follow by induction.
\<close>

section \<open>Stored values\<close>

definition whole :: "nat option \<Rightarrow> decimal option" where
  "whole v = map_option (\<lambda>n. Fin False n 0) v"

definition storable :: "nat option \<Rightarrow> bool" where
  "storable v \<longleftrightarrow> (\<forall>n. v = Some n \<longrightarrow> 0 < n \<and> n \<le> 999999999999)"

lemma numeric_column_whole [simp]: "numeric_column 0 (Fin False n 0) = Fin False n 0"
  by simp

lemma numeric_column_whole_option [simp]: "map_option (numeric_column 0) (whole v) = whole v"
  by (cases v) (simp_all add: whole_def)

lemma decimal_field_whole: "n \<le> 999999999999 \<Longrightarrow> decimal_field 12 0 (Fin s n 0)"
  using num_digits_le [of 12 n] by (simp add: Let_def)

lemma at_least_one_whole [simp]: "at_least_one (Fin False n 0) \<longleftrightarrow> 0 < n"
  by (auto simp: at_least_one_def dec_of_int_def signed_def)

lemma dec_eq_whole [simp]: "dec_eq (Fin False a 0) (Fin False b 0) \<longleftrightarrow> a = b"
  by (auto simp: dec_eq_def signed_def)

lemma value_eq_whole [simp]: "value_eq (whole v) (whole w) \<longleftrightarrow> v = w"
  by (cases v; cases w) (simp_all add: whole_def)

section \<open>The exact comparison\<close>

definition exact_comparison :: "nat \<Rightarrow> comparison_period \<Rightarrow> nat option \<Rightarrow> price_comparison" where
  "exact_comparison c p v = (case v of
     None \<Rightarrow> \<lparr>pc_period = p, pc_current_value = Fin False c 0, pc_reference_value = None,
       pc_difference = None, pc_percentage = None, pc_direction = DIRECTION_UNAVAILABLE,
       pc_unavailable_reason = Some SOURCE_VALUE_MISSING,
       pc_date_status = SOURCE_REFERENCE_DATE_UNAVAILABLE, pc_date = None\<rparr>
   | Some b \<Rightarrow> \<lparr>pc_period = p, pc_current_value = Fin False c 0, pc_reference_value = Some (Fin False b 0),
       pc_difference = Some (Fin (c < b) (if c < b then b - c else c - b) 0),
       pc_percentage = Some (Fin (c < b) (tenths_of_percent c b) (- 1)),
       pc_direction = (if c < b then LOWER else if c = b then EQUAL else HIGHER),
       pc_unavailable_reason = None, pc_date_status = SOURCE_REFERENCE_DATE_UNAVAILABLE, pc_date = None\<rparr>)"

lemma exact_comparison_period [simp]: "pc_period (exact_comparison c p v) = p"
  by (simp add: exact_comparison_def split: option.split)

definition reference_row :: "uuid \<Rightarrow> uuid \<Rightarrow> comparison_period \<Rightarrow> nat option \<Rightarrow> stored_reference" where
  "reference_row new s p v = reference_candidate new s p (whole v)"

lemma reference_row_simps [simp]:
  "sr_id (reference_row new s p v) = new" "sr_snapshot (reference_row new s p v) = s"
  "sr_period (reference_row new s p v) = p" "sr_value (reference_row new s p v) = whole v"
  by (simp_all add: reference_row_def reference_candidate_def)

lemma domain_reference_row:
  assumes "storable v"
  shows "reference_price_init (domain_reference (reference_row new s p v))
           = Inr (domain_reference (reference_row new s p v))"
proof -
  have "strip SOURCE_VALUE_MISSING = SOURCE_VALUE_MISSING" "SOURCE_VALUE_MISSING \<noteq> []"
    by (simp_all add: SOURCE_VALUE_MISSING_def strip_eq_self, simp add: lit_def is_space_def)
  then show ?thesis
    using assms
    by (cases v)
       (auto simp: reference_price_init_def check_reference_value_def domain_reference_def reference_row_def
          reference_candidate_def whole_def require_positive_scale_zero_def storable_def)
qed

lemma compare_reference_row:
  assumes "storable v" and "c \<le> 999999999999"
  shows "compare_reference (Fin False c 0) (domain_reference (reference_row new s p v))
           = Inr (exact_comparison c p v)"
proof (cases v)
  case None
  then show ?thesis
    by (simp add: compare_reference_def domain_reference_def reference_row_def reference_candidate_def
          whole_def exact_comparison_def)
next
  case (Some b)
  have "compare_reference (Fin False c 0) (domain_reference (reference_row new s p v)) = Inr
    \<lparr>pc_period = p, pc_current_value = Fin False c 0, pc_reference_value = Some (Fin False b 0),
     pc_difference = Some (Fin (c < b) (if c < b then b - c else c - b) 0),
     pc_percentage = Some (Fin (c < b) (tenths_of_percent c b) (- 1)),
     pc_direction = (if c < b then LOWER else if c = b then EQUAL else HIGHER),
     pc_unavailable_reason = None, pc_date_status = SOURCE_REFERENCE_DATE_UNAVAILABLE, pc_date = None\<rparr>"
    using assms
    by (subst compare_reference_prices [where b = b])
       (simp_all add: domain_reference_def reference_row_def reference_candidate_def whole_def Some storable_def)
  then show ?thesis by (simp add: exact_comparison_def Some)
qed

section \<open>The recalculation of three stored references\<close>

type_synonym period_values = "comparison_period \<Rightarrow> nat option"

definition reference_rows :: "(nat \<Rightarrow> uuid) \<Rightarrow> uuid \<Rightarrow> period_values \<Rightarrow> stored_reference list" where
  "reference_rows new s v =
     [reference_row (new 0) s WEEK (v WEEK), reference_row (new 1) s MONTH (v MONTH),
      reference_row (new 2) s YEAR (v YEAR)]"

lemma compare_rows:
  assumes "\<forall>p. storable (v p)" and "0 < c" and "c \<le> 999999999999"
  shows "ebind (emap (\<lambda>x. reference_price_init (domain_reference x)) (reference_rows new s v)) (\<lambda>refs.
         ebind (price_snapshot_init \<lparr>ps_current_value = Fin False c 0, ps_references = refs\<rparr>) (\<lambda>s.
         compare_snapshot s))
       = Inr [exact_comparison c WEEK (v WEEK), exact_comparison c MONTH (v MONTH), exact_comparison c YEAR (v YEAR)]"
proof -
  let ?d = "\<lambda>i p. domain_reference (reference_row (new i) s p (v p))"
  let ?refs = "[?d 0 WEEK, ?d 1 MONTH, ?d 2 YEAR]"
  have p: "rp_period (?d i p) = p" for i p by (simp add: domain_reference_def)
  have "emap (\<lambda>x. reference_price_init (domain_reference x)) (reference_rows new s v) = Inr ?refs"
    using assms(1) by (simp add: reference_rows_def domain_reference_row)
  moreover have "price_snapshot_init \<lparr>ps_current_value = Fin False c 0, ps_references = ?refs\<rparr>
      = Inr \<lparr>ps_current_value = Fin False c 0, ps_references = ?refs\<rparr>"
    using assms(2) by (auto simp: price_snapshot_init_iff p all_periods_def)
  moreover have "compare_snapshot \<lparr>ps_current_value = Fin False c 0, ps_references = ?refs\<rparr>
      = Inr [exact_comparison c WEEK (v WEEK), exact_comparison c MONTH (v MONTH), exact_comparison c YEAR (v YEAR)]"
    using assms(1,3) by (simp add: compare_snapshot_def all_periods_def by_period_def p compare_reference_row)
  ultimately show ?thesis by simp
qed

lemma expected_fields_rows:
  assumes "references_of s db = reference_rows new s v"
    and "get_row sn_id s (db_snapshots db) = Some sn" and "sn_current_price sn = Fin False c 0"
    and "\<forall>p. storable (v p)" and "0 < c" and "c \<le> 999999999999" and "sr_snapshot r = s"
  shows "expected_fields r db = Inr (exact_comparison c (sr_period r) (v (sr_period r)))"
proof -
  have "set (map sr_period (reference_rows new s v)) = set all_periods" "length (reference_rows new s v) = 3"
    by (auto simp: reference_rows_def all_periods_def)
  moreover have "find (\<lambda>x. pc_period x = sr_period r)
      [exact_comparison c WEEK (v WEEK), exact_comparison c MONTH (v MONTH), exact_comparison c YEAR (v YEAR)]
      = Some (exact_comparison c (sr_period r) (v (sr_period r)))"
    by (cases "sr_period r") simp_all
  ultimately show ?thesis
    using assms(2,3) compare_rows [OF assms(4-6), of new s]
    by (simp add: expected_fields_def assms(1,7) in_calculation_def)
qed

section \<open>Writing the facts of one snapshot\<close>

lemma reference_row_clean:
  assumes "storable v"
  shows "reference_clean (reference_row new s p v) = Inr ()" and "reference_fields (reference_row new s p v)"
    and "reference_constraints (reference_row new s p v)"
  using assms
  by (cases v; auto simp: reference_clean_def reference_fields_def reference_constraints_def reference_row_def
        reference_candidate_def whole_def storable_def decimal_field_whole simp del: decimal_field.simps)+

lemma write_reference:
  assumes "storable v" and "get_row sn_id s (db_snapshots db) = Some sn"
    and "new \<notin> sr_id ` set (db_references db)"
    and "\<forall>x \<in> set (db_references db). \<not> (sr_snapshot x = s \<and> sr_period x = p)"
  shows "reference_get_or_validate (reference_row new s p v) db
    = Inr (reference_row new s p v, db\<lparr>db_references := db_references db @ [reference_row new s p v]\<rparr>)"
proof -
  have s: "s \<in> sn_id ` set (db_snapshots db)" using get_row_Some [OF assms(2)] by auto
  have n: "find (\<lambda>x. sr_snapshot x = s \<and> sr_period x = p) (db_references db) = None"
    using assms(4) by (simp add: find_None_iff)
  show ?thesis
    using assms(2-4) s n reference_row_clean [OF assms(1), of new s p]
    by (simp add: reference_get_or_validate_def reference_full_clean_def save_reference_def list_ex_iff)
qed

lemma whole_eq_None [simp]: "whole v = None \<longleftrightarrow> v = None"
  by (simp add: whole_def)

lemma tenths_of_percent_less:
  assumes "0 < b" and "b \<le> 999999999999" and "c \<le> 999999999999"
  shows "tenths_of_percent c b < 10 ^ 15"
proof -
  let ?a = "if c < b then b - c else c - b"
  have "?a \<le> 999999999999" using assms by auto
  then have "2 * (1000 * ?a) + b < 2 * b * 10 ^ 15" using assms(1,2) by auto
  then show ?thesis
    using assms(1) unfolding tenths_of_percent_def half_up_quotient_def
    by (simp add: less_mult_imp_div_less mult.commute mult.left_commute)
qed

definition change_row :: "uuid \<Rightarrow> uuid \<Rightarrow> price_comparison \<Rightarrow> price_change_fact" where
  "change_row new r e = stored_change (change_of new r e)"

lemma change_row_simps [simp]:
  "cf_id (change_row new r e) = new" "cf_reference_price (change_row new r e) = r"
  by (simp_all add: change_row_def change_of_def)

lemma change_row_fields:
  "cf_direction (change_row new r e) = pc_direction e"
  "cf_signed_difference (change_row new r e) = map_option (numeric_column 0) (pc_difference e)"
  "cf_signed_percentage (change_row new r e) = map_option (numeric_column 1) (pc_percentage e)"
  by (simp_all add: change_row_def change_of_def stored_change_def)

lemma exact_change_clean:
  assumes "storable v" and "0 < c" and "c \<le> 999999999999"
  shows "change_fields (change_of new r (exact_comparison c p v))"
    and "change_constraints (change_of new r (exact_comparison c p v))"
    and "same_change (change_of new r (exact_comparison c p v)) (exact_comparison c p v)"
proof -
  let ?x = "change_of new r (exact_comparison c p v)"
  show "change_fields ?x"
  proof (cases v)
    case (Some b)
    have b: "0 < b" "b \<le> 999999999999" using assms(1) Some by (auto simp: storable_def)
    let ?t = "tenths_of_percent c b"
    have "num_digits ?t \<le> 15" using tenths_of_percent_less [OF b assms(3)] by (intro num_digits_le) simp_all
    then have "decimal_field 16 1 (Fin (c < b) ?t (- 1))"
      using num_digits_pos [of ?t] by (auto simp: Let_def)
    moreover have "decimal_field 12 0 (Fin (c < b) (if c < b then b - c else c - b) 0)"
      using b assms(3) by (intro decimal_field_whole) auto
    ultimately show ?thesis
      by (simp add: change_fields_def change_of_def exact_comparison_def Some del: decimal_field.simps)
  qed (simp add: change_fields_def change_of_def exact_comparison_def)
  show "change_constraints ?x"
    by (cases v) (auto simp: change_constraints_def change_of_def exact_comparison_def)
  have "dec_eq (Fin s m e) (Fin s m e)" for s m e by (simp add: dec_eq_def)
  then show "same_change ?x (exact_comparison c p v)"
    by (cases v) (simp_all add: same_change_def change_of_def exact_comparison_def)
qed

text \<open>The trigger agrees with the service: it never refuses the fact of two storable prices.\<close>

lemma dec_eq_stored:
  assumes "decimal_field digits places (Fin s m e)"
  shows "dec_eq (numeric_column places (Fin s m e)) (Fin s m e)"
  using numeric_column_val [OF assms] by (metis dec_eq_val)

lemma change_trigger_accepts:
  assumes "get_row sr_id k (db_references db) = Some (reference_row i s p v)"
    and "get_row sn_id s (db_snapshots db) = Some sn" and "sn_current_price sn = Fin False c 0"
    and "storable v" and "0 < c" and "c \<le> 999999999999"
  shows "change_trigger (change_row new k (exact_comparison c p v)) db = Inr ()"
proof (cases v)
  case None
  then show ?thesis
    using assms(1,2) by (simp add: change_trigger_def change_row_fields exact_comparison_def
        reference_row_def reference_candidate_def whole_def)
next
  case (Some b)
  have b: "0 < b" "b \<le> 999999999999" using assms(4) Some by (auto simp: storable_def)
  let ?d = "Fin (c < b) (if c < b then b - c else c - b) 0" and ?t = "Fin (c < b) (tenths_of_percent c b) (- 1)"
  have "change_fields (change_of new k (exact_comparison c p v))"
    by (rule exact_change_clean(1) [OF assms(4-6)])
  then have "decimal_field 12 0 ?d" "decimal_field 16 1 ?t"
    by (simp_all add: change_fields_def change_of_def exact_comparison_def Some del: decimal_field.simps)
  then have eq: "dec_eq (numeric_column 0 ?d) ?d" "dec_eq (numeric_column 1 ?t) ?t"
    by (blast intro: dec_eq_stored)+
  show ?thesis
    using assms(1-3) eq sql_price_change_prices [OF b assms(6)]
    by (simp add: change_trigger_def change_row_fields exact_comparison_def reference_row_def
        reference_candidate_def whole_def Some del: sql_price_change.simps numeric_column.simps)
qed

lemma write_change:
  assumes "get_row sr_id k (db_references db) = Some (reference_row i s p v)"
    and "get_row sn_id s (db_snapshots db) = Some sn" and "sn_current_price sn = Fin False c 0"
    and "expected_fields (reference_row i s p v) db = Inr (exact_comparison c p v)"
    and "storable v" and "0 < c" and "c \<le> 999999999999"
    and "new \<notin> cf_id ` set (db_changes db)" and "k \<notin> cf_reference_price ` set (db_changes db)"
  shows "change_get_or_validate new k db
    = Inr (change_of new k (exact_comparison c p v),
           db\<lparr>db_changes := db_changes db @ [change_row new k (exact_comparison c p v)]\<rparr>)"
proof -
  let ?x = "change_of new k (exact_comparison c p v)"
  note ok = exact_change_clean [OF assms(5-7), of new k p]
  have x: "cf_id ?x = new" "cf_reference_price ?x = k" by (simp_all add: change_of_def)
  have clean: "change_clean ?x db = Inr ()"
    using assms(1,4) ok(3) by (simp add: change_clean_def x)
  have none: "get_row cf_reference_price k (db_changes db) = None"
    using assms(9) by (simp add: get_row_None)
  have row: "stored_change ?x = change_row new k (exact_comparison c p v)"
    by (simp add: change_row_def)
  show ?thesis
    using assms(1,4,8,9) ok clean none change_trigger_accepts [OF assms(1-3,5-7), of new]
    by (simp add: change_get_or_validate_def change_full_clean_def save_change_def x row)
qed

definition change_rows :: "(nat \<Rightarrow> uuid) \<Rightarrow> nat \<Rightarrow> period_values \<Rightarrow> price_change_fact list" where
  "change_rows new c v =
     [change_row (new 3) (new 0) (exact_comparison c WEEK (v WEEK)),
      change_row (new 4) (new 1) (exact_comparison c MONTH (v MONTH)),
      change_row (new 5) (new 2) (exact_comparison c YEAR (v YEAR))]"

definition unused_ids :: "(nat \<Rightarrow> uuid) \<Rightarrow> 'a price_db_scheme \<Rightarrow> bool" where
  "unused_ids new db \<longleftrightarrow> (\<forall>i. new i \<notin> ser_id ` set (db_series db) \<and> new i \<notin> sn_id ` set (db_snapshots db)
     \<and> new i \<notin> sr_id ` set (db_references db) \<and> new i \<notin> cf_id ` set (db_changes db)
     \<and> new i \<notin> cf_reference_price ` set (db_changes db) \<and> new i \<notin> sr_snapshot ` set (db_references db)
     \<and> new i \<notin> sn_series ` set (db_snapshots db))"

lemma references_of_append: "references_of s (db\<lparr>db_references := rs\<rparr>) = filter (\<lambda>r. sr_snapshot r = s) rs"
  by (simp add: references_of_def)

lemma write_facts:
  assumes "\<forall>p. storable (v p)" and "0 < c" and "c \<le> 999999999999" and "inj new"
    and "\<forall>i. new i \<notin> sr_id ` set (db_references db) \<and> new i \<notin> cf_id ` set (db_changes db)
           \<and> new i \<notin> cf_reference_price ` set (db_changes db)"
    and "get_row sn_id s (db_snapshots db) = Some sn" and "sn_current_price sn = Fin False c 0"
    and "s \<notin> sr_snapshot ` set (db_references db)"
  shows "\<exists>cs. persist_reference_price_facts new s (map (\<lambda>p. (p, whole (v p))) all_periods) db
    = Inr (cs, db\<lparr>db_references := db_references db @ reference_rows new s v,
                  db_changes := db_changes db @ change_rows new c v\<rparr>)"
proof -
  have d: "new 0 \<noteq> new 1" "new 0 \<noteq> new 2" "new 1 \<noteq> new 2" "new 3 \<noteq> new 4" "new 3 \<noteq> new 5" "new 4 \<noteq> new 5"
    using assms(4) by (simp_all add: inj_eq)
  have fr: "new i \<notin> sr_id ` set (db_references db)" "new i \<notin> cf_id ` set (db_changes db)"
    "new i \<notin> cf_reference_price ` set (db_changes db)" for i using assms(5) by blast+
  have none: "\<forall>x \<in> set (db_references db). \<not> (sr_snapshot x = s \<and> sr_period x = p)" for p
    using assms(8) by auto
  have vals: "Option.bind (map_of (map (\<lambda>p. (p, whole (v p))) all_periods) p) (\<lambda>v. v) = whole (v p)" for p
    by (cases p) (simp_all add: all_periods_def)
  let ?ref = "\<lambda>i p. reference_row (new i) s p (v p)"
  let ?db = "\<lambda>rs. db\<lparr>db_references := db_references db @ rs\<rparr>"
  have w0: "reference_get_or_validate (?ref 0 WEEK) db = Inr (?ref 0 WEEK, ?db [?ref 0 WEEK])"
    using assms(1,6) fr none by (intro write_reference) auto
  have w1: "reference_get_or_validate (?ref 1 MONTH) (?db [?ref 0 WEEK])
      = Inr (?ref 1 MONTH, ?db [?ref 0 WEEK, ?ref 1 MONTH])"
    using write_reference [of "v MONTH" s "?db [?ref 0 WEEK]" sn "new 1" MONTH] assms(1,6) fr none d by auto
  have w2: "reference_get_or_validate (?ref 2 YEAR) (?db [?ref 0 WEEK, ?ref 1 MONTH])
      = Inr (?ref 2 YEAR, ?db (reference_rows new s v))"
    using write_reference [of "v YEAR" s "?db [?ref 0 WEEK, ?ref 1 MONTH]" sn "new 2" YEAR] assms(1,6) fr none d
    by (auto simp: reference_rows_def)
  have refs: "estate (\<lambda>(n, period). reference_get_or_validate (reference_candidate n s period
      (Option.bind (map_of (map (\<lambda>p. (p, whole (v p))) all_periods) period) (\<lambda>v. v))))
      (zip (map new [0, 1, 2]) all_periods) db = Inr (reference_rows new s v, ?db (reference_rows new s v))"
    using w0 w1 w2 by (simp add: vals all_periods_def reference_row_def reference_rows_def)
  let ?d1 = "?db (reference_rows new s v)"
  let ?c = "\<lambda>cs. ?d1\<lparr>db_changes := db_changes db @ cs\<rparr>"
  have refs_of: "references_of s (?c cs) = reference_rows new s v" for cs
    using assms(8) by (auto simp: references_of_def reference_rows_def filter_empty_conv)
  have exp: "expected_fields (?ref i p) (?c cs) = Inr (exact_comparison c p (v p))" for i p cs
    using expected_fields_rows [OF refs_of _ assms(7,1-3) reference_row_simps(2), of cs "new i" p "v p"] assms(6)
    by simp
  have g: "get_row sr_id (new 0) (db_references (?c cs)) = Some (?ref 0 WEEK)"
    "get_row sr_id (new 1) (db_references (?c cs)) = Some (?ref 1 MONTH)"
    "get_row sr_id (new 2) (db_references (?c cs)) = Some (?ref 2 YEAR)" for cs
  proof -
    have n: "get_row sr_id (new i) (db_references db) = None" for i using fr by (simp add: get_row_None)
    show "get_row sr_id (new 0) (db_references (?c cs)) = Some (?ref 0 WEEK)"
      "get_row sr_id (new 1) (db_references (?c cs)) = Some (?ref 1 MONTH)"
      "get_row sr_id (new 2) (db_references (?c cs)) = Some (?ref 2 YEAR)"
      using d by (simp_all add: get_row_append n reference_rows_def)
  qed
  let ?x = "\<lambda>i j p. change_row (new i) (new j) (exact_comparison c p (v p))"
  have start: "?c [] = ?d1" by simp
  have sn: "get_row sn_id s (db_snapshots (?c cs)) = Some sn" for cs using assms(6) by simp
  note wrote = write_change [OF _ sn assms(7) _ assms(1) [rule_format] assms(2,3)]
  have c0: "\<exists>y. change_get_or_validate (new 3) (new 0) (?c []) = Inr (y, ?c [?x 3 0 WEEK])"
    using wrote [OF g(1) [of "[]"] exp, of "new 3"] fr by auto
  have c1: "\<exists>y. change_get_or_validate (new 4) (new 1) (?c [?x 3 0 WEEK])
      = Inr (y, ?c [?x 3 0 WEEK, ?x 4 1 MONTH])"
    using wrote [OF g(2) [of "[?x 3 0 WEEK]"] exp, of "new 4"] fr d by auto
  have c2: "\<exists>y. change_get_or_validate (new 5) (new 2) (?c [?x 3 0 WEEK, ?x 4 1 MONTH])
      = Inr (y, ?c (change_rows new c v))"
    using wrote [OF g(3) [of "[?x 3 0 WEEK, ?x 4 1 MONTH]"] exp, of "new 5"] fr d
    by (auto simp: change_rows_def)
  obtain y0 y1 y2 where
    "change_get_or_validate (new 3) (new 0) ?d1 = Inr (y0, ?c [?x 3 0 WEEK])"
    "change_get_or_validate (new 4) (new 1) (?c [?x 3 0 WEEK]) = Inr (y1, ?c [?x 3 0 WEEK, ?x 4 1 MONTH])"
    "change_get_or_validate (new 5) (new 2) (?c [?x 3 0 WEEK, ?x 4 1 MONTH]) = Inr (y2, ?c (change_rows new c v))"
    using c0 c1 c2 start by metis
  then have chs: "estate (\<lambda>(n, r). change_get_or_validate n (sr_id r))
      (zip (map new [3, 4, 5]) (reference_rows new s v)) ?d1 = Inr ([y0, y1, y2], ?c (change_rows new c v))"
    by (simp add: reference_rows_def)
  have shape: "set (map fst (map (\<lambda>p. (p, whole (v p))) all_periods)) = set all_periods
      \<and> length (map (\<lambda>p. (p, whole (v p))) all_periods) = 3"
    by (simp add: all_periods_def)
  show ?thesis
    unfolding persist_reference_price_facts_def
    using shape assms(6) refs chs by simp
qed

section \<open>The values of an admitted row\<close>

definition whole_of :: "decimal \<Rightarrow> nat" where
  "whole_of d = (case d of Fin s n e \<Rightarrow> n | _ \<Rightarrow> 0)"

definition row_price :: "parsed_retail_price_row \<Rightarrow> nat" where
  "row_price p = whole_of (prr_current_price p)"

definition row_value :: "parsed_retail_price_row \<Rightarrow> period_values" where
  "row_value p q = (case find (\<lambda>r. prf_period r = q) (prr_references p) of
     None \<Rightarrow> None | Some r \<Rightarrow> map_option whole_of (prf_value r))"

lemma generation_price_eq [simp]: "generation_price v \<Longrightarrow> dec_eq v v"
  by (auto simp: generation_price_iff)

lemma admitted_row:
  assumes "validate_row m p = Inr ()"
  shows "prr_current_price p = Fin False (row_price p) 0" "0 < row_price p" "row_price p \<le> 999999999999"
    and "\<forall>q. storable (row_value p q)"
    and "map (\<lambda>r. (prf_period r, prf_value r)) (prr_references p)
           = map (\<lambda>q. (q, whole (row_value p q))) all_periods"
    and "\<And>r new s. r \<in> set (prr_references p) \<Longrightarrow>
           stored_reference_matches r (reference_row new s (prf_period r) (row_value p (prf_period r)))"
    and "sha256_text (prr_source_row_hash p)"
    and "prr_identity p \<in> accepted_observations (gm_registry m)"
proof -
  have v: "generation_price (prr_current_price p)" "map prf_period (prr_references p) = all_periods"
    "list_all result_reference_ok (prr_references p)" "sha256_text (prr_source_row_hash p)"
    "succeeds (validate_identity (gm_registry m) (prr_identity p) 0)"
    using assms by (simp_all add: validate_row_def require_eq_Inr)
  obtain w mo y where refs: "prr_references p = [w, mo, y]" "prf_period w = WEEK" "prf_period mo = MONTH"
    "prf_period y = YEAR"
    using v(2) by (auto simp: all_periods_def)
  have val: "row_value p (prf_period r) = map_option whole_of (prf_value r)" if "r \<in> set (prr_references p)" for r
    using that refs by (auto simp: row_value_def)
  have r_ok: "prf_value r = whole (map_option whole_of (prf_value r)) \<and> storable (map_option whole_of (prf_value r))"
    if "result_reference_ok r" for r
    using that
    by (cases "prf_value_status r"; cases "prf_value r")
       (auto simp: result_reference_ok_def generation_price_iff whole_def whole_of_def storable_def)
  show "prr_current_price p = Fin False (row_price p) 0" "0 < row_price p" "row_price p \<le> 999999999999"
    using v(1) by (auto simp: generation_price_iff row_price_def whole_of_def)
  show "\<forall>q. storable (row_value p q)"
  proof
    fix q
    show "storable (row_value p q)" using r_ok v(3) val refs by (cases q) (force simp: refs)+
  qed
  show "map (\<lambda>r. (prf_period r, prf_value r)) (prr_references p)
      = map (\<lambda>q. (q, whole (row_value p q))) all_periods"
    using r_ok v(3) val refs by (simp add: all_periods_def) (metis list.set_intros)
  show "stored_reference_matches r (reference_row new s (prf_period r) (row_value p (prf_period r)))"
    if r: "r \<in> set (prr_references p)" for r new s
  proof -
    have ok: "result_reference_ok r" using v(3) r by (simp add: list_all_iff)
    show ?thesis
      using ok r_ok [OF ok] unfolding val [OF r]
      by (cases "prf_value_status r"; cases "prf_value r")
         (auto simp: stored_reference_matches_def reference_row_def reference_candidate_def whole_def
            result_reference_ok_def)
  qed
  show "sha256_text (prr_source_row_hash p)" by (rule v)
  show "prr_identity p \<in> accepted_observations (gm_registry m)"
    using v(5) by (auto simp: accepted_observations_def succeeds_iff validate_identity_iff)
qed

section \<open>Writing one row\<close>

definition row_series :: "generation_module \<Rightarrow> uuid \<Rightarrow> parsed_retail_price_row \<Rightarrow> 'a price_db_scheme \<Rightarrow> price_series_key" where
  "row_series m new p db =
     (case get_row ser_identity (row_series_identity (prr_identity p)) (db_series db) of
        Some x \<Rightarrow> x
      | None \<Rightarrow> \<lparr>ser_id = new, ser_identity = row_series_identity (prr_identity p),
                 ser_reviewed = row_reviewed_fields m (prr_identity p)\<rparr>)"

definition series_after :: "generation_module \<Rightarrow> uuid \<Rightarrow> parsed_retail_price_row \<Rightarrow> 'a price_db_scheme \<Rightarrow> price_series_key list" where
  "series_after m new p db = db_series db @
     (case get_row ser_identity (row_series_identity (prr_identity p)) (db_series db) of
        Some x \<Rightarrow> [] | None \<Rightarrow> [row_series m new p db])"

definition row_snapshot :: "uuid \<Rightarrow> uuid \<Rightarrow> uuid \<Rightarrow> parsed_retail_price_row \<Rightarrow> retail_price_snapshot" where
  "row_snapshot new k series p =
     \<lparr>sn_id = new, sn_parse_run = k, sn_series = series,
      sn_source_effective_date = prr_source_effective_date p, sn_source_recorded_at = None,
      sn_current_price = prr_current_price p, sn_source_row_sha256 = prr_source_row_hash p,
      sn_source_contract_revision = KAMIS_SOURCE_CONTRACT_REVISION\<rparr>"

definition persisted :: "generation_module \<Rightarrow> (nat \<Rightarrow> uuid) \<Rightarrow> uuid \<Rightarrow> parsed_retail_price_row
    \<Rightarrow> 'a price_db_scheme \<Rightarrow> 'a price_db_scheme" where
  "persisted m new k p db = db
     \<lparr>db_series := series_after m (new 6) p db,
      db_snapshots := db_snapshots db @ [row_snapshot (new 7) k (ser_id (row_series m (new 6) p db)) p],
      db_references := db_references db @ reference_rows new (new 7) (row_value p),
      db_changes := db_changes db @ change_rows new (row_price p) (row_value p)\<rparr>"

definition series_agree :: "generation_module \<Rightarrow> parsed_retail_price_row \<Rightarrow> 'a price_db_scheme \<Rightarrow> bool" where
  "series_agree m p db \<longleftrightarrow> (\<forall>x \<in> set (db_series db).
     ser_identity x = row_series_identity (prr_identity p) \<longrightarrow> ser_reviewed x = row_reviewed_fields m (prr_identity p))"

lemma row_series_simps:
  assumes "series_agree m p db"
  shows "ser_identity (row_series m new p db) = row_series_identity (prr_identity p)"
    and "ser_reviewed (row_series m new p db) = row_reviewed_fields m (prr_identity p)"
    and "row_series m new p db \<in> set (series_after m new p db)"
  using assms
  by (auto simp: row_series_def series_after_def series_agree_def split: option.split dest: get_row_Some)

text \<open>The ten reviewed series fit the columns of their table.\<close>

lemma initial_series_fields:
  "list_all (\<lambda>ob. series_fields \<lparr>ser_id = 0, ser_identity = row_series_identity ob,
      ser_reviewed = \<lparr>rf_product_class_name = io_product_class_name ob, rf_category_name = io_category_name ob,
        rf_item_name = io_item_name ob, rf_variety_name = io_variety_name ob, rf_grade_name = io_grade_name ob,
        rf_identity_evidence_revision = IDENTITY_EVIDENCE_REVISION\<rparr>\<rparr>
    \<and> series_constraints \<lparr>ser_id = 0, ser_identity = row_series_identity ob,
      ser_reviewed = \<lparr>rf_product_class_name = io_product_class_name ob, rf_category_name = io_category_name ob,
        rf_item_name = io_item_name ob, rf_variety_name = io_variety_name ob, rf_grade_name = io_grade_name ob,
        rf_identity_evidence_revision = IDENTITY_EVIDENCE_REVISION\<rparr>\<rparr>) initial_observations"
  by (simp add: initial_observations_def UNITS_def observation_of_unit_def row_series_identity_def
        KAMIS_ALLOWED_CATEGORIES_def ITEM_NAMES_def VARIETY_NAMES_def GRADE_NAMES_def)
     (simp add: series_fields_def series_constraints_def char_field_def code_field_def digit_code_def dollar_def
        all_digits_def is_digit_def lit_def
        KAMIS_RETAIL_PRODUCT_CLASS_CODE_def KAMIS_RETAIL_PRODUCT_CLASS_NAME_def
        KAMIS_RETAIL_COVERAGE_IDENTITY_def IDENTITY_EVIDENCE_REVISION_def)

lemma accepted_series_clean:
  assumes "import_generation = Inr m" and "ob \<in> accepted_observations (gm_registry m)"
  shows "series_fields \<lparr>ser_id = n, ser_identity = row_series_identity ob, ser_reviewed = row_reviewed_fields m ob\<rparr>"
    and "series_constraints \<lparr>ser_id = n, ser_identity = row_series_identity ob, ser_reviewed = row_reviewed_fields m ob\<rparr>"
proof -
  have reg: "INITIAL_RETAIL_IDENTITY_REGISTRY = Inr (gm_registry m)"
    using assms(1) by (simp add: import_generation_Inr)
  have ob: "ob \<in> set initial_observations"
    using assms(2) initial_observations_accepted(1) [OF reg] by simp
  have rf: "row_reviewed_fields m ob = \<lparr>rf_product_class_name = io_product_class_name ob,
      rf_category_name = io_category_name ob, rf_item_name = io_item_name ob,
      rf_variety_name = io_variety_name ob, rf_grade_name = io_grade_name ob,
      rf_identity_evidence_revision = IDENTITY_EVIDENCE_REVISION\<rparr>"
    by (simp add: row_reviewed_fields_def initial_registry_fields [OF reg])
  show "series_fields \<lparr>ser_id = n, ser_identity = row_series_identity ob, ser_reviewed = row_reviewed_fields m ob\<rparr>"
    "series_constraints \<lparr>ser_id = n, ser_identity = row_series_identity ob, ser_reviewed = row_reviewed_fields m ob\<rparr>"
    using initial_series_fields ob
    by (simp_all add: list_all_iff rf series_fields_def series_constraints_def)
qed

lemma write_series:
  assumes "import_generation = Inr m" and "validate_row m p = Inr ()" and "series_agree m p db"
    and "new \<notin> ser_id ` set (db_series db)"
  shows "series_get_or_validate new (row_series_identity (prr_identity p)) (row_reviewed_fields m (prr_identity p)) db
    = Inr (row_series m new p db, db\<lparr>db_series := series_after m new p db\<rparr>)"
proof (cases "get_row ser_identity (row_series_identity (prr_identity p)) (db_series db)")
  case None
  then have i: "row_series_identity (prr_identity p) \<notin> ser_identity ` set (db_series db)"
    by (simp add: get_row_None)
  show ?thesis
    using None i assms(4) accepted_series_clean [OF assms(1) admitted_row(8) [OF assms(2)], of new]
    by (simp add: series_get_or_validate_def Let_def save_series_def row_series_def series_after_def)
next
  case (Some x)
  then show ?thesis
    using row_series_simps(2) [OF assms(3), of new]
    by (simp add: series_get_or_validate_def row_series_def series_after_def)
qed

lemma write_snapshot:
  assumes "validate_row m p = Inr ()" and "run_validated (db_runs db) k"
    and "x \<in> set (db_series db)" and "new \<notin> sn_id ` set (db_snapshots db)"
    and "\<forall>s \<in> set (db_snapshots db). \<not> (sn_parse_run s = k \<and> sn_series s = ser_id x)"
  shows "snapshot_get_or_validate (row_snapshot new k (ser_id x) p) db
    = Inr (row_snapshot new k (ser_id x) p,
           db\<lparr>db_snapshots := db_snapshots db @ [row_snapshot new k (ser_id x) p]\<rparr>)"
proof -
  let ?s = "row_snapshot new k (ser_id x) p"
  note row = admitted_row [OF assms(1)]
  obtain r where r: "get_row run_id k (db_runs db) = Some r" "run_status r = RUN_VALIDATED"
    using assms(2) by (auto simp: run_validated_def split: option.split_asm)
  have kr: "k \<in> run_id ` set (db_runs db)" using get_row_Some [OF r(1)] by auto
  obtain y where y: "get_row ser_id (ser_id x) (db_series db) = Some y"
    using assms(3) get_row_None [of ser_id "ser_id x" "db_series db"] by fastforce
  have none: "find (\<lambda>s. sn_parse_run s = k \<and> sn_series s = ser_id x) (db_snapshots db) = None"
    using assms(5) by (auto simp: find_None_iff)
  have f: "snapshot_fields ?s" "snapshot_constraints ?s"
  proof -
    have c: "char_field 64 KAMIS_SOURCE_CONTRACT_REVISION" "KAMIS_SOURCE_CONTRACT_REVISION \<noteq> []"
      by (simp_all add: KAMIS_SOURCE_CONTRACT_REVISION_def char_field_def)
    have h: "SHA256_PATTERN (prr_source_row_hash p)" using row(7) by (simp add: SHA256_PATTERN_def)
    show "snapshot_fields ?s" "snapshot_constraints ?s"
      unfolding snapshot_fields_def snapshot_constraints_def row_snapshot_def
      using c h row(2) decimal_field_whole [OF row(3)]
      by (simp_all add: row(1) del: decimal_field.simps)
  qed
  have price: "?s\<lparr>sn_current_price := numeric_column 0 (sn_current_price ?s)\<rparr> = ?s"
    by (simp add: row_snapshot_def row(1) del: numeric_column.simps)
  have sel: "sn_parse_run ?s = k" "sn_series ?s = ser_id x" "sn_id ?s = new" by (simp_all add: row_snapshot_def)
  have clean: "snapshot_clean ?s db = Inr ()" using r by (simp add: snapshot_clean_def sel)
  have full: "snapshot_full_clean b ?s db = Inr ()" for b
    using f clean kr assms(3-5)
    by (auto simp: snapshot_full_clean_def sel list_ex_iff require_eq_Inr)
  show ?thesis
    using r y none full
    by (simp add: snapshot_get_or_validate_def sel save_snapshot_def price)
qed

lemma write_row:
  assumes "import_generation = Inr m" and "validate_row m p = Inr ()" and "series_agree m p db"
    and "run_validated (db_runs db) k" and "inj new" and "unused_ids new db"
    and "\<And>j. new j = ids (8 * i + j)"
    and "\<forall>s \<in> set (db_snapshots db). \<not> (sn_parse_run s = k \<and> sn_series s = ser_id (row_series m (new 6) p db))"
  shows "persist_row m ids k (i, p) db = Inr ((), persisted m new k p db)"
proof -
  note row = admitted_row [OF assms(2)]
  let ?x = "row_series m (new 6) p db"
  let ?d1 = "db\<lparr>db_series := series_after m (new 6) p db\<rparr>"
  let ?s = "row_snapshot (new 7) k (ser_id ?x) p"
  let ?d2 = "?d1\<lparr>db_snapshots := db_snapshots db @ [?s]\<rparr>"
  have new: "new = (\<lambda>j. ids (8 * i + j))" using assms(7) by blast
  have un: "new j \<notin> ser_id ` set (db_series db)" "new j \<notin> sn_id ` set (db_snapshots db)" for j
    using assms(6) by (auto simp: unused_ids_def)
  have 1: "series_get_or_validate (new 6) (row_series_identity (prr_identity p))
      (row_reviewed_fields m (prr_identity p)) db = Inr (?x, ?d1)"
    by (rule write_series [OF assms(1-3) un(1)])
  have 2: "snapshot_get_or_validate ?s ?d1 = Inr (?s, ?d2)"
    using write_snapshot [OF assms(2), of ?d1 k ?x "new 7"] assms(4,8) un(2) row_series_simps(3) [OF assms(3)]
    by simp
  have sn: "get_row sn_id (new 7) (db_snapshots ?d2) = Some ?s"
    using un(2) [of 7] get_row_None [of sn_id "new 7" "db_snapshots db"]
    by (simp add: get_row_append row_snapshot_def)
  obtain cs where 3: "persist_reference_price_facts new (new 7)
      (map (\<lambda>q. (q, whole (row_value p q))) all_periods) ?d2
    = Inr (cs, ?d2\<lparr>db_references := db_references db @ reference_rows new (new 7) (row_value p),
                   db_changes := db_changes db @ change_rows new (row_price p) (row_value p)\<rparr>)"
    using write_facts [OF row(4,2,3) assms(5), of ?d2 "new 7" ?s] sn assms(6)
    by (auto simp: unused_ids_def row_snapshot_def row(1))
  have id: "sn_id ?s = new 7" by (simp add: row_snapshot_def)
  show ?thesis
    using 1 2 3
    by (simp add: persist_row_def Let_def persisted_def id row(5) assms(7) [symmetric] flip: new row_snapshot_def)
qed

section \<open>The loop over the rows\<close>

text \<open>The snapshots of a run with their series, in the order they were added.\<close>

definition run_pairs :: "uuid \<Rightarrow> 'a price_db_scheme \<Rightarrow> (retail_price_snapshot \<times> price_series_key) list" where
  "run_pairs k db =
     List.map_filter (\<lambda>s. if sn_parse_run s = k then map_option (Pair s) (snapshot_series db s) else None)
       (db_snapshots db)"

lemma run_snapshots_pairs: "run_snapshots k db = sort_key (\<lambda>(s, x). series_sort_key (ser_identity x)) (run_pairs k db)"
  by (simp add: run_snapshots_def run_pairs_def)

text \<open>One parsed row is stored as a snapshot with its series, three references and three facts.\<close>

definition row_stored :: "generation_module \<Rightarrow> uuid \<Rightarrow> 'a price_db_scheme \<Rightarrow> parsed_retail_price_row
    \<Rightarrow> retail_price_snapshot \<times> price_series_key \<Rightarrow> bool" where
  "row_stored m k db p sx \<longleftrightarrow> (case sx of (s, x) \<Rightarrow>
     s \<in> set (db_snapshots db) \<and> sn_parse_run s = k \<and> x \<in> set (db_series db)
     \<and> stored_row_matches m p s x
     \<and> (\<exists>new. references_of (sn_id s) db = reference_rows new (sn_id s) (row_value p)
          \<and> set (change_rows new (row_price p) (row_value p)) \<subseteq> set (db_changes db)))"

lemma map_filter_append: "List.map_filter f (xs @ ys) = List.map_filter f xs @ List.map_filter f ys"
  by (simp add: List.map_filter_def)

lemma map_filter_cong: "(\<And>x. x \<in> set xs \<Longrightarrow> f x = g x) \<Longrightarrow> List.map_filter f xs = List.map_filter g xs"
  by (induction xs) (auto simp: List.map_filter_simps split: option.split)

lemma references_of_mono:
  assumes "set (map sr_period (references_of s db)) = set all_periods"
    and "db_references db' = db_references db @ new" and "price_keys db'"
  shows "references_of s db' = references_of s db"
proof -
  have "sr_snapshot y \<noteq> s" if y: "y \<in> set new" for y
  proof
    assume eq: "sr_snapshot y = s"
    have "sr_period y \<in> set all_periods" by (cases "sr_period y") (simp_all add: all_periods_def)
    then have "sr_period y \<in> sr_period ` set (references_of s db)" using assms(1) by simp
    then obtain x where "x \<in> set (db_references db)" "sr_snapshot x = s" "sr_period x = sr_period y"
      by (auto simp: references_of_def)
    then show False
      using assms(2,3) y eq by (fastforce simp: price_keys_def image_iff disjoint_iff)
  qed
  then show ?thesis by (auto simp: references_of_def assms(2) filter_empty_conv)
qed

lemma row_stored_mono:
  assumes "row_stored m k db p sx" and "keeps_facts db db'" and "price_keys db'"
  shows "row_stored m k db' p sx"
proof -
  obtain s x new where sx: "sx = (s, x)" "s \<in> set (db_snapshots db)" "sn_parse_run s = k" "x \<in> set (db_series db)"
    "stored_row_matches m p s x" "references_of (sn_id s) db = reference_rows new (sn_id s) (row_value p)"
    "set (change_rows new (row_price p) (row_value p)) \<subseteq> set (db_changes db)"
    using assms(1) by (auto simp: row_stored_def)
  obtain rs where rs: "db_references db' = db_references db @ rs"
    using assms(2) by (auto simp: keeps_facts_def prefix_def)
  have "set (map sr_period (references_of (sn_id s) db)) = set all_periods"
    unfolding sx(6) by (auto simp: reference_rows_def all_periods_def)
  then have "references_of (sn_id s) db' = references_of (sn_id s) db"
    by (rule references_of_mono [OF _ rs assms(3)])
  moreover have "set (db_snapshots db) \<subseteq> set (db_snapshots db')" "set (db_series db) \<subseteq> set (db_series db')"
    "set (db_changes db) \<subseteq> set (db_changes db')"
    using assms(2) by (auto simp: keeps_facts_def dest: set_mono_prefix)
  ultimately have "references_of (sn_id s) db' = reference_rows new (sn_id s) (row_value p)
      \<and> set (change_rows new (row_price p) (row_value p)) \<subseteq> set (db_changes db')"
    and "s \<in> set (db_snapshots db')" and "x \<in> set (db_series db')"
    using sx by auto
  then show ?thesis using sx(1,3,5) unfolding row_stored_def by auto
qed

lemma run_pairs_mono:
  assumes "price_inv db" and "prefix (db_series db) (db_series db')"
  shows "List.map_filter (\<lambda>s. if sn_parse_run s = k then map_option (Pair s) (snapshot_series db' s) else None)
           (db_snapshots db) = run_pairs k db"
proof -
  have "snapshot_series db' s = snapshot_series db s" if "s \<in> set (db_snapshots db)" for s
  proof -
    have "sn_series s \<in> ser_id ` set (db_series db)"
      using assms(1) that by (simp add: price_inv_def price_links_def list_all_iff)
    then obtain x where "get_row ser_id (sn_series s) (db_series db) = Some x"
      using get_row_None [of ser_id "sn_series s" "db_series db"] by auto
    then show ?thesis
      using assms(2) by (auto simp: snapshot_series_def prefix_def get_row_append)
  qed
  then show ?thesis unfolding run_pairs_def by (intro map_filter_cong) simp
qed

definition loop_state :: "generation_module \<Rightarrow> uuid \<Rightarrow> (nat \<Rightarrow> uuid) \<Rightarrow> 'a price_db_scheme
    \<Rightarrow> parsed_retail_price_row list \<Rightarrow> bool" where
  "loop_state m k new db ps \<longleftrightarrow> price_inv db \<and> run_validated (db_runs db) k \<and> unused_ids new db \<and> inj new
     \<and> list_all2 (row_stored m k db) ps (run_pairs k db)
     \<and> length (run_references k db) = 3 * length ps \<and> length (run_changes k db) = 3 * length ps"

lemma new_references:
  assumes "price_inv db" and "unused_ids new db" and "sn_id s = new 7" and "sn_parse_run s = k"
    and "db_snapshots db' = db_snapshots db @ [s]"
    and "db_references db' = db_references db @ reference_rows new (new 7) v"
  shows "run_references k db' = run_references k db @ reference_rows new (new 7) v"
proof -
  have n: "get_row sn_id (new 7) (db_snapshots db) = None"
    using assms(2) by (auto simp: get_row_None unused_ids_def)
  have old: "get_row sn_id (sr_snapshot r) (db_snapshots db') = get_row sn_id (sr_snapshot r) (db_snapshots db)"
    if r: "r \<in> set (db_references db)" for r
  proof -
    have "sr_snapshot r \<in> sn_id ` set (db_snapshots db)"
      using assms(1) r by (simp add: price_inv_def price_links_def list_all_iff)
    then obtain x where "get_row sn_id (sr_snapshot r) (db_snapshots db) = Some x"
      using get_row_None [of sn_id "sr_snapshot r" "db_snapshots db"] by auto
    then show ?thesis by (simp add: assms(5) get_row_append)
  qed
  have "filter (\<lambda>r. case get_row sn_id (sr_snapshot r) (db_snapshots db') of None \<Rightarrow> False | Some s \<Rightarrow> sn_parse_run s = k)
      (reference_rows new (new 7) v) = reference_rows new (new 7) v"
    by (simp add: reference_rows_def assms(3-5) get_row_append n)
  then show ?thesis
    unfolding run_references_def assms(6) filter_append using old by (simp cong: filter_cong)
qed

lemma new_changes:
  assumes "price_inv db" and "unused_ids new db" and "inj new" and "sn_id s = new 7" and "sn_parse_run s = k"
    and "db_snapshots db' = db_snapshots db @ [s]"
    and "db_references db' = db_references db @ reference_rows new (new 7) v"
    and "db_changes db' = db_changes db @ change_rows new c v"
  shows "run_changes k db' = run_changes k db @ change_rows new c v"
proof -
  have d: "new 0 \<noteq> new 1" "new 0 \<noteq> new 2" "new 1 \<noteq> new 2" using assms(3) by (simp_all add: inj_eq)
  have n: "get_row sn_id (new 7) (db_snapshots db) = None" "get_row sr_id (new i) (db_references db) = None" for i
    using assms(2) by (auto simp: get_row_None unused_ids_def)
  let ?run = "\<lambda>db r. case get_row sn_id (sr_snapshot r) (db_snapshots db) of None \<Rightarrow> False | Some s \<Rightarrow> sn_parse_run s = k"
  let ?own = "\<lambda>db x. case get_row sr_id (cf_reference_price x) (db_references db) of None \<Rightarrow> False | Some r \<Rightarrow> ?run db r"
  have old: "?own db' x = ?own db x" if x: "x \<in> set (db_changes db)" for x
  proof -
    have "change_recalculates db x" using assms(1) x by (simp add: price_inv_def list_all_iff)
    then obtain r where r: "get_row sr_id (cf_reference_price x) (db_references db) = Some r"
      by (auto simp: change_recalculates_def split: option.split_asm)
    then have "sr_snapshot r \<in> sn_id ` set (db_snapshots db)"
      using assms(1) get_row_Some [OF r] by (auto simp: price_inv_def price_links_def list_all_iff)
    then obtain y where "get_row sn_id (sr_snapshot r) (db_snapshots db) = Some y"
      using get_row_None [of sn_id "sr_snapshot r" "db_snapshots db"] by auto
    then show ?thesis using r by (simp add: assms(6,7) get_row_append)
  qed
  have "filter (?own db') (change_rows new c v) = change_rows new c v"
    using d by (simp add: change_rows_def assms(4-7) get_row_append n reference_rows_def)
  moreover have "filter (?own db') (db_changes db) = filter (?own db) (db_changes db)"
    using old by (intro filter_cong) auto
  ultimately show ?thesis unfolding run_changes_def assms(8) filter_append by simp
qed

lemma loop_step:
  assumes "loop_state m k new db ps" and "import_generation = Inr m" and "validate_row m p = Inr ()"
    and "series_agree m p db" and "\<And>j. new j = ids (8 * i + j)"
    and "row_series_identity (prr_identity p) \<notin> ser_identity ` snd ` set (run_pairs k db)"
  shows "persist_row m ids k (i, p) db = Inr ((), persisted m new k p db)"
    and "loop_state m k (\<lambda>j. new (8 + j)) (persisted m new k p db) (ps @ [p])"
proof -
  let ?db = "persisted m new k p db"
  let ?x = "row_series m (new 6) p db"
  let ?s = "row_snapshot (new 7) k (ser_id ?x) p"
  note st = assms(1) [unfolded loop_state_def]
  then have inv: "price_inv db" and un: "unused_ids new db" and inj: "inj new"
    and val: "run_validated (db_runs db) k" by blast+
  note x = row_series_simps [OF assms(4), of "new 6"]
  have keys: "distinct (map ser_id (db_series db))" using inv by (simp add: price_inv_def price_keys_def)
  have free: "\<forall>s \<in> set (db_snapshots db). \<not> (sn_parse_run s = k \<and> sn_series s = ser_id ?x)"
  proof (intro ballI notI)
    fix s assume s: "s \<in> set (db_snapshots db)" "sn_parse_run s = k \<and> sn_series s = ser_id ?x"
    have "sn_series s \<in> ser_id ` set (db_series db)"
      using inv s(1) by (simp add: price_inv_def price_links_def list_all_iff)
    then obtain y where y: "get_row ser_id (sn_series s) (db_series db) = Some y"
      using get_row_None [of ser_id "sn_series s" "db_series db"] by auto
    have "?x = y"
    proof (cases "get_row ser_identity (row_series_identity (prr_identity p)) (db_series db)")
      case None
      then have "ser_id ?x = new 6" by (simp add: row_series_def)
      moreover have "new 6 \<notin> sn_series ` set (db_snapshots db)" using un by (simp add: unused_ids_def)
      ultimately show ?thesis using s by (metis imageI)
    next
      case (Some z)
      then have "?x = z" "z \<in> set (db_series db)" by (auto simp: row_series_def dest: get_row_Some)
      then show ?thesis using y s(2) get_row_member [OF keys, of z] by simp
    qed
    then have "(s, ?x) \<in> set (run_pairs k db)"
      using s y by (force simp: run_pairs_def List.map_filter_def snapshot_series_def image_iff)
    then show False using assms(6) x(1) by (force simp: image_iff)
  qed
  show w: "persist_row m ids k (i, p) db = Inr ((), ?db)"
    by (rule write_row [OF assms(2-4) val inj un assms(5) free])
  have ev: "price_inv ?db" "keeps_facts db ?db"
    using persist_row_evolves [OF w] inv by (auto simp: evolves_def)
  have tabs: "db_runs ?db = db_runs db" "db_snapshots ?db = db_snapshots db @ [?s]"
    "db_references ?db = db_references db @ reference_rows new (new 7) (row_value p)"
    "db_changes ?db = db_changes db @ change_rows new (row_price p) (row_value p)"
    "db_series ?db = series_after m (new 6) p db"
    by (simp_all add: persisted_def)
  have s: "sn_id ?s = new 7" "sn_parse_run ?s = k" "sn_series ?s = ser_id ?x"
    by (simp_all add: row_snapshot_def)
  have pre: "prefix (db_series db) (db_series ?db)" using ev(2) by (simp add: keeps_facts_def)
  have xser: "snapshot_series ?db ?s = Some ?x"
    using x(3) ev(1) get_row_member [of ser_id "db_series ?db" ?x]
    by (simp add: snapshot_series_def s tabs(5) price_inv_def price_keys_def)
  have pairs: "run_pairs k ?db = run_pairs k db @ [(?s, ?x)]"
    using run_pairs_mono [OF inv pre, of k] xser
    unfolding run_pairs_def [of k ?db] tabs(2) map_filter_append
    by (simp add: List.map_filter_simps s)
  have none: "filter (\<lambda>r. sr_snapshot r = new 7) (db_references db) = []"
  proof -
    have "new 7 \<notin> sr_snapshot ` set (db_references db)" using un by (simp add: unused_ids_def)
    then show ?thesis by (force simp: filter_empty_conv)
  qed
  have "row_stored m k ?db p (?s, ?x)"
  proof -
    have "references_of (sn_id ?s) ?db = reference_rows new (sn_id ?s) (row_value p)"
      by (simp add: references_of_def s tabs(3) none) (simp add: reference_rows_def)
    moreover have "stored_row_matches m p ?s ?x"
      using admitted_row(1) [OF assms(3)] x(1,2)
      by (simp add: stored_row_matches_def row_snapshot_def)
    moreover have "set (change_rows new (row_price p) (row_value p)) \<subseteq> set (db_changes ?db)"
      by (simp add: tabs(4))
    ultimately show ?thesis using x(3) s(2) unfolding row_stored_def tabs(2,5) by auto
  qed
  then have stored: "list_all2 (row_stored m k ?db) (ps @ [p]) (run_pairs k ?db)"
    using st row_stored_mono [OF _ ev(2), of m k] ev(1) unfolding pairs
    by (intro list_all2_appendI) (auto simp: price_inv_def elim!: list_all2_mono)
  have "unused_ids (\<lambda>j. new (8 + j)) ?db"
  proof -
    have ne: "new (8 + j) \<noteq> new i" if "i < 8" for i j using inj that by (simp add: inj_eq)
    have ser: "ser_id ` set (db_series ?db) \<subseteq> insert (new 6) (ser_id ` set (db_series db))"
      by (auto simp: tabs(5) series_after_def row_series_def split: option.split)
    have xs: "ser_id ?x \<in> insert (new 6) (ser_id ` set (db_series db))" using ser x(3) tabs(5) by auto
    have u: "new (8 + i) \<notin> insert (new 6) (ser_id ` set (db_series db))" for i
      using un ne by (simp add: unused_ids_def)
    have a: "new (8 + i) \<notin> ser_id ` set (db_series ?db)" and b: "new (8 + i) \<noteq> ser_id ?x" for i
      using u ser xs by (blast, metis)
    show ?thesis
      using un ne a b unfolding unused_ids_def
      by (simp add: tabs(2-4) s reference_rows_def change_rows_def)
  qed
  moreover have "inj (\<lambda>j. new (8 + j))" using inj unfolding inj_def by (metis add_left_cancel)
  moreover have "length (run_references k ?db) = 3 * length (ps @ [p])"
    using st new_references [OF inv un s(1,2) tabs(2,3)] by (simp add: reference_rows_def)
  moreover have "length (run_changes k ?db) = 3 * length (ps @ [p])"
    using st new_changes [OF inv un inj s(1,2) tabs(2,3,4)] by (simp add: change_rows_def)
  ultimately show "loop_state m k (\<lambda>j. new (8 + j)) ?db (ps @ [p])"
    using ev(1) val stored by (simp add: loop_state_def tabs(1))
qed

lemma stored_identities:
  assumes "list_all2 (row_stored m k db) ps pairs"
  shows "map (\<lambda>sx. ser_identity (snd sx)) pairs = map (\<lambda>p. row_series_identity (prr_identity p)) ps"
  using assms
  by (induction rule: list_all2_induct) (auto simp: row_stored_def stored_row_matches_def split: prod.splits)

lemma series_agree_persisted:
  assumes "series_agree m p db" and "series_agree m q db"
    and "row_series_identity (prr_identity q) \<noteq> row_series_identity (prr_identity p)"
  shows "series_agree m q (persisted m new k p db)"
  using assms(2,3) row_series_simps(1) [OF assms(1), of "new 6"]
  by (auto simp: series_agree_def persisted_def series_after_def split: option.split_asm)

lemma loop_all:
  assumes "loop_state m k (\<lambda>j. ids (8 * i + j)) db ps0" and "import_generation = Inr m"
    and "\<forall>p \<in> set ps. validate_row m p = Inr ()" and "\<forall>p \<in> set ps. series_agree m p db"
    and "distinct (map (\<lambda>p. row_series_identity (prr_identity p)) (ps0 @ ps))"
  shows "\<exists>us db'. estate (persist_row m ids k) (zip [i..<i + length ps] ps) db = Inr (us, db')
    \<and> loop_state m k (\<lambda>j. ids (8 * (i + length ps) + j)) db' (ps0 @ ps)"
  using assms(1,3-)
proof (induction ps arbitrary: i db ps0)
  case Nil
  then show ?case by simp
next
  case (Cons p ps)
  let ?new = "\<lambda>j. ids (8 * i + j)" and ?id = "\<lambda>p. row_series_identity (prr_identity p)"
  let ?db = "persisted m ?new k p db"
  have pairs: "list_all2 (row_stored m k db) ps0 (run_pairs k db)"
    using Cons.prems(1) by (simp add: loop_state_def)
  have "ser_identity ` snd ` set (run_pairs k db) = set (map ?id ps0)"
    using arg_cong [OF stored_identities [OF pairs], of set] by (simp add: image_image)
  then have free: "?id p \<notin> ser_identity ` snd ` set (run_pairs k db)"
    using Cons.prems(4) by auto
  have ok: "validate_row m p = Inr ()" "series_agree m p db" using Cons.prems(2,3) by auto
  note step = loop_step [OF Cons.prems(1) assms(2) ok refl free]
  have eight: "(\<lambda>j. ids (8 * i + (8 + j))) = (\<lambda>j. ids (8 * Suc i + j))" by (simp add: algebra_simps)
  have "series_agree m q ?db" if q: "q \<in> set ps" for q
  proof (rule series_agree_persisted [OF ok(2)])
    show "series_agree m q db" using Cons.prems(3) q by simp
    show "?id q \<noteq> ?id p" using Cons.prems(4) q by (auto simp: image_iff)
  qed
  then obtain us db' where
    "estate (persist_row m ids k) (zip [Suc i..<Suc i + length ps] ps) ?db = Inr (us, db')"
    "loop_state m k (\<lambda>j. ids (8 * (Suc i + length ps) + j)) db' ((ps0 @ [p]) @ ps)"
    using Cons.IH [of "Suc i" ?db "ps0 @ [p]"] step(2) [unfolded eight] Cons.prems(2,4) by auto
  then show ?case
    using step(1) upt_conv_Cons [of i "i + length (p # ps)"] by auto
qed

section \<open>The persisted generation replays\<close>

lemma find_unique:
  assumes "x \<in> set xs" and "P x" and "\<And>y. y \<in> set xs \<Longrightarrow> P y \<Longrightarrow> y = x"
  shows "find P xs = Some x"
proof (cases "find P xs")
  case None
  then show ?thesis using assms(1,2) by (auto simp: find_None_iff)
next
  case (Some y)
  then show ?thesis using assms(3) [of y] find_Some_member [OF Some] by simp
qed

lemma same_change_row:
  assumes "storable v" and "0 < c" and "c \<le> 999999999999"
  shows "same_change (change_row new r (exact_comparison c p v)) (exact_comparison c p v)"
proof -
  let ?e = "exact_comparison c p v"
  note ok = exact_change_clean [OF assms, of new r p]
  have d: "value_eq (map_option (numeric_column 0) (pc_difference ?e)) (pc_difference ?e)"
    using ok(1,3)
    by (intro value_eq_stored [of _ _ 12]) (auto simp: same_change_def change_fields_def change_of_def)
  have q: "value_eq (map_option (numeric_column 1) (pc_percentage ?e)) (pc_percentage ?e)"
    using ok(1,3)
    by (intro value_eq_stored [of _ _ 16]) (auto simp: same_change_def change_fields_def change_of_def)
  show ?thesis
    using d q by (simp add: same_change_def change_row_fields del: numeric_column.simps)
qed

lemma own_references:
  assumes "price_keys db" and "s \<in> set (db_snapshots db)" and "sn_parse_run s = k"
  shows "filter (\<lambda>r. sr_snapshot r = sn_id s) (run_references k db) = references_of (sn_id s) db"
proof -
  have "get_row sn_id (sn_id s) (db_snapshots db) = Some s"
    using assms by (intro get_row_member) (auto simp: price_keys_def)
  then show ?thesis
    using assms(3) by (auto simp: run_references_def references_of_def intro: filter_cong)
qed

lemma persisted_row_replays:
  assumes "price_inv db" and "row_stored m k db p (s, x)" and "validate_row m p = Inr ()"
  shows "validate_persisted_row m db (run_references k db) (run_changes k db) (p, s, x) = Inr ()"
proof -
  obtain new where s: "s \<in> set (db_snapshots db)" "sn_parse_run s = k" "stored_row_matches m p s x"
    and refs: "references_of (sn_id s) db = reference_rows new (sn_id s) (row_value p)"
    and chs: "set (change_rows new (row_price p) (row_value p)) \<subseteq> set (db_changes db)"
    using assms(2) by (auto simp: row_stored_def)
  note row = admitted_row [OF assms(3)]
  have keys: "price_keys db" using assms(1) by (simp add: price_inv_def)
  have own: "filter (\<lambda>r. sr_snapshot r = sn_id s) (run_references k db) = reference_rows new (sn_id s) (row_value p)"
    using own_references [OF keys s(1,2)] refs by simp
  have gs: "get_row sn_id (sn_id s) (db_snapshots db) = Some s"
    using keys s(1) by (intro get_row_member) (auto simp: price_keys_def)
  have price: "sn_current_price s = Fin False (row_price p) 0"
  proof -
    have eq: "dec_eq (sn_current_price s) (Fin False (row_price p) 0)"
      using s(3) row(1) by (simp add: stored_row_matches_def)
    have "change_recalculates db (change_row (new 3) (new 0) (exact_comparison (row_price p) WEEK (row_value p WEEK)))"
      using assms(1) chs by (auto simp: price_inv_def list_all_iff change_rows_def)
    then obtain r e where r: "get_row sr_id (new 0) (db_references db) = Some r" "expected_fields r db = Inr e"
      by (auto simp: change_recalculates_def split: option.split_asm sum.split_asm)
    have "reference_row (new 0) (sn_id s) WEEK (row_value p WEEK) \<in> set (references_of (sn_id s) db)"
      by (simp add: refs reference_rows_def)
    then have "get_row sr_id (new 0) (db_references db) = Some (reference_row (new 0) (sn_id s) WEEK (row_value p WEEK))"
      using keys get_row_member [of sr_id "db_references db"] by (force simp: references_of_def price_keys_def)
    then have "sr_snapshot r = sn_id s" using r(1) by simp
    then obtain n where "sn_current_price s = Fin False n 0"
      using r(2) gs
      by (auto simp: expected_fields_def in_calculation_def price_snapshot_init_iff require_eq_Inr Let_def
            elim!: ebind_InrE split: sum.split_asm pricing_error.split_asm)
    then show ?thesis using eq by simp
  qed
  have one: "validate_persisted_reference db (reference_rows new (sn_id s) (row_value p)) (run_changes k db) q = Inr ()"
    if q: "q \<in> set (prr_references p)" for q
  proof -
    let ?q = "prf_period q"
    let ?i = "case ?q of WEEK \<Rightarrow> (0 :: nat) | MONTH \<Rightarrow> 1 | YEAR \<Rightarrow> 2"
    let ?r = "reference_row (new ?i) (sn_id s) ?q (row_value p ?q)"
    let ?e = "exact_comparison (row_price p) ?q (row_value p ?q)"
    let ?c = "change_row (new (3 + ?i)) (new ?i) ?e"
    have r: "?r \<in> set (reference_rows new (sn_id s) (row_value p))"
      by (cases ?q) (simp_all add: reference_rows_def)
    have fr: "find (\<lambda>r. sr_period r = ?q) (rev (reference_rows new (sn_id s) (row_value p))) = Some ?r"
      by (cases ?q) (simp_all add: reference_rows_def)
    have c: "?c \<in> set (db_changes db)"
      using chs by (cases ?q) (simp_all add: change_rows_def)
    have rin: "?r \<in> set (db_references db)"
      using r unfolding refs [symmetric] references_of_def by simp
    have gr: "get_row sr_id (new ?i) (db_references db) = Some ?r"
      using keys get_row_member [of sr_id "db_references db" ?r] rin by (simp add: price_keys_def)
    have cin: "?c \<in> set (rev (run_changes k db))"
      using c gr gs s(2) by (simp add: run_changes_def)
    have unique: "y = ?c" if "y \<in> set (rev (run_changes k db))" "cf_reference_price y = sr_id ?r" for y
    proof -
      have y: "y \<in> set (db_changes db)" using that(1) by (simp add: run_changes_def)
      have "inj_on cf_reference_price (set (db_changes db))"
        using keys by (simp add: price_keys_def distinct_map)
      then show ?thesis by (rule inj_onD) (use that(2) y c in simp_all)
    qed
    have fc: "find (\<lambda>c. cf_reference_price c = sr_id ?r) (rev (run_changes k db)) = Some ?c"
      by (rule find_unique [OF cin _ unique]) simp
    have e: "expected_fields ?r db = Inr ?e"
      using expected_fields_rows [OF refs gs price row(4,2,3), of ?r] by simp
    show ?thesis
      using fr row(6) [OF q] fc e same_change_row [OF row(4) [rule_format] row(2,3)]
      by (simp add: validate_persisted_reference_def db_step_def)
  qed
  have "set (map sr_period (reference_rows new (sn_id s) (row_value p))) = set all_periods"
    by (auto simp: reference_rows_def all_periods_def)
  then show ?thesis
    using s(3) one unfolding validate_persisted_row_def Let_def own prod.case
    by (simp add: eall_eq_Inr)
qed

lemma series_sort_key_row [simp]:
  "series_sort_key (row_series_identity (prr_identity p)) = semantic_identity_key p"
  by (simp add: series_sort_key_def row_series_identity_def semantic_identity_key_def Let_def)

lemma generation_replays:
  assumes "price_inv db" and "list_all2 (row_stored m (run_id r) db) (res_rows result) (run_pairs (run_id r) db)"
    and "length (run_references (run_id r) db) = 3 * length (res_rows result)"
    and "length (run_changes (run_id r) db) = 3 * length (res_rows result)"
    and "validate_result m result = Inr missing" and "run_fields_match r result missing"
  shows "validate_persisted_replay m r result missing db = Inr (map fst (run_pairs (run_id r) db))"
proof -
  let ?ps = "res_rows result" and ?pairs = "run_pairs (run_id r) db"
  have rows: "\<forall>p \<in> set ?ps. validate_row m p = Inr ()"
    and keys: "map semantic_identity_key ?ps = expected_identity_keys (gm_registry m)"
    using assms(5) by (auto simp: validate_result_def require_eq_Inr eall_eq_Inr elim!: ebind_InrE)
  have "map (\<lambda>(s, x). series_sort_key (ser_identity x)) ?pairs = map semantic_identity_key ?ps"
    using arg_cong [OF stored_identities [OF assms(2)], of "map series_sort_key"] by (simp add: comp_def case_prod_unfold)
  then have "sorted (map (\<lambda>(s, x). series_sort_key (ser_identity x)) ?pairs)"
    by (simp add: keys expected_identity_keys_def)
  then have snaps: "run_snapshots (run_id r) db = ?pairs"
    by (simp add: run_snapshots_pairs sort_key_id_if_sorted)
  have len: "length ?pairs = length ?ps" using list_all2_lengthD [OF assms(2)] by simp
  have "validate_persisted_row m db (run_references (run_id r) db) (run_changes (run_id r) db) z = Inr ()"
    if z: "z \<in> set (zip ?ps ?pairs)" for z
  proof -
    obtain p s x where e: "z = (p, s, x)" by (metis prod_cases3)
    have "row_stored m (run_id r) db p (s, x)" "p \<in> set ?ps"
      using assms(2) z unfolding e by (auto simp: list_all2_iff dest: set_zip_leftD)
    then show ?thesis using persisted_row_replays [OF assms(1)] rows unfolding e by blast
  qed
  then have "eall (validate_persisted_row m db (run_references (run_id r) db) (run_changes (run_id r) db))
      (zip ?ps ?pairs) = Inr ()"
    by (simp add: eall_eq_Inr)
  then show ?thesis
    using assms(3,4,6) len by (simp add: validate_persisted_replay_def Let_def snaps)
qed

section \<open>A first completion\<close>

definition ready_to_complete ::
    "generation_module \<Rightarrow> (nat \<Rightarrow> uuid) \<Rightarrow> instant \<Rightarrow> parse_run \<Rightarrow> parsed_recent_price_result
      \<Rightarrow> 'a price_db_scheme \<Rightarrow> bool" where
  "ready_to_complete m ids now r result db \<longleftrightarrow>
     get_row run_id (run_id r) (db_runs db) = Some r \<and> run_status r = RUN_STARTED
     \<and> (\<exists>a. get_row ar_id (run_artifact r) (db_artifacts db) = Some a \<and> validate_parse_run_contract m r a = Inr ())
     \<and> run_started_at r \<le> now \<and> integer_field (res_input_row_count result)
     \<and> inj ids \<and> unused_ids ids db \<and> list_all (\<lambda>p. series_agree m p db) (res_rows result)"

lemma validated_run_simps [simp]:
  "run_id (validated_run now result n r) = run_id r" "run_status (validated_run now result n r) = RUN_VALIDATED"
  "run_started_at (validated_run now result n r) = run_started_at r"
  "run_artifact (validated_run now result n r) = run_artifact r"
  "run_parser_revision (validated_run now result n r) = run_parser_revision r"
  "run_configuration_hash (validated_run now result n r) = run_configuration_hash r"
  by (simp_all add: validated_run_def)

lemma validated_run_saves:
  assumes "import_generation = Inr m" and "price_inv db" and "ready_to_complete m ids now r result db"
    and "validate_result m result = Inr missing"
  shows "save_parse_run False (validated_run now result missing r) db
    = Inr (db\<lparr>db_runs := upsert_row run_id (validated_run now result missing r) (db_runs db)\<rparr>)"
proof -
  let ?r = "validated_run now result missing r"
  note ready = assms(3) [unfolded ready_to_complete_def]
  obtain a where a: "get_row ar_id (run_artifact r) (db_artifacts db) = Some a"
    "validate_parse_run_contract m r a = Inr ()" using ready by blast
  have rev: "run_parser_revision r = KAMIS_PARSER_REVISION" "run_configuration_hash r = gm_configuration_sha256 m"
    using a(2) by (auto simp: validate_parse_run_contract_def require_eq_Inr elim!: ebind_InrE)
  have hash: "SHA256_PATTERN (res_result_hash result)"
    and cnt: "res_input_row_count result = accepted_row_count result + res_out_of_scope_row_count result"
    and miss: "missing = missing_reference_count result"
    using assms(4)
    by (auto simp: validate_result_def require_eq_Inr of_option_eq_Inr SHA256_PATTERN_def
          elim!: ebind_InrE dest: canonical_hash_text)
  have le: "missing \<le> accepted_row_count result"
    unfolding miss missing_reference_count_def accepted_row_count_def by (rule length_filter_le)
  have small: "integer_field (accepted_row_count result)" "integer_field missing"
    "integer_field (res_out_of_scope_row_count result)" "integer_field (res_input_row_count result)"
    using ready cnt le by (auto simp: integer_field_def)
  have chash: "SHA256_PATTERN (gm_configuration_sha256 m)" by (rule imported_configuration_hash [OF assms(1)])
  have rev_ok: "char_field 64 KAMIS_PARSER_REVISION" "KAMIS_PARSER_REVISION \<noteq> []"
    by (simp_all add: KAMIS_PARSER_REVISION_def char_field_def)
  have fields: "parse_run_fields ?r" "parse_run_constraints ?r"
    using hash SHA256_PATTERN_length [OF hash] chash rev_ok small cnt le ready
    by (simp_all add: parse_run_fields_def parse_run_constraints_def validated_run_def rev run_outcome_valid_def
          blank_field_def integer_field_def [of 0])
  have runs: "distinct (map run_identity (db_runs db))" using assms(2) by (simp add: price_inv_def price_keys_def)
  have "parse_run_unique False ?r (db_runs db)"
  proof -
    have "run_id x = run_id r" if "x \<in> set (db_runs db)" "run_identity x = run_identity r" for x
    proof -
      have "r \<in> set (db_runs db)" using ready get_row_Some by fastforce
      moreover have "inj_on run_identity (set (db_runs db))" using runs by (simp add: distinct_map)
      ultimately have "x = r" using that by (auto dest: inj_onD)
      then show ?thesis by simp
    qed
    then show ?thesis by (auto simp: parse_run_unique_def list_ex_iff run_identity_def)
  qed
  moreover have "run_artifact r \<in> ar_id ` set (db_artifacts db)" using get_row_Some [OF a(1)] by (metis imageI)
  ultimately show ?thesis
    using ready fields
    by (simp add: save_parse_run_def same_run_identity_def require_def)
qed

lemma first_completion:
  assumes "import_generation = Inr m" and "price_inv db" and "ready_to_complete m ids now r result db"
    and "validate_result m result = Inr missing"
  shows "\<exists>db' snapshots. complete_kamis_parse_generation m ids now (run_id r) result db
      = Inr (\<lparr>cg_parse_run = validated_run now result missing r, cg_snapshots = snapshots, cg_replayed = False\<rparr>, db')
    \<and> length snapshots = length (res_rows result)
    \<and> list_all2 (row_stored m (run_id r) db') (res_rows result) (run_pairs (run_id r) db')
    \<and> snapshots = map fst (run_pairs (run_id r) db')"
proof -
  let ?r = "validated_run now result missing r" and ?k = "run_id r"
  note ready = assms(3) [unfolded ready_to_complete_def]
  obtain a where a: "get_row ar_id (run_artifact r) (db_artifacts db) = Some a"
    "validate_parse_run_contract m r a = Inr ()" using ready by blast
  let ?d1 = "db\<lparr>db_runs := upsert_row run_id ?r (db_runs db)\<rparr>"
  note saved = validated_run_saves [OF assms]
  have inv1: "price_inv ?d1" using save_parse_run_evolves [OF saved] assms(2) by (simp add: evolves_def)
  have val: "run_validated (db_runs ?d1) ?k" by (simp add: run_validated_def get_row_upsert)
  have rows: "\<forall>p \<in> set (res_rows result). validate_row m p = Inr ()"
    and keys: "map semantic_identity_key (res_rows result) = expected_identity_keys (gm_registry m)"
    using assms(4) by (auto simp: validate_result_def require_eq_Inr eall_eq_Inr elim!: ebind_InrE)
  have none: "\<not> sn_parse_run s = ?k" if "s \<in> set (db_snapshots db)" for s
    using assms(2) that ready by (auto simp: price_inv_def price_links_def list_all_iff run_validated_def)
  have none_at: "get_row sn_id i (db_snapshots db) = Some s \<Longrightarrow> sn_parse_run s \<noteq> ?k" for i s
    using none get_row_Some by fast
  have pairs0: "run_pairs ?k ?d1 = []" "run_references ?k ?d1 = []" "run_changes ?k ?d1 = []"
    using none none_at
    by (auto simp: run_pairs_def List.map_filter_def filter_empty_conv run_references_def run_changes_def
          split: option.splits)
  have un: "unused_ids ids ?d1" using ready by (simp add: unused_ids_def)
  have l0: "loop_state m ?k (\<lambda>j. ids (8 * 0 + j)) ?d1 []"
    using inv1 val un ready pairs0 by (simp add: loop_state_def)
  have agree: "\<forall>p \<in> set (res_rows result). series_agree m p ?d1"
    using ready by (simp add: list_all_iff series_agree_def)
  have "distinct (map (\<lambda>p. row_series_identity (prr_identity p)) ([] @ res_rows result))"
  proof -
    have "distinct (map semantic_identity_key (res_rows result))"
      using expected_keys_distinct(1) assms(1) by (simp add: keys import_generation_Inr)
    then have "distinct (map series_sort_key (map (\<lambda>p. row_series_identity (prr_identity p)) (res_rows result)))"
      by (simp add: comp_def)
    then show ?thesis unfolding append_Nil by (rule distinct_map [THEN iffD1, THEN conjunct1])
  qed
  then obtain us db' where loop: "estate (persist_row m ids ?k)
      (zip [0..<length (res_rows result)] (res_rows result)) ?d1 = Inr (us, db')"
    and l: "loop_state m ?k (\<lambda>j. ids (8 * (0 + length (res_rows result)) + j)) db' (res_rows result)"
    using loop_all [OF l0 assms(1) rows agree] by auto
  have st: "price_inv db'" "list_all2 (row_stored m ?k db') (res_rows result) (run_pairs ?k db')"
    "length (run_references ?k db') = 3 * length (res_rows result)"
    "length (run_changes ?k db') = 3 * length (res_rows result)"
    using l by (simp_all add: loop_state_def)
  have fm: "run_fields_match ?r result missing" by (simp add: run_fields_match_def validated_run_def)
  have replay: "validate_persisted_replay m ?r result missing db' = Inr (map fst (run_pairs ?k db'))"
    using generation_replays [of db' m ?r result missing] st assms(4) fm by simp
  have get: "get_run ?k db = Inr (r, a)" using ready a(1) by (simp add: get_run_def db_step_def)
  have "complete_kamis_parse_generation m ids now ?k result db
      = Inr (\<lparr>cg_parse_run = ?r, cg_snapshots = map fst (run_pairs ?k db'), cg_replayed = False\<rparr>, db')"
    using ready get a(2) saved loop replay assms(4)
    by (simp add: complete_kamis_parse_generation_def complete_generation_body_def at_boundary_Inr db_step_def Let_def)
  then show ?thesis using st(2) list_all2_lengthD [OF st(2)] by simp
qed

end
