(* ===== verification/Generation_Evidence.thy ===== *)
theory Generation_Evidence
  imports Generation_Run
begin

text \<open>
  The system of the acquisition side and the parse generations, as a step relation, and its
  theorems: stored facts are the recalculation of stored prices in every reachable state, facts
  are only added and finished runs final, the first completion of an admitted result succeeds, and
  a completed generation replays to the same snapshots whatever happened in between.
\<close>

section \<open>Steps\<close>

text \<open>
  An acquisition step works on the tables of \<open>fetch_db\<close> and leaves the others alone.
\<close>

inductive price_step :: "generation_module \<Rightarrow> price_db \<Rightarrow> price_db \<Rightarrow> bool" for m where
  acquire: "fetch_step (fetch_db.truncate db) f \<Longrightarrow> price_step m db (fetch_db.extend f (fetch_db.more db))"
| start_run: "start_or_get_kamis_parse_run m ids now a db = Inr (r, created, db') \<Longrightarrow> price_step m db db'"
| complete_run: "complete_kamis_parse_generation m ids now k result db = Inr (g, db') \<Longrightarrow> price_step m db db'"
| fail_run: "fail_kamis_parse_run m now k code db = Inr (r, db') \<Longrightarrow> price_step m db db'"

inductive_cases price_stepE: "price_step m db db'"

definition empty_price_db :: price_db where
  "empty_price_db = fetch_db.extend empty_db
     \<lparr>db_runs = [], db_series = [], db_snapshots = [], db_references = [], db_changes = []\<rparr>"

definition price_reachable :: "generation_module \<Rightarrow> price_db \<Rightarrow> bool" where
  "price_reachable m db \<longleftrightarrow> (price_step m)\<^sup>*\<^sup>* empty_price_db db"

section \<open>What a step leaves alone\<close>

text \<open>The facts of one run, as the replay reads them.\<close>

definition same_run_facts :: "uuid \<Rightarrow> 'a price_db_scheme \<Rightarrow> 'a price_db_scheme \<Rightarrow> bool" where
  "same_run_facts k db db' \<longleftrightarrow> run_pairs k db' = run_pairs k db
     \<and> run_references k db' = run_references k db \<and> run_changes k db' = run_changes k db"

definition evolves_off :: "uuid \<Rightarrow> 'a price_db_scheme \<Rightarrow> 'a price_db_scheme \<Rightarrow> bool" where
  "evolves_off k db db' \<longleftrightarrow> price_inv db \<longrightarrow> price_inv db' \<and> keeps_facts db db' \<and> same_run_facts k db db'"

lemma evolves_off_refl [simp]: "evolves_off k db db"
  by (simp add: evolves_off_def same_run_facts_def)

lemma evolves_off_trans: "evolves_off k a b \<Longrightarrow> evolves_off k b c \<Longrightarrow> evolves_off k a c"
  unfolding evolves_off_def same_run_facts_def using keeps_facts_trans by fastforce

lemma evolves_off_evolves: "evolves_off k db db' \<Longrightarrow> evolves db db'"
  by (simp add: evolves_off_def evolves_def)

definition in_other_run :: "uuid \<Rightarrow> uuid \<Rightarrow> 'a price_db_scheme \<Rightarrow> bool" where
  "in_other_run k i db \<longleftrightarrow> (\<exists>s. get_row sn_id i (db_snapshots db) = Some s \<and> sn_parse_run s \<noteq> k)"

lemma get_row_prefix: "prefix xs ys \<Longrightarrow> get_row key k xs = Some r \<Longrightarrow> get_row key k ys = Some r"
  by (auto simp: prefix_def get_row_append)

lemma in_other_run_keeps: "in_other_run k i db \<Longrightarrow> keeps_facts db db' \<Longrightarrow> in_other_run k i db'"
  unfolding in_other_run_def keeps_facts_def
  using get_row_prefix [of "db_snapshots db" "db_snapshots db'" sn_id i] by blast

lemma run_pairs_eq:
  "db_snapshots db' = db_snapshots db \<Longrightarrow> db_series db' = db_series db \<Longrightarrow> run_pairs k db' = run_pairs k db"
  by (simp add: run_pairs_def snapshot_series_def cong: if_cong)

lemma run_references_eq:
  "db_snapshots db' = db_snapshots db \<Longrightarrow> db_references db' = db_references db
     \<Longrightarrow> run_references k db' = run_references k db"
  by (simp add: run_references_def)

lemma run_changes_eq:
  "db_snapshots db' = db_snapshots db \<Longrightarrow> db_references db' = db_references db
     \<Longrightarrow> db_changes db' = db_changes db \<Longrightarrow> run_changes k db' = run_changes k db"
  by (simp add: run_changes_def cong: option.case_cong)

lemma run_references_cong:
  assumes "price_inv db" and "prefix (db_snapshots db) (db_snapshots db')"
    and "db_references db' = db_references db @ new" and "\<forall>r \<in> set new. in_other_run k (sr_snapshot r) db'"
  shows "run_references k db' = run_references k db"
proof -
  have "get_row sn_id (sr_snapshot r) (db_snapshots db') = get_row sn_id (sr_snapshot r) (db_snapshots db)"
    if r: "r \<in> set (db_references db)" for r
  proof -
    have "sr_snapshot r \<in> sn_id ` set (db_snapshots db)"
      using assms(1) r by (simp add: price_inv_def price_links_def list_all_iff)
    then obtain x where "get_row sn_id (sr_snapshot r) (db_snapshots db) = Some x"
      using get_row_None [of sn_id "sr_snapshot r" "db_snapshots db"] by auto
    then show ?thesis using get_row_prefix [OF assms(2)] by simp
  qed
  then have "filter (\<lambda>r. case get_row sn_id (sr_snapshot r) (db_snapshots db') of None \<Rightarrow> False
      | Some s \<Rightarrow> sn_parse_run s = k) (db_references db) = run_references k db"
    unfolding run_references_def by (intro filter_cong) simp_all
  moreover have "filter (\<lambda>r. case get_row sn_id (sr_snapshot r) (db_snapshots db') of None \<Rightarrow> False
      | Some s \<Rightarrow> sn_parse_run s = k) new = []"
    using assms(4) by (auto simp: filter_empty_conv in_other_run_def)
  ultimately show ?thesis unfolding run_references_def [of k db'] assms(3) filter_append by simp
qed

lemma run_changes_cong:
  assumes "price_inv db" and "prefix (db_snapshots db) (db_snapshots db')"
    and "prefix (db_references db) (db_references db')" and "db_changes db' = db_changes db @ new"
    and "\<forall>c \<in> set new. \<exists>r. get_row sr_id (cf_reference_price c) (db_references db') = Some r
           \<and> in_other_run k (sr_snapshot r) db'"
  shows "run_changes k db' = run_changes k db"
proof -
  let ?own = "\<lambda>db x. case get_row sr_id (cf_reference_price x) (db_references db) of None \<Rightarrow> False
     | Some r \<Rightarrow> (case get_row sn_id (sr_snapshot r) (db_snapshots db) of None \<Rightarrow> False | Some s \<Rightarrow> sn_parse_run s = k)"
  have "?own db' x = ?own db x" if x: "x \<in> set (db_changes db)" for x
  proof -
    have "change_recalculates db x" using assms(1) x by (simp add: price_inv_def list_all_iff)
    then obtain r where r: "get_row sr_id (cf_reference_price x) (db_references db) = Some r"
      by (auto simp: change_recalculates_def split: option.split_asm)
    then have "sr_snapshot r \<in> sn_id ` set (db_snapshots db)"
      using assms(1) get_row_Some [OF r] by (auto simp: price_inv_def price_links_def list_all_iff)
    then obtain y where "get_row sn_id (sr_snapshot r) (db_snapshots db) = Some y"
      using get_row_None [of sn_id "sr_snapshot r" "db_snapshots db"] by auto
    then show ?thesis by (simp add: r get_row_prefix [OF assms(2)] get_row_prefix [OF assms(3) r])
  qed
  then have "filter (?own db') (db_changes db) = filter (?own db) (db_changes db)"
    by (intro filter_cong) auto
  moreover have "filter (?own db') new = []"
    using assms(5) by (auto simp: filter_empty_conv in_other_run_def)
  ultimately show ?thesis by (simp add: run_changes_def assms(4))
qed

lemma evolves_offI:
  assumes "evolves db db'"
    and "price_inv db \<Longrightarrow> price_inv db' \<Longrightarrow> keeps_facts db db' \<Longrightarrow> same_run_facts k db db'"
  shows "evolves_off k db db'"
  using assms by (simp add: evolves_off_def evolves_def)

lemma save_parse_run_off:
  assumes "save_parse_run adding r db = Inr db'"
  shows "evolves_off k db db'"
proof (rule evolves_offI [OF save_parse_run_evolves [OF assms]])
  note S = save_parse_run_Inr(1) [OF assms]
  show "same_run_facts k db db'"
    unfolding S same_run_facts_def by (intro conjI run_pairs_eq run_references_eq run_changes_eq) simp_all
qed

lemma save_series_off:
  assumes "save_series adding s db = Inr db'"
  shows "evolves_off k db db'"
proof (rule evolves_offI [OF save_series_evolves [OF assms]])
  assume inv: "price_inv db" and keeps: "keeps_facts db db'"
  note S = save_series_Inr(1) [OF assms]
  have pre: "prefix (db_series db) (db_series db')" using keeps by (simp add: keeps_facts_def)
  have sn: "db_snapshots db' = db_snapshots db" by (simp add: S)
  have "run_pairs k db' = run_pairs k db"
    using run_pairs_mono [OF inv pre, of k] unfolding run_pairs_def [of k db'] sn .
  moreover have "run_references k db' = run_references k db" by (rule run_references_eq) (simp_all add: S)
  moreover have "run_changes k db' = run_changes k db" by (rule run_changes_eq) (simp_all add: S)
  ultimately show "same_run_facts k db db'" by (simp add: same_run_facts_def)
qed

lemma save_snapshot_off:
  assumes "save_snapshot adding s db = Inr db'" and "sn_parse_run s \<noteq> k"
  shows "evolves_off k db db'"
proof (rule evolves_offI [OF save_snapshot_evolves [OF assms(1)]])
  assume inv: "price_inv db" and keeps: "keeps_facts db db'"
  note S = save_snapshot_Inr(1) [OF assms(1)]
  have p: "prefix (db_snapshots db) (db_snapshots db')" "prefix (db_references db) (db_references db')"
    using keeps by (simp_all add: keeps_facts_def)
  have "run_pairs k db' = run_pairs k db"
    using assms(2)
    by (simp add: run_pairs_def S map_filter_append List.map_filter_simps snapshot_series_def cong: if_cong)
  moreover have "run_references k db' = run_references k db"
    by (rule run_references_cong [OF inv p(1), of "[]"]) (simp_all add: S)
  moreover have "run_changes k db' = run_changes k db"
    by (rule run_changes_cong [OF inv p, of "[]"]) (simp_all add: S)
  ultimately show "same_run_facts k db db'" by (simp add: same_run_facts_def)
qed

lemma save_reference_off:
  assumes "save_reference adding r db = Inr db'" and "in_other_run k (sr_snapshot r) db"
  shows "evolves_off k db db'"
proof (rule evolves_offI [OF save_reference_evolves [OF assms(1)]])
  assume inv: "price_inv db" and keeps: "keeps_facts db db'"
  note S = save_reference_Inr(1) [OF assms(1)]
  have p: "prefix (db_snapshots db) (db_snapshots db')" "prefix (db_references db) (db_references db')"
    using keeps by (simp_all add: keeps_facts_def)
  have "run_pairs k db' = run_pairs k db"
    by (rule run_pairs_eq) (simp_all add: S)
  moreover have "run_references k db' = run_references k db"
    using in_other_run_keeps [OF assms(2) keeps] unfolding S by (intro run_references_cong [OF inv]) auto
  moreover have "run_changes k db' = run_changes k db"
    by (rule run_changes_cong [OF inv p, of "[]"]) (simp_all add: S)
  ultimately show "same_run_facts k db db'" by (simp add: same_run_facts_def)
qed

lemma save_change_off:
  assumes "save_change adding x db = Inr db'"
    and "get_row sr_id (cf_reference_price x) (db_references db) = Some r" and "in_other_run k (sr_snapshot r) db"
  shows "evolves_off k db db'"
proof (rule evolves_offI [OF save_change_evolves [OF assms(1)]])
  assume inv: "price_inv db" and keeps: "keeps_facts db db'"
  note S = save_change_Inr(1) [OF assms(1)]
  have p: "prefix (db_snapshots db) (db_snapshots db')" "prefix (db_references db) (db_references db')"
    using keeps by (simp_all add: keeps_facts_def)
  have "run_pairs k db' = run_pairs k db"
    by (rule run_pairs_eq) (simp_all add: S)
  moreover have "run_references k db' = run_references k db"
    by (rule run_references_cong [OF inv p(1), of "[]"]) (simp_all add: S)
  moreover have "run_changes k db' = run_changes k db"
    using assms(2) in_other_run_keeps [OF assms(3) keeps] unfolding S
    by (intro run_changes_cong [OF inv]) auto
  ultimately show "same_run_facts k db db'" by (simp add: same_run_facts_def)
qed

section \<open>Operations on another run\<close>

lemma estate_off:
  assumes "estate f xs s = Inr (ys, s')" and "\<And>x a y b. x \<in> set xs \<Longrightarrow> f x a = Inr (y, b) \<Longrightarrow> evolves_off k a b"
  shows "evolves_off k s s'"
  by (rule estate_rel [OF assms(1) evolves_off_refl evolves_off_trans assms(2) evolves_off_refl])

text \<open>A loop whose turns need a fact that evolution keeps.\<close>

lemma estate_off_keeping:
  assumes "estate f xs s = Inr (ys, s')" and "Q s" and "price_inv s"
    and "\<And>x a y b. x \<in> set xs \<Longrightarrow> f x a = Inr (y, b) \<Longrightarrow> Q a \<Longrightarrow> price_inv a \<Longrightarrow> evolves_off k a b"
    and "\<And>a b. Q a \<Longrightarrow> keeps_facts a b \<Longrightarrow> Q b"
  shows "evolves_off k s s' \<and> Q s'"
  using assms(1-4)
proof (induction xs arbitrary: s ys)
  case Nil
  then show ?case by simp
next
  case (Cons x xs)
  obtain y s1 ys1 where st: "f x s = Inr (y, s1)" "estate f xs s1 = Inr (ys1, s')"
    using Cons.prems(1) by (auto elim!: ebind_InrE split: prod.split_asm)
  have e: "evolves_off k s s1" using Cons.prems(2-4) st(1) by (meson list.set_intros(1))
  then have "Q s1" "price_inv s1" using Cons.prems(2,3) assms(5) by (auto simp: evolves_off_def)
  then have "evolves_off k s1 s' \<and> Q s'" using Cons.IH [OF st(2)] Cons.prems(4) by (meson list.set_intros(2))
  then show ?case using e evolves_off_trans by blast
qed

lemma series_get_or_validate_off:
  "series_get_or_validate new i f db = Inr (s, db') \<Longrightarrow> evolves_off k db db'"
  by (auto simp: series_get_or_validate_def Let_def elim!: ebind_InrE split: option.split_asm
           dest: save_series_off)

lemma snapshot_get_or_validate_off:
  assumes "snapshot_get_or_validate c db = Inr (s, db')" and "sn_parse_run c \<noteq> k" and "price_inv db"
  shows "evolves_off k db db'" and "in_other_run k (sn_id s) db'"
proof -
  consider "db' = db" "s \<in> set (db_snapshots db)" "sn_parse_run s = sn_parse_run c"
    | "save_snapshot True c db = Inr db'" "s = c"
    using assms(1)
    by (auto simp: snapshot_get_or_validate_def elim!: ebind_InrE split: option.split_asm dest!: find_Some_member)
  then have "evolves_off k db db' \<and> in_other_run k (sn_id s) db'"
  proof cases
    case 1
    then have "get_row sn_id (sn_id s) (db_snapshots db) = Some s"
      using assms(3) by (intro get_row_member) (auto simp: price_inv_def price_keys_def)
    then show ?thesis using 1 assms(2) by (auto simp: in_other_run_def)
  next
    case 2
    note S = save_snapshot_Inr [OF 2(1)]
    have "get_row sn_id (sn_id c) (db_snapshots db) = None" using S(2) by (simp add: get_row_None)
    then show ?thesis
      using save_snapshot_off [OF 2(1) assms(2)] assms(2)
      by (simp add: in_other_run_def S(1) get_row_append 2(2))
  qed
  then show "evolves_off k db db'" "in_other_run k (sn_id s) db'" by blast+
qed

lemma reference_get_or_validate_off:
  assumes "reference_get_or_validate c db = Inr (s, db')" and "in_other_run k (sr_snapshot c) db"
  shows "evolves_off k db db'"
  using assms
  by (auto simp: reference_get_or_validate_def elim!: ebind_InrE split: option.split_asm dest: save_reference_off)

text \<open>What a call returns is, or stands for, a row of the table.\<close>

lemma reference_get_or_validate_row:
  assumes "reference_get_or_validate c db = Inr (s, db')" and "price_inv db"
  shows "\<exists>r. get_row sr_id (sr_id s) (db_references db') = Some r \<and> sr_snapshot r = sr_snapshot c"
proof -
  consider "db' = db" "s \<in> set (db_references db)" "sr_snapshot s = sr_snapshot c"
    | "save_reference True c db = Inr db'" "s = c"
    using assms(1)
    by (auto simp: reference_get_or_validate_def elim!: ebind_InrE split: option.split_asm dest!: find_Some_member)
  then show ?thesis
  proof cases
    case 1
    then have "get_row sr_id (sr_id s) (db_references db) = Some s"
      using assms(2) by (intro get_row_member) (auto simp: price_inv_def price_keys_def)
    then show ?thesis using 1 by auto
  next
    case 2
    note S = save_reference_Inr [OF 2(1)]
    have "get_row sr_id (sr_id c) (db_references db) = None" using S(2) by (simp add: get_row_None)
    then show ?thesis by (simp add: S(1) get_row_append 2(2))
  qed
qed

lemma change_get_or_validate_off:
  assumes "change_get_or_validate new i db = Inr (x, db')"
    and "get_row sr_id i (db_references db) = Some r" and "in_other_run k (sr_snapshot r) db"
  shows "evolves_off k db db'"
proof -
  have "db' = db \<or> (\<exists>c. cf_reference_price c = i \<and> save_change True c db = Inr db')"
    using assms(1)
    by (auto simp: change_get_or_validate_def Let_def change_of_def elim!: ebind_InrE split: option.split_asm)
  then show ?thesis using save_change_off assms(2,3) by fastforce
qed

definition row_in_other_run :: "uuid \<Rightarrow> stored_reference \<Rightarrow> 'a price_db_scheme \<Rightarrow> bool" where
  "row_in_other_run k s db \<longleftrightarrow>
     (\<exists>r. get_row sr_id (sr_id s) (db_references db) = Some r \<and> in_other_run k (sr_snapshot r) db)"

lemma row_in_other_run_keeps: "row_in_other_run k s a \<Longrightarrow> keeps_facts a b \<Longrightarrow> row_in_other_run k s b"
  unfolding row_in_other_run_def
  using get_row_prefix [of "db_references a" "db_references b" sr_id "sr_id s"] in_other_run_keeps
  by (metis keeps_facts_def)

lemma references_loop_off:
  assumes "estate (\<lambda>(new, p). reference_get_or_validate (c new p)) xs db = Inr (rs, db')"
    and "\<And>new p. sr_snapshot (c new p) = i" and "in_other_run k i db" and "price_inv db"
  shows "evolves_off k db db' \<and> list_all (\<lambda>r. row_in_other_run k r db') rs"
  using assms(1,3,4)
proof (induction xs arbitrary: db rs)
  case Nil
  then show ?case by simp
next
  case (Cons x xs)
  obtain new p where x: "x = (new, p)" by (cases x)
  obtain r db1 rs1 where r: "reference_get_or_validate (c new p) db = Inr (r, db1)"
    and rest: "estate (\<lambda>(new, p). reference_get_or_validate (c new p)) xs db1 = Inr (rs1, db')" "rs = r # rs1"
    using Cons.prems(1) unfolding x by (auto elim!: ebind_InrE split: prod.split_asm)
  have e: "evolves_off k db db1"
    using reference_get_or_validate_off [OF r, of k] Cons.prems(2) assms(2) by simp
  then have k1: "keeps_facts db db1" "price_inv db1" using Cons.prems(3) by (auto simp: evolves_off_def)
  have i1: "in_other_run k i db1" by (rule in_other_run_keeps [OF Cons.prems(2) k1(1)])
  have "row_in_other_run k r db1"
    using reference_get_or_validate_row [OF r Cons.prems(3)] i1 assms(2) by (auto simp: row_in_other_run_def)
  moreover have IH: "evolves_off k db1 db' \<and> list_all (\<lambda>r. row_in_other_run k r db') rs1"
    by (rule Cons.IH [OF rest(1) i1 k1(2)])
  ultimately have "row_in_other_run k r db'"
    using k1(2) row_in_other_run_keeps by (auto simp: evolves_off_def)
  then show ?case using IH e rest(2) evolves_off_trans by auto
qed

lemma changes_loop_off:
  assumes "estate (\<lambda>(new, r). change_get_or_validate new (sr_id r)) xs db = Inr (cs, db')"
    and "\<forall>x \<in> set xs. row_in_other_run k (snd x) db" and "price_inv db"
  shows "evolves_off k db db'"
proof -
  let ?Q = "\<lambda>a. \<forall>x \<in> set xs. row_in_other_run k (snd x) a"
  have "evolves_off k db db' \<and> ?Q db'"
  proof (rule estate_off_keeping [where Q = ?Q, OF assms])
    fix x a y b
    assume x: "x \<in> set xs" "(case x of (new, r) \<Rightarrow> change_get_or_validate new (sr_id r)) a = Inr (y, b)" "?Q a"
    obtain new r where e: "x = (new, r)" by (cases x)
    then have "row_in_other_run k r a" using x by auto
    then obtain row where "get_row sr_id (sr_id r) (db_references a) = Some row"
      "in_other_run k (sr_snapshot row) a"
      unfolding row_in_other_run_def by blast
    then show "evolves_off k a b" using change_get_or_validate_off x(2) unfolding e prod.case by blast
  next
    fix a b
    show "?Q a \<Longrightarrow> keeps_facts a b \<Longrightarrow> ?Q b" using row_in_other_run_keeps by blast
  qed
  then show ?thesis by blast
qed

lemma persist_facts_off:
  assumes "persist_reference_price_facts ids i vs db = Inr (cs, db')"
    and "in_other_run k i db" and "price_inv db"
  shows "evolves_off k db db'"
proof -
  obtain rs db1 where
    refs: "estate (\<lambda>(new, period). reference_get_or_validate (reference_candidate new i period
        (Option.bind (map_of vs period) (\<lambda>v. v)))) (zip (map ids [0, 1, 2]) all_periods) db = Inr (rs, db1)"
    and chs: "estate (\<lambda>(new, r). change_get_or_validate new (sr_id r)) (zip (map ids [3, 4, 5]) rs) db1
      = Inr (cs, db')"
    using assms(1)
    unfolding persist_reference_price_facts_def by (elim ebind_InrE) (auto split: prod.split_asm)
  have 1: "evolves_off k db db1 \<and> list_all (\<lambda>r. row_in_other_run k r db1) rs"
    by (rule references_loop_off [OF refs _ assms(2,3)]) (simp add: reference_candidate_def)
  then have "price_inv db1" using assms(3) by (simp add: evolves_off_def)
  moreover have "\<forall>x \<in> set (zip (map ids [3, 4, 5]) rs). row_in_other_run k (snd x) db1"
    using 1 by (auto simp: list_all_iff dest: set_zip_rightD)
  ultimately have "evolves_off k db1 db'" using changes_loop_off [OF chs] by blast
  then show ?thesis using 1 evolves_off_trans by blast
qed

lemma persist_row_off:
  assumes "persist_row m ids j turn db = Inr (u, db')" and "j \<noteq> k" and "price_inv db"
  shows "evolves_off k db db'"
proof -
  obtain i p where t: "turn = (i, p)" by (cases turn)
  obtain s db1 where 1: "series_get_or_validate (ids (8 * i + 6)) (row_series_identity (prr_identity p))
      (row_reviewed_fields m (prr_identity p)) db = Inr (s, db1)"
    and rest: "ebind (snapshot_get_or_validate (row_snapshot (ids (8 * i + 7)) j (ser_id s) p) db1)
      (\<lambda>(snapshot, db2).
     ebind (persist_reference_price_facts (\<lambda>j. ids (8 * i + j)) (sn_id snapshot)
              (map (\<lambda>r. (prf_period r, prf_value r)) (prr_references p)) db2) (\<lambda>(_, db3).
     Inr ((), db3))) = Inr (u, db')"
    using assms(1) unfolding persist_row_def t Let_def prod.case row_snapshot_def
    by (elim ebind_InrE) (auto split: prod.split_asm)
  obtain sn db2 cs where 2: "snapshot_get_or_validate (row_snapshot (ids (8 * i + 7)) j (ser_id s) p) db1
      = Inr (sn, db2)"
    and 3: "persist_reference_price_facts (\<lambda>j. ids (8 * i + j)) (sn_id sn)
              (map (\<lambda>r. (prf_period r, prf_value r)) (prr_references p)) db2 = Inr (cs, db')"
    using rest by (elim ebind_InrE) (auto split: prod.split_asm elim!: ebind_InrE)
  have e1: "evolves_off k db db1" by (rule series_get_or_validate_off [OF 1])
  then have inv1: "price_inv db1" using assms(3) by (simp add: evolves_off_def)
  have r: "sn_parse_run (row_snapshot (ids (8 * i + 7)) j (ser_id s) p) \<noteq> k"
    using assms(2) by (simp add: row_snapshot_def)
  note e2 = snapshot_get_or_validate_off [OF 2 r inv1]
  then have inv2: "price_inv db2" using inv1 by (simp add: evolves_off_def)
  have "evolves_off k db2 db'" by (rule persist_facts_off [OF 3 e2(2) inv2])
  then show ?thesis using e1 e2(1) evolves_off_trans by blast
qed

lemma complete_run_off:
  assumes "complete_kamis_parse_generation m ids now j result db = Inr (g, db')"
    and "run_validated (db_runs db) k" and "price_inv db"
  shows "evolves_off k db db'"
proof -
  have "complete_generation_body m ids now j result db = Inr (g, db')"
    using assms(1) by (simp add: complete_kamis_parse_generation_def at_boundary_Inr)
  then show ?thesis
  proof (cases rule: complete_body_Inr)
    case (first r a missing snapshots db1 us)
    have jk: "j \<noteq> k"
      using first(1,3) assms(2)
      by (auto simp: get_run_def run_validated_def db_step_Inr of_option_eq_Inr elim!: ebind_InrE)
    have e1: "evolves_off k db db1" by (rule save_parse_run_off [OF first(5)])
    then have inv1: "price_inv db1" using assms(3) by (simp add: evolves_off_def)
    have "evolves_off k db1 db' \<and> True"
      by (rule estate_off_keeping [where Q = "\<lambda>_. True", OF first(6) _ inv1])
         (auto intro: persist_row_off [OF _ jk])
    then show ?thesis using e1 evolves_off_trans by blast
  qed simp
qed

section \<open>Runs of the system\<close>

definition system_inv :: "price_db \<Rightarrow> bool" where
  "system_inv db \<longleftrightarrow> price_inv db \<and> fetch_inv (fetch_db.truncate db)"

lemma extend_tables [simp]:
  "db_runs (fetch_db.extend f (fetch_db.more db)) = db_runs db"
  "db_series (fetch_db.extend f (fetch_db.more db)) = db_series db"
  "db_snapshots (fetch_db.extend f (fetch_db.more db)) = db_snapshots db"
  "db_references (fetch_db.extend f (fetch_db.more db)) = db_references db"
  "db_changes (fetch_db.extend f (fetch_db.more db)) = db_changes db"
  "db_artifacts (fetch_db.extend f (fetch_db.more db)) = db_artifacts f"
  "fetch_db.truncate (fetch_db.extend f (fetch_db.more db)) = f"
  for db :: price_db
  by (cases db, simp add: fetch_db.defs)+

text \<open>The operations of a generation read the tables of the acquisition and do not write them.\<close>

definition same_acquisition :: "'a price_db_scheme \<Rightarrow> 'a price_db_scheme \<Rightarrow> bool" where
  "same_acquisition db db' \<longleftrightarrow> fetch_db.truncate db' = fetch_db.truncate db"

lemma same_acquisition_refl [simp]: "same_acquisition db db"
  by (simp add: same_acquisition_def)

lemma same_acquisition_trans: "same_acquisition a b \<Longrightarrow> same_acquisition b c \<Longrightarrow> same_acquisition a c"
  by (simp add: same_acquisition_def)

lemma saves_same_acquisition:
  "save_parse_run adding r db = Inr db' \<Longrightarrow> same_acquisition db db'"
  "save_series adding s db = Inr db' \<Longrightarrow> same_acquisition db db'"
  "save_snapshot adding sn db = Inr db' \<Longrightarrow> same_acquisition db db'"
  "save_reference adding rf db = Inr db' \<Longrightarrow> same_acquisition db db'"
  "save_change adding x db = Inr db' \<Longrightarrow> same_acquisition db db'"
  by (auto simp: same_acquisition_def fetch_db.defs dest!: save_parse_run_Inr(1) save_series_Inr(1)
        save_snapshot_Inr(1) save_reference_Inr(1) save_change_Inr(1))

lemma calls_same_acquisition:
  "series_get_or_validate new i f db = Inr (s, db') \<Longrightarrow> same_acquisition db db'"
  "snapshot_get_or_validate sc db = Inr (sn, db') \<Longrightarrow> same_acquisition db db'"
  "reference_get_or_validate rc db = Inr (r, db') \<Longrightarrow> same_acquisition db db'"
  "change_get_or_validate new k db = Inr (x, db') \<Longrightarrow> same_acquisition db db'"
  by (auto simp: series_get_or_validate_def snapshot_get_or_validate_def reference_get_or_validate_def
        change_get_or_validate_def Let_def elim!: ebind_InrE split: option.split_asm
        dest: saves_same_acquisition)

lemma persist_row_same_acquisition:
  assumes "persist_row m ids j turn db = Inr (u, db')"
  shows "same_acquisition db db'"
proof -
  note loop = estate_rel [where R = same_acquisition, OF _ same_acquisition_refl same_acquisition_trans _ same_acquisition_refl]
  have facts: "same_acquisition a b" if f: "persist_reference_price_facts new i vs a = Inr (cs, b)" for new i vs a cs b
  proof -
    obtain rs c where
      refs: "estate (\<lambda>(n, period). reference_get_or_validate (reference_candidate n i period
          (Option.bind (map_of vs period) (\<lambda>v. v)))) (zip (map new [0, 1, 2]) all_periods) a = Inr (rs, c)"
      and chs: "estate (\<lambda>(n, r). change_get_or_validate n (sr_id r)) (zip (map new [3, 4, 5]) rs) c = Inr (cs, b)"
      using f unfolding persist_reference_price_facts_def by (elim ebind_InrE) (auto split: prod.split_asm)
    have "same_acquisition a c"
      by (rule loop [OF refs]) (auto split: prod.split_asm intro: calls_same_acquisition)
    moreover have "same_acquisition c b"
      by (rule loop [OF chs]) (auto split: prod.split_asm intro: calls_same_acquisition)
    ultimately show ?thesis by (rule same_acquisition_trans)
  qed
  show ?thesis
    using assms unfolding persist_row_def Let_def
    by (auto elim!: ebind_InrE split: prod.split_asm
          dest!: facts calls_same_acquisition intro: same_acquisition_trans)
qed

lemma complete_run_same_acquisition:
  assumes "complete_kamis_parse_generation m ids now j result db = Inr (g, db')"
  shows "same_acquisition db db'"
proof -
  have "complete_generation_body m ids now j result db = Inr (g, db')"
    using assms by (simp add: complete_kamis_parse_generation_def at_boundary_Inr)
  then show ?thesis
  proof (cases rule: complete_body_Inr)
    case (first r a missing snapshots db1 us)
    have "same_acquisition db1 db'"
      by (rule estate_rel [where R = same_acquisition, OF first(6) same_acquisition_refl same_acquisition_trans
            persist_row_same_acquisition same_acquisition_refl])
    then show ?thesis using saves_same_acquisition(1) [OF first(5)] same_acquisition_trans by blast
  qed simp
qed

lemma start_run_Inr:
  assumes "start_or_get_kamis_parse_run m ids now a db = Inr (r, created, db')"
  shows "db' = db \<or> save_parse_run True r db = Inr db'"
  using assms
  by (auto simp: start_or_get_kamis_parse_run_def at_boundary_Inr db_step_Inr Let_def
           elim!: ebind_InrE split: option.split_asm)

lemma price_step_keeps:
  assumes "price_step m db db'" and "system_inv db"
  shows "system_inv db' \<and> keeps_facts db db' \<and> prefix (db_artifacts db) (db_artifacts db')
    \<and> (\<forall>k. run_validated (db_runs db) k \<longrightarrow> same_run_facts k db db')"
  using assms(1)
proof (cases rule: price_step.cases)
  case (acquire f)
  have inv: "price_inv db" "fetch_inv (fetch_db.truncate db)" using assms(2) by (simp_all add: system_inv_def)
  have t: "db_runs db' = db_runs db" "db_series db' = db_series db" "db_snapshots db' = db_snapshots db"
    "db_references db' = db_references db" "db_changes db' = db_changes db" "fetch_db.truncate db' = f"
    "db_artifacts db' = db_artifacts f"
    by (simp_all add: acquire(1))
  have "price_inv db'"
    using inv(1) change_recalculates_cong [OF t(4,3)]
    by (simp add: price_inv_def price_keys_def price_links_def t list_all_iff)
  moreover have "fetch_inv f" by (rule fetch_step_inv [OF acquire(2) inv(2)])
  moreover have "prefix (db_artifacts db) (db_artifacts f)"
    using fetch_step_keeps [OF acquire(2) inv(2)]
    by (auto simp: keeps_finished_def prefix_def fetch_db.defs)
  moreover have "same_run_facts k db db'" for k
    unfolding same_run_facts_def by (intro conjI run_pairs_eq run_references_eq run_changes_eq) (simp_all add: t)
  ultimately show ?thesis by (simp add: system_inv_def t keeps_facts_def)
next
  case (start_run ids now a r created)
  then have "db' = db \<or> save_parse_run True r db = Inr db'" using start_run_Inr by blast
  then have "\<And>k. evolves_off k db db'" "same_acquisition db db'"
    using save_parse_run_off saves_same_acquisition(1) by auto
  then show ?thesis
    using assms(2) by (auto simp: system_inv_def evolves_off_def same_acquisition_def fetch_db.defs)
next
  case (complete_run ids now k result g)
  have "same_acquisition db db'" "evolves db db'"
    using complete_run_same_acquisition [OF complete_run] complete_run_evolves [OF complete_run] by blast+
  then show ?thesis
    using assms(2) complete_run_off [OF complete_run]
    by (auto simp: system_inv_def evolves_off_def evolves_def same_acquisition_def fetch_db.defs)
next
  case (fail_run now k code r)
  then have saved: "save_parse_run False r db = Inr db'" by (rule fail_run_Inr)
  note save_parse_run_off [OF saved] saves_same_acquisition(1) [OF saved]
  then show ?thesis
    using assms(2) by (auto simp: system_inv_def evolves_off_def same_acquisition_def fetch_db.defs)
qed

definition price_grows :: "price_db \<Rightarrow> price_db \<Rightarrow> bool" where
  "price_grows db db' \<longleftrightarrow> keeps_facts db db' \<and> prefix (db_artifacts db) (db_artifacts db')
     \<and> (\<forall>k. run_validated (db_runs db) k \<longrightarrow> same_run_facts k db db')"

lemma run_validated_keeps: "keeps_facts db db' \<Longrightarrow> run_validated (db_runs db) k \<Longrightarrow> run_validated (db_runs db') k"
  by (auto simp: run_validated_def keeps_facts_def split: option.split_asm)

lemma price_grows_trans: "price_grows a b \<Longrightarrow> price_grows b c \<Longrightarrow> price_grows a c"
  using keeps_facts_trans [of a b c] run_validated_keeps [of a b]
  by (auto simp: price_grows_def same_run_facts_def dest: prefix_order.trans)

lemma empty_system_inv: "system_inv empty_price_db"
  by (simp add: system_inv_def empty_price_db_def price_inv_def price_keys_def price_links_def
        fetch_db.defs empty_db_def fetch_inv_def)

text \<open>Acquisition and generations together are a growing system.\<close>

interpretation generation: started_system system_inv "price_step m" price_grows empty_price_db for m
proof
  fix s s'
  assume inv: "system_inv s"
  show "price_grows s s" by (simp add: price_grows_def same_run_facts_def)
  show "system_inv s'" "price_grows s s'" if "price_step m s s'"
    using price_step_keeps [OF that inv] by (simp_all add: price_grows_def)
qed (use empty_system_inv price_grows_trans in blast)+

lemma reachable_system_inv: "price_reachable m db \<Longrightarrow> system_inv db"
  using generation.reachable_inv by (simp add: price_reachable_def)

section \<open>Theorems\<close>

lemma expected_fields_keeps:
  assumes "expected_fields r db = Inr e" and "keeps_facts db db'" and "price_keys db'"
  shows "expected_fields r db' = Inr e"
proof -
  obtain sns rs where sns: "db_snapshots db' = db_snapshots db @ sns" and rs: "db_references db' = db_references db @ rs"
    using assms(2) by (auto simp: keeps_facts_def prefix_def)
  have "distinct (map (\<lambda>r. (sr_snapshot r, sr_period r)) (db_references db @ rs))"
    using assms(3) by (simp add: price_keys_def rs)
  then have "\<forall>x \<in> set rs. \<not> (\<exists>y \<in> set (db_references db). sr_snapshot y = sr_snapshot x \<and> sr_period y = sr_period x)"
    by (fastforce simp: image_iff disjoint_iff)
  then show ?thesis by (rule expected_fields_mono [OF assms(1) sns rs])
qed

lemma replay_keeps:
  assumes "validate_persisted_replay m r result n db = Inr ss" and "keeps_facts db db'" and "price_keys db'"
    and "same_run_facts (run_id r) db db'"
  shows "validate_persisted_replay m r result n db' = Inr ss"
proof -
  have same: "run_snapshots (run_id r) db' = run_snapshots (run_id r) db"
    "run_references (run_id r) db' = run_references (run_id r) db" "run_changes (run_id r) db' = run_changes (run_id r) db"
    using assms(4) by (simp_all add: same_run_facts_def run_snapshots_pairs)
  have ref: "validate_persisted_reference db' refs chs p = Inr ()"
    if "validate_persisted_reference db refs chs p = Inr ()" for refs chs p
    using that expected_fields_keeps [OF _ assms(2,3)]
    by (auto simp: validate_persisted_reference_def db_step_Inr of_option_eq_Inr require_eq_Inr elim!: ebind_InrE
          intro!: ebind_eq_Inr [THEN iffD2])
  have row: "validate_persisted_row m db' refs chs z = Inr ()"
    if "validate_persisted_row m db refs chs z = Inr ()" for refs chs z
    using that ref
    by (auto simp: validate_persisted_row_def Let_def eall_eq_Inr require_eq_Inr ebind_eq_Inr split: prod.splits)
  show ?thesis
    using assms(1) row
    unfolding validate_persisted_replay_def Let_def same
    by (auto simp: ebind_eq_Inr eall_eq_Inr)
qed

text \<open>What a completed run leaves in the state: all that its replay reads.\<close>

definition completion_stored ::
    "generation_module \<Rightarrow> uuid \<times> parsed_recent_price_result \<Rightarrow> completed_generation \<Rightarrow> price_db \<Rightarrow> bool" where
  "completion_stored m q g db \<longleftrightarrow> (let k = fst q; result = snd q; r = cg_parse_run g in
     run_id r = k \<and> get_row run_id k (db_runs db) = Some r \<and> run_status r = RUN_VALIDATED
     \<and> run_result_hash r = res_result_hash result
     \<and> (\<exists>a missing. get_row ar_id (run_artifact r) (db_artifacts db) = Some a
          \<and> validate_parse_run_contract m r a = Inr () \<and> validate_result m result = Inr missing
          \<and> validate_persisted_replay m r result missing db = Inr (cg_snapshots g)))"

lemma completion_stores:
  assumes "system_inv db" and run: "complete_kamis_parse_generation m ids now k result db = Inr (g, db')"
  shows "completion_stored m (k, result) g db'"
proof -
  have body: "complete_generation_body m ids now k result db = Inr (g, db')"
    using run by (simp add: complete_kamis_parse_generation_def at_boundary_Inr)
  obtain r a missing ss where f: "run_id r = k" "get_row run_id k (db_runs db') = Some r" "run_status r = RUN_VALIDATED"
    "get_row ar_id (run_artifact r) (db_artifacts db') = Some a" "validate_parse_run_contract m r a = Inr ()"
    "run_result_hash r = res_result_hash result" "validate_result m result = Inr missing"
    "validate_persisted_replay m r result missing db' = Inr ss" "cg_parse_run g = r" "cg_snapshots g = ss"
    using body
  proof (cases rule: complete_body_Inr)
    case (replay r a missing snapshots)
    then show ?thesis
      by (intro that) (auto simp: get_run_def db_step_Inr of_option_eq_Inr elim!: ebind_InrE dest: get_row_Some)
  next
    case (first r a missing snapshots db1 us)
    let ?r = "validated_run now result missing r"
    have g: "get_row run_id k (db_runs db) = Some r" "get_row ar_id (run_artifact r) (db_artifacts db) = Some a"
      using first(1) by (auto simp: get_run_def db_step_Inr of_option_eq_Inr elim!: ebind_InrE)
    have id: "run_id r = k" using get_row_Some [OF g(1)] by simp
    have "evolves db1 db'" by (rule estate_evolves [OF first(6)]) (rule persist_row_evolves)
    then have keeps: "keeps_facts db1 db'"
      using save_parse_run_evolves [OF first(5)] assms(1) by (simp add: evolves_def system_inv_def)
    have r1: "get_row run_id k (db_runs db1) = Some ?r"
      by (simp add: save_parse_run_Inr(1) [OF first(5)] get_row_upsert id)
    have "get_row run_id k (db_runs db') = Some ?r"
      using keeps r1 by (simp add: keeps_facts_def)
    moreover have "get_row ar_id (run_artifact ?r) (db_artifacts db') = Some a"
      using complete_run_same_acquisition [OF run] g(2) by (simp add: same_acquisition_def fetch_db.defs)
    moreover have "validate_parse_run_contract m ?r a = Inr ()"
      using first(2) by (simp add: validate_parse_run_contract_def)
    ultimately show ?thesis
      using first(4,7,8) id by (intro that [of ?r a missing snapshots]) (simp_all add: validated_run_def)
  qed
  then show ?thesis by (auto simp: completion_stored_def)
qed

lemma completion_stored_grows:
  assumes "system_inv db'" and "price_grows db db'" and "completion_stored m q g db"
  shows "completion_stored m q g db'"
proof -
  obtain k result where q: "q = (k, result)" by (cases q)
  let ?r = "cg_parse_run g"
  obtain a missing where f: "run_id ?r = k" "get_row run_id k (db_runs db) = Some ?r" "run_status ?r = RUN_VALIDATED"
    "get_row ar_id (run_artifact ?r) (db_artifacts db) = Some a" "validate_parse_run_contract m ?r a = Inr ()"
    "run_result_hash ?r = res_result_hash result" "validate_result m result = Inr missing"
    "validate_persisted_replay m ?r result missing db = Inr (cg_snapshots g)"
    using assms(3) by (auto simp: completion_stored_def q Let_def)
  have "get_row run_id k (db_runs db') = Some ?r" using assms(2) f(2,3) by (simp add: price_grows_def keeps_facts_def)
  moreover have "get_row ar_id (run_artifact ?r) (db_artifacts db') = Some a"
    using assms(2) by (intro get_row_prefix [OF _ f(4)]) (simp add: price_grows_def)
  moreover have "validate_persisted_replay m ?r result missing db' = Inr (cg_snapshots g)"
    using replay_keeps [OF f(8)] assms(1,2) f(1-3)
    by (auto simp: price_grows_def run_validated_def system_inv_def price_inv_def)
  ultimately show ?thesis using f by (auto simp: completion_stored_def q Let_def)
qed

interpretation completion: replayed_operation system_inv "price_step m" price_grows
  "\<lambda>(ids, now) (k, result). complete_kamis_parse_generation m ids now k result"
  "\<lambda>g. g\<lparr>cg_replayed := True\<rparr>" "\<lambda>_ _. True" "completion_stored m" for m
proof
  fix s s' g and q :: "uuid \<times> parsed_recent_price_result" and e :: "(nat \<Rightarrow> uuid) \<times> instant"
  assume inv: "system_inv s"
  obtain ids now k result where [simp]: "e = (ids, now)" "q = (k, result)" by (cases e, cases q)
  let ?run = "case e of (ids, now) \<Rightarrow> \<lambda>(k, result). complete_kamis_parse_generation m ids now k result"
  show "system_inv s'" and "completion_stored m q g s'" if "?run q s = Inr (g, s')"
    using that price_step_keeps [OF price_step.complete_run inv] completion_stores [OF inv] by auto
  show "?run q s = Inr (g\<lparr>cg_replayed := True\<rparr>, s)" if "completion_stored m q g s"
    using that
    by (cases g) (auto simp: completion_stored_def Let_def complete_kamis_parse_generation_def complete_generation_body_def
          get_run_def db_step_def at_boundary_Inr)
qed (rule completion_stored_grows)

lemma completion_replays:
  assumes "system_inv db" and "complete_kamis_parse_generation m ids now k result db = Inr (g, db')"
    and "(price_step m)\<^sup>*\<^sup>* db' db''"
  shows "complete_kamis_parse_generation m ids' now' k result db'' = Inr (g\<lparr>cg_replayed := True\<rparr>, db'')"
  using completion.replays [where e = "(ids, now)" and q = "(k, result)" and e' = "(ids', now')", OF assms(1) _ assms(3)]
    assms(2) by simp

text \<open>
  C27: in every state that acquisitions and parse generations can reach, tables are keyed, every
  snapshot belongs to a validated run and a series, every reference to a snapshot, and every
  stored change fact is the comparison recalculated from the stored prices.
\<close>

theorem stored_facts_recalculate:
  "price_reachable m db \<Longrightarrow> price_inv db"
  using reachable_system_inv by (simp add: system_inv_def)

text \<open>
  C28: facts are append-only. Whatever steps follow, the series, snapshots, references and change
  facts stay as they are, more are only added after them, and a finished run never changes.
\<close>

theorem facts_are_append_only:
  assumes "price_reachable m db" and "(price_step m)\<^sup>*\<^sup>* db db'"
  shows "keeps_facts db db'"
  using generation.steps_grow [OF assms(2) reachable_system_inv [OF assms(1)]] by (simp add: price_grows_def)

text \<open>
  C29: a first completion succeeds. From any reachable state, a started run of the current
  contract, with fresh identifiers and series that have not drifted, completes with any admitted
  result: the run is validated, and each row is stored as its snapshot with three references and
  the change facts of the exact comparison. The database recomputes every fact in its own decimal
  arithmetic before it takes the row, and refuses none.
\<close>

theorem first_completion_succeeds:
  assumes "import_generation = Inr m" and "price_reachable m db" and "ready_to_complete m ids now r result db"
    and "validate_result m result = Inr missing"
  shows "\<exists>db' snapshots. complete_kamis_parse_generation m ids now (run_id r) result db
      = Inr (\<lparr>cg_parse_run = validated_run now result missing r, cg_snapshots = snapshots, cg_replayed = False\<rparr>, db')
    \<and> length snapshots = length (res_rows result)
    \<and> list_all2 (row_stored m (run_id r) db') (res_rows result) (run_pairs (run_id r) db')
    \<and> snapshots = map fst (run_pairs (run_id r) db')"
  using first_completion [OF assms(1) _ assms(3,4)] reachable_system_inv [OF assms(2)]
  by (simp add: system_inv_def)

text \<open>
  C30: a completed generation replays. Whatever happens after a successful completion, completing
  the run again with the same result, at any time, returns the same run and the same snapshots
  and changes nothing.
\<close>

theorem completed_generation_replays:
  assumes "price_reachable m db" and "complete_kamis_parse_generation m ids now k result db = Inr (g, db')"
    and "(price_step m)\<^sup>*\<^sup>* db' db''"
  shows "complete_kamis_parse_generation m ids' now' k result db'' = Inr (g\<lparr>cg_replayed := True\<rparr>, db'')"
  by (rule completion_replays [OF reachable_system_inv [OF assms(1)] assms(2,3)])

end
