(* ===== verification/Publication_Evidence.thy ===== *)
theory Publication_Evidence
  imports Activation Generation_Evidence
begin

text \<open>
  What later steps keep of a publication: the canonical facts of a finished run stay what they
  are when facts are only added.
\<close>

section \<open>The facts of a run\<close>

lemma series_of_snapshot:
  assumes "price_inv db" and "s \<in> set (db_snapshots db)"
  shows "\<exists>x. snapshot_series db s = Some x"
proof -
  have "sn_series s \<in> ser_id ` set (db_series db)"
    using assms by (auto simp: price_inv_def price_links_def list_all_iff)
  then show ?thesis unfolding snapshot_series_def using get_row_None [of ser_id "sn_series s" "db_series db"] by auto
qed

lemma run_pairs_snapshots:
  assumes "price_inv db"
  shows "map fst (run_pairs k db) = snapshots_of_run k db"
    and "emap (with_series db) (snapshots_of_run k db) = Inr (run_pairs k db)"
proof -
  have all: "\<forall>s \<in> set (db_snapshots db). \<exists>x. snapshot_series db s = Some x"
    using series_of_snapshot [OF assms] by blast
  have "map fst (List.map_filter (\<lambda>s. if sn_parse_run s = k then map_option (Pair s) (snapshot_series db s) else None) ss)
      = filter (\<lambda>s. sn_parse_run s = k) ss"
    and "emap (with_series db) (filter (\<lambda>s. sn_parse_run s = k) ss)
      = Inr (List.map_filter (\<lambda>s. if sn_parse_run s = k then map_option (Pair s) (snapshot_series db s) else None) ss)"
    if "\<forall>s \<in> set ss. \<exists>x. snapshot_series db s = Some x" for ss
    using that by (induction ss) (auto simp: List.map_filter_simps with_series_def)
  then show "map fst (run_pairs k db) = snapshots_of_run k db"
    "emap (with_series db) (snapshots_of_run k db) = Inr (run_pairs k db)"
    using all by (simp_all add: run_pairs_def snapshots_of_run_def)
qed

lemma canonical_data_keeps:
  assumes "price_inv db" and "price_inv db'" and "keeps_facts db db'" and "same_run_facts k db db'"
    and s: "s \<in> set (snapshots_of_run k db)" and c: "canonical_snapshot_data s db = Inr j"
  shows "canonical_snapshot_data s db' = Inr j"
proof -
  have s': "s \<in> set (snapshots_of_run k db')"
    using s assms(4) run_pairs_snapshots(1) [OF assms(1), of k] run_pairs_snapshots(1) [OF assms(2), of k]
    by (simp add: same_run_facts_def)
  have refs: "references_of (sn_id s) db' = references_of (sn_id s) db"
    using own_references [of db s k] own_references [of db' s k] s s' assms(1,2,4)
    by (simp add: price_inv_def same_run_facts_def snapshots_of_run_def)
  have series: "snapshot_series db' s = Some x" if "snapshot_series db s = Some x" for x
    using that assms(3) get_row_prefix [of "db_series db" "db_series db'" ser_id "sn_series s" x]
    by (simp add: snapshot_series_def keeps_facts_def)
  have change: "canonical_reference_data db' r = Inr y" if "canonical_reference_data db r = Inr y" for r y
    using that assms(3) get_row_prefix [of "db_changes db" "db_changes db'" cf_reference_price "sr_id r"]
    by (auto simp: canonical_reference_data_def keeps_facts_def of_option_eq_Inr elim!: ebind_InrE)
  have data: "emap (\<lambda>p. ebind (of_option e (f p)) (canonical_reference_data db')) ps = Inr js"
    if "emap (\<lambda>p. ebind (of_option e (f p)) (canonical_reference_data db)) ps = Inr js"
    for e f ps js
    using that by (induction ps arbitrary: js) (auto simp: change elim!: ebind_InrE intro!: ebind_eq_Inr [THEN iffD2])
  obtain x js where x: "snapshot_series db s = Some x" and j: "j = canonical_fact_json x s js"
    and len: "length (references_of (sn_id s) db) = 3 \<and> set (map sr_period (references_of (sn_id s) db)) = set all_periods"
    and js: "emap (\<lambda>p. ebind (of_option (UncaughtError ''KeyError'')
        (find (\<lambda>r. sr_period r = p) (rev (references_of (sn_id s) db)))) (canonical_reference_data db)) all_periods = Inr js"
    using c by (auto simp: canonical_snapshot_data_def Let_def of_option_eq_Inr require_eq_Inr elim!: ebind_InrE)
  show ?thesis
    using len series [OF x] data [OF js] j by (simp add: canonical_snapshot_data_def Let_def refs)
qed

text \<open>The fact set of a run, in the order of the identities.\<close>

definition run_order :: "uuid \<Rightarrow> 'a price_db_scheme \<Rightarrow> retail_price_snapshot list" where
  "run_order k db = map fst (sort_key snapshot_order_key (run_pairs k db))"

definition fact_entries :: "retail_price_snapshot list \<Rightarrow> 'a price_db_scheme \<Rightarrow> db_error + canonical_entry list" where
  "fact_entries ss db = emap (\<lambda>(i, s). ebind (snapshot_fact_sha256 s db) (\<lambda>h.
     Inr \<lparr>ce_ordinal = i, ce_snapshot = sn_id s, ce_fact_sha256 = h\<rparr>)) (zip [1..<length ss + 1] ss)"

definition fact_set_of :: "canonical_entry list \<Rightarrow> date list \<Rightarrow> canonical_fact_set" where
  "fact_set_of es dates = \<lparr>fs_entries = es, fs_typed_fact_set_sha256 = fact_set_hash (map ce_fact_sha256 es),
     fs_source_effective_date_min = foldr min dates (hd dates),
     fs_source_effective_date_max = foldr max dates (hd dates)\<rparr>"

lemma run_order_set:
  assumes "price_inv db"
  shows "set (run_order k db) = set (snapshots_of_run k db)" and "length (run_order k db) = length (snapshots_of_run k db)"
    and "mset (run_order k db) = mset (snapshots_of_run k db)"
proof -
  show m: "mset (run_order k db) = mset (snapshots_of_run k db)"
    using arg_cong [OF run_pairs_snapshots(1) [OF assms, of k], of mset] by (simp add: run_order_def)
  show "set (run_order k db) = set (snapshots_of_run k db)" using m by (rule mset_eq_setD)
  show "length (run_order k db) = length (snapshots_of_run k db)" using m by (rule mset_eq_length)
qed

lemma fact_set_Inr:
  assumes "price_inv db"
  shows "build_publication_fact_set (snapshots_of_run k db) db = Inr facts \<longleftrightarrow>
    snapshots_of_run k db \<noteq> [] \<and> (\<exists>es. fact_entries (run_order k db) db = Inr es
      \<and> facts = fact_set_of es (map sn_source_effective_date (run_order k db)))"
proof -
  have d: "distinct (map sn_id (snapshots_of_run k db))"
    using assms by (simp add: price_inv_def price_keys_def snapshots_of_run_def distinct_map_filter)
  then have "card (set (map sn_id (snapshots_of_run k db))) = length (snapshots_of_run k db)"
    by (metis distinct_card length_map)
  moreover have "card (set (map sn_parse_run (snapshots_of_run k db))) = 1" if "snapshots_of_run k db \<noteq> []"
  proof -
    have "set (map sn_parse_run (snapshots_of_run k db)) = {k}"
      using that by (fastforce simp: snapshots_of_run_def filter_empty_conv image_iff)
    then show ?thesis by simp
  qed
  ultimately show ?thesis
    by (auto simp: build_publication_fact_set_def run_pairs_snapshots(2) [OF assms] Let_def ebind_eq_Inr require_eq_Inr
          fact_entries_def fact_set_of_def run_order_def simp del: length_map)
qed

lemma fact_set_keeps:
  assumes "price_inv db" and "price_inv db'" and "keeps_facts db db'" and "same_run_facts k db db'"
    and f: "build_publication_fact_set (snapshots_of_run k db) db = Inr facts"
  shows "build_publication_fact_set (snapshots_of_run k db') db' = Inr facts"
proof -
  have pairs: "run_pairs k db' = run_pairs k db" using assms(4) by (simp add: same_run_facts_def)
  have snaps: "snapshots_of_run k db' = snapshots_of_run k db"
    using run_pairs_snapshots(1) [OF assms(1)] run_pairs_snapshots(1) [OF assms(2)] pairs by metis
  have order: "run_order k db' = run_order k db" using pairs by (simp add: run_order_def)
  have hash: "snapshot_fact_sha256 s db' = Inr h" if "snapshot_fact_sha256 s db = Inr h" "s \<in> set (run_order k db)" for s h
  proof -
    have "s \<in> set (snapshots_of_run k db)" using that(2) run_order_set(1) [OF assms(1)] by blast
    then show ?thesis
      using that(1) canonical_data_keeps [OF assms(1-4), of s]
      by (auto simp: snapshot_fact_sha256_def elim!: ebind_InrE intro!: ebind_eq_Inr [THEN iffD2])
  qed
  have loop: "emap (\<lambda>(i, s). ebind (snapshot_fact_sha256 s db') (g i s)) ps = Inr es"
    if "emap (\<lambda>(i, s). ebind (snapshot_fact_sha256 s db) (g i s)) ps = Inr es" "snd ` set ps \<subseteq> set (run_order k db)"
    for g ps es
    using that
  proof (induction ps arbitrary: es)
    case (Cons p ps)
    obtain i t where p: "p = (i, t)" by (cases p)
    obtain h y ys where st: "snapshot_fact_sha256 t db = Inr h" "g i t h = Inr y"
      "emap (\<lambda>(i, s). ebind (snapshot_fact_sha256 s db) (g i s)) ps = Inr ys" "es = y # ys"
      using Cons.prems(1) by (auto simp: p elim!: ebind_InrE)
    have "t \<in> set (run_order k db)" using Cons.prems(2) by (auto simp: p)
    then show ?case using hash [OF st(1)] Cons.IH [OF st(3)] Cons.prems(2) st(2,4) by (simp add: p)
  qed simp
  have sub: "snd ` set (zip [1..<length (run_order k db) + 1] (run_order k db)) \<subseteq> set (run_order k db)"
    by (auto dest: set_zip_rightD)
  have "fact_entries (run_order k db) db' = Inr es" if e: "fact_entries (run_order k db) db = Inr es" for es
    unfolding fact_entries_def by (rule loop [OF e [unfolded fact_entries_def] sub])
  then show ?thesis
    using f unfolding fact_set_Inr [OF assms(1)] fact_set_Inr [OF assms(2)] order by (auto simp: snaps)
qed

end
