(* ===== verification/Review_Chain.thy ===== *)
theory Review_Chain
  imports Publication_Evidence
begin

text \<open>
  The reviews of one generation form a chain: in the order in which they were recorded, the first
  supersedes nothing and each later one supersedes the one before it. The abstract state of a
  generation's review is therefore its history, and the decision that counts is the last of it.
\<close>

section \<open>Histories\<close>

definition review_history :: "uuid \<times> uuid \<times> uuid \<Rightarrow> 'a review_db_scheme \<Rightarrow> review_decision list" where
  "review_history g db = filter (\<lambda>r. review_generation r = g) (db_reviews db)"

fun linked_from :: "uuid option \<Rightarrow> review_decision list \<Rightarrow> bool" where
  "linked_from p [] = True"
| "linked_from p (r # rs) = (rd_supersedes r = p \<and> linked_from (Some (rd_id r)) rs)"

abbreviation linked :: "review_decision list \<Rightarrow> bool" where
  "linked rs \<equiv> linked_from None rs"

lemma linked_snoc [simp]:
  "linked_from p (rs @ [r]) \<longleftrightarrow> linked_from p rs \<and> rd_supersedes r = (if rs = [] then p else Some (rd_id (last rs)))"
  by (induction rs arbitrary: p) auto

lemma linked_predecessor:
  "linked rs \<Longrightarrow> x \<in> set rs \<Longrightarrow> rd_supersedes x = None \<or> (\<exists>y \<in> set (butlast rs). rd_supersedes x = Some (rd_id y))"
proof (induction rs rule: rev_induct)
  case (snoc r rs)
  show ?case
  proof (cases "x \<in> set rs")
    case True
    then show ?thesis using snoc in_set_butlastD by (fastforce simp: butlast_append)
  next
    case False
    then show ?thesis using snoc.prems by (cases "rs = []") (auto simp: butlast_append)
  qed
qed simp

lemma linked_superseded:
  assumes "linked rs" and "distinct (map rd_id rs)" and "s \<in> set rs"
  shows "(\<exists>x \<in> set rs. rd_supersedes x = Some (rd_id s)) \<longleftrightarrow> s \<noteq> last rs"
  using assms
proof (induction rs rule: rev_induct)
  case (snoc r rs)
  show ?case
  proof (cases "s = r")
    case True
    have "rd_id y \<noteq> rd_id r" if "y \<in> set rs" for y using snoc.prems(2) that by (auto simp: image_iff)
    then have "rd_supersedes x \<noteq> Some (rd_id r)" if x: "x \<in> set (rs @ [r])" for x
      using linked_predecessor [OF snoc.prems(1) x] by auto
    then show ?thesis using True by auto
  next
    case False
    then have s: "s \<in> set rs" using snoc.prems(3) by simp
    then have r: "rd_supersedes r = Some (rd_id (last rs))" using snoc.prems(1) by auto
    have "inj_on rd_id (set rs)" using snoc.prems(2) by (simp add: distinct_map)
    moreover have "last rs \<in> set rs" using s by (cases rs) auto
    ultimately have "rd_id (last rs) = rd_id s \<longleftrightarrow> last rs = s" using s by (metis inj_onD)
    then show ?thesis using snoc.IH snoc.prems s r False by auto
  qed
qed simp

lemma linked_tail:
  assumes "linked rs" and "distinct (map rd_id rs)" and "rs \<noteq> []"
  shows "filter (\<lambda>x. \<not> is_superseded rs x) rs = [last rs]"
proof -
  have "filter (\<lambda>x. \<not> is_superseded rs x) rs = filter (\<lambda>x. x = last rs) rs"
    using linked_superseded [OF assms(1,2)] by (intro filter_cong) (auto simp: is_superseded_def list_ex_iff)
  moreover have "distinct rs" using assms(2) by (simp add: distinct_map)
  then have "filter (\<lambda>x. x = last rs) rs = [last rs]"
    using assms(3) last_in_set [OF assms(3)] by (induction rs) (auto simp: filter_empty_conv)
  ultimately show ?thesis by simp
qed

section \<open>The invariant\<close>

text \<open>What an approval saw: a validated run whose accepted rows are stored with all their facts.\<close>

definition approval_backed :: "'a price_db_scheme \<Rightarrow> review_decision \<Rightarrow> bool" where
  "approval_backed db r \<longleftrightarrow> (rd_decision r = APPROVE \<longrightarrow>
     (\<exists>run. get_row run_id (rd_parse_run r) (db_runs db) = Some run \<and> run_status run = RUN_VALIDATED
        \<and> run_artifact run = rd_source_artifact r
        \<and> length (snapshots_of_run (rd_parse_run r) db) = run_accepted_row_count run
        \<and> eall (review_snapshot_clean db) (snapshots_of_run (rd_parse_run r) db) = Inr ()))"

definition review_inv :: "'a review_db_scheme \<Rightarrow> bool" where
  "review_inv db \<longleftrightarrow> distinct (map rd_id (db_reviews db)) \<and> (\<forall>g. linked (review_history g db))
     \<and> list_all (approval_backed db) (db_reviews db)"

lemma review_invD: "review_inv db \<Longrightarrow> linked (review_history g db)"
  unfolding review_inv_def by blast

lemma history_distinct: "review_inv db \<Longrightarrow> distinct (map rd_id (review_history g db))"
  by (simp add: review_inv_def review_history_def distinct_map_filter)

text \<open>The tail check of the sealing service asks for the last decision of the history.\<close>

lemma require_review_tail_iff:
  assumes "review_inv db" and "d \<in> set (db_reviews db)"
  shows "require_review_tail d db =
    (if last (review_history (review_generation d) db) \<noteq> d
     then Inl (ValidationError ''Publication requires the latest review decision tail.'')
     else if rd_decision d \<noteq> APPROVE
     then Inl (ValidationError ''Publication requires a latest APPROVE review decision.'') else Inr ())"
proof -
  let ?rs = "review_history (review_generation d) db"
  have d: "d \<in> set ?rs" using assms(2) by (simp add: review_history_def)
  then have ne: "?rs \<noteq> []" by auto
  have tail: "filter (\<lambda>x. \<not> is_superseded ?rs x) ?rs = [last ?rs]"
    by (rule linked_tail [OF review_invD [OF assms(1)] history_distinct [OF assms(1)] ne])
  have "inj_on rd_id (set ?rs)" using history_distinct [OF assms(1), of "review_generation d"] by (simp add: distinct_map)
  then have "rd_id (last ?rs) = rd_id d \<longleftrightarrow> last ?rs = d" using d last_in_set [OF ne] by (metis inj_onD)
  then show ?thesis
    using tail unfolding require_review_tail_def Let_def review_history_def [symmetric]
    by (simp add: require_def)
qed

lemma superseded_in_history:
  assumes "review_inv db" and "d \<in> set (db_reviews db)"
  shows "list_ex (\<lambda>x. rd_supersedes x = Some (rd_id d)) (db_reviews db)
    \<longleftrightarrow> last (review_history (review_generation d) db) \<noteq> d"
proof -
  let ?rs = "review_history (review_generation d) db"
  have d: "d \<in> set ?rs" using assms(2) by (simp add: review_history_def)
  note l = review_invD [OF assms(1)]
  have own: "x \<in> set ?rs" if x: "x \<in> set (db_reviews db)" "rd_supersedes x = Some (rd_id d)" for x
  proof -
    let ?xs = "review_history (review_generation x) db"
    have "x \<in> set ?xs" using x(1) by (simp add: review_history_def)
    then have "\<exists>y \<in> set (butlast ?xs). rd_supersedes x = Some (rd_id y)"
      using linked_predecessor [OF review_invD [OF assms(1)], of x "review_generation x"] x(2) by simp
    then obtain y where "y \<in> set (butlast ?xs)" and id: "rd_id y = rd_id d" using x(2) by auto
    then have y: "y \<in> set ?xs" "rd_id y = rd_id d" using in_set_butlastD [of y ?xs] by simp_all
    then have "y \<in> set (db_reviews db)" by (simp add: review_history_def)
    moreover have "inj_on rd_id (set (db_reviews db))" using assms(1) by (simp add: review_inv_def distinct_map)
    ultimately have "y = d" using y(2) assms(2) by (auto dest: inj_onD)
    then have "review_generation d = review_generation x" using y(1) by (simp add: review_history_def)
    then show ?thesis using x(1) by (simp add: review_history_def)
  qed
  have "\<And>x. x \<in> set ?rs \<Longrightarrow> x \<in> set (db_reviews db)" by (simp add: review_history_def)
  then have "(\<exists>x \<in> set (db_reviews db). rd_supersedes x = Some (rd_id d)) \<longleftrightarrow> (\<exists>x \<in> set ?rs. rd_supersedes x = Some (rd_id d))"
    using own by meson
  also have "\<dots> \<longleftrightarrow> d \<noteq> last ?rs"
    by (rule linked_superseded [OF review_invD [OF assms(1)] history_distinct [OF assms(1)] d])
  finally show ?thesis unfolding list_ex_iff by (metis (full_types))
qed

section \<open>Recording keeps it\<close>

lemma save_review_Inr:
  assumes "save_review users adding r db = Inr db'"
  shows "adding" and "db' = db\<lparr>db_reviews := db_reviews db @ [r]\<rparr>" and "review_clean True r db = Inr ()"
    and "review_unique r (db_reviews db)" and "review_fields r" and "review_constraints r" and "review_links users r db"
  using assms
  by (auto simp: save_review_def require_eq_Inr succeeds_iff elim!: ebind_InrE)

lemma review_chain_clean_Inr:
  assumes "review_chain_clean True r db = Inr ()" and "review_unique r (db_reviews db)" and "review_inv db"
  shows "rd_supersedes r = (let rs = review_history (review_generation r) db in
           if rs = [] then None else Some (rd_id (last rs)))"
proof (cases "rd_supersedes r")
  case None
  have "review_history (review_generation r) db = []"
  proof (cases "review_history (review_generation r) db")
    case (Cons x xs)
    then have "rd_supersedes x = None" using review_invD [OF assms(3), of "review_generation r"] by simp
    moreover have "x \<in> set (db_reviews db)" "review_generation x = review_generation r"
      using Cons by (auto simp: review_history_def filter_eq_Cons_iff)
    ultimately show ?thesis using assms(2) None by (auto simp: review_unique_def list_ex_iff)
  qed
  then show ?thesis using None by simp
next
  case (Some k)
  then obtain s where s: "get_row rd_id k (db_reviews db) = Some s" "review_generation s = review_generation r"
    and tail: "\<not> list_ex (\<lambda>x. rd_supersedes x = Some (rd_id s) \<and> rd_id x \<noteq> rd_id r) (db_reviews db)"
    using assms(1) by (auto simp: review_chain_clean_def require_eq_Inr of_option_eq_Inr elim!: ebind_InrE)
  have mem: "s \<in> set (db_reviews db)" "rd_id s = k" using get_row_Some [OF s(1)] by auto
  have "\<not> list_ex (\<lambda>x. rd_supersedes x = Some (rd_id s)) (db_reviews db)"
    using tail assms(2) by (auto simp: list_ex_iff review_unique_def image_iff)
  then have "last (review_history (review_generation r) db) = s"
    using superseded_in_history [OF assms(3) mem(1)] s(2) by simp
  moreover have "review_history (review_generation r) db \<noteq> []"
    using mem(1) s(2) by (auto simp: review_history_def filter_empty_conv)
  ultimately show ?thesis using Some mem(2) by simp
qed

lemma review_clean_Inr:
  assumes "review_clean True r db = Inr ()"
  shows "review_chain_clean True r db = Inr ()" and "approval_backed db r"
    and "\<exists>source run. get_row sc_id (rd_source_configuration r) (db_sources db) = Some source
      \<and> get_row run_id (rd_parse_run r) (db_runs db) = Some run
      \<and> review_source_clean r source run db = Inr () \<and> review_verdict_clean r source run db = Inr ()"
proof -
  obtain source run where g: "get_row sc_id (rd_source_configuration r) (db_sources db) = Some source"
    "get_row run_id (rd_parse_run r) (db_runs db) = Some run"
    and c: "review_source_clean r source run db = Inr ()" "review_chain_clean True r db = Inr ()"
      "review_verdict_clean r source run db = Inr ()"
    using assms by (auto simp: review_clean_def of_option_eq_Inr elim!: ebind_InrE)
  show "review_chain_clean True r db = Inr ()" by (rule c(2))
  have id: "run_id run = rd_parse_run r" using get_row_Some [OF g(2)] by simp
  have art: "run_artifact run = rd_source_artifact r"
    using c(1) by (auto simp: review_source_clean_def require_eq_Inr elim!: ebind_InrE split: prod.split_asm)
  show "approval_backed db r"
    using g(2) c(3) id art
    by (auto simp: approval_backed_def review_verdict_clean_def Let_def require_eq_Inr elim!: ebind_InrE)
  show "\<exists>source run. get_row sc_id (rd_source_configuration r) (db_sources db) = Some source
      \<and> get_row run_id (rd_parse_run r) (db_runs db) = Some run
      \<and> review_source_clean r source run db = Inr () \<and> review_verdict_clean r source run db = Inr ()"
    using g c by blast
qed

lemma review_history_snoc:
  "review_history g (db\<lparr>db_reviews := db_reviews db @ [r]\<rparr>)
     = review_history g db @ (if review_generation r = g then [r] else [])"
  by (simp add: review_history_def)

lemma approval_backed_reviews [simp]: "approval_backed (db\<lparr>db_reviews := rs\<rparr>) = approval_backed db"
  by (rule ext) (simp add: approval_backed_def snapshots_of_run_def review_snapshot_clean_def [abs_def] references_of_def
      has_change_def [abs_def])

lemma save_review_inv:
  assumes "save_review users adding r db = Inr db'" and "review_inv db"
  shows "review_inv db'"
proof -
  note S = save_review_Inr [OF assms(1)]
  note C = review_clean_Inr [OF S(3)]
  have id: "rd_id r \<notin> rd_id ` set (db_reviews db)" using S(4) by (simp add: review_unique_def)
  have "linked (review_history g db')" for g
    using review_chain_clean_Inr [OF C(1) S(4) assms(2)] review_invD [OF assms(2), of g]
    by (auto simp: S(2) review_history_snoc Let_def)
  then show ?thesis
    using assms(2) id C(2) by (simp add: S(2) review_inv_def)
qed

lemma record_review_Inr:
  assumes "record_review_decision users now k actor a db = Inr (r, created, db')"
  obtains (replay) "\<not> created" "db' = db" "r \<in> set (db_reviews db)" "rd_id r = k"
  | (new) "created" "save_review users True r db = Inr db'" "rd_id r = k"
proof (cases "get_row rd_id k (db_reviews db)")
  case None
  then show ?thesis
    using assms by (intro new) (auto simp: record_review_decision_def Let_def review_candidate_def elim!: ebind_InrE)
next
  case (Some existing)
  then show ?thesis
    using assms get_row_Some [OF Some]
    by (intro replay) (auto simp: record_review_decision_def elim!: ebind_InrE)
qed

section \<open>The triggers agree with the service\<close>

lemma fact_join_rows:
  assumes "price_keys db" and "list_all (has_change db) rs"
  shows "\<exists>g. concat (map (\<lambda>r. case filter (\<lambda>c. cf_reference_price c = sr_id r) (db_changes db) of
            [] \<Rightarrow> [(r, None)] | cs \<Rightarrow> map (\<lambda>c. (r, Some c)) cs) rs) = map (\<lambda>r. (r, Some (g r))) rs"
proof -
  let ?g = "\<lambda>r. the (get_row cf_reference_price (sr_id r) (db_changes db))"
  have keys: "distinct (map cf_reference_price (db_changes db))" using assms(1) by (simp add: price_keys_def)
  have "(case filter (\<lambda>c. cf_reference_price c = sr_id r) (db_changes db) of
            [] \<Rightarrow> [(r, None)] | cs \<Rightarrow> map (\<lambda>c. (r, Some c)) cs) = [(r, Some (?g r))]" if r: "r \<in> set rs" for r
  proof -
    have "\<exists>c \<in> set (db_changes db). cf_reference_price c = sr_id r"
      using assms(2) r by (auto simp: list_all_iff has_change_def list_ex_iff)
    then obtain c where "get_row cf_reference_price (sr_id r) (db_changes db) = Some c"
      using get_row_None [of cf_reference_price "sr_id r" "db_changes db"] by (metis imageI option.exhaust)
    then show ?thesis by (simp add: filter_unique [OF keys])
  qed
  then have "concat (map (\<lambda>r. case filter (\<lambda>c. cf_reference_price c = sr_id r) (db_changes db) of
            [] \<Rightarrow> [(r, None)] | cs \<Rightarrow> map (\<lambda>c. (r, Some c)) cs) rs) = concat (map (\<lambda>r. [(r, Some (?g r))]) rs)"
    by (metis (no_types, lifting) map_cong)
  then show ?thesis by (intro exI [of _ ?g]) simp
qed

lemma facts_exact_clean:
  assumes "price_keys db" and "review_snapshot_clean db s = Inr ()"
  shows "facts_exact db s"
proof -
  let ?rs = "references_of (sn_id s) db"
  have c: "length ?rs = 3" "set (map sr_period ?rs) = set all_periods" "list_all (has_change db) ?rs"
    using assms(2) by (simp_all add: review_snapshot_clean_def Let_def ebind_eq_Inr require_eq_Inr)
  obtain g where g: "fact_join db s = map (\<lambda>r. (r, Some (g r))) ?rs"
    using fact_join_rows [OF assms(1) c(3)] by (auto simp: fact_join_def)
  have "map (\<lambda>(r, _). sr_period r) (fact_join db s) = map sr_period ?rs" by (simp add: g)
  then have "card (set (map (\<lambda>(r, _). sr_period r) (fact_join db s))) = 3"
    using c(2) by (simp only: c(2)) (simp add: all_periods_def)
  moreover have "filter (\<lambda>(_, c). c \<noteq> None) (fact_join db s) = fact_join db s" by (simp add: g filter_id_conv)
  moreover have "length (fact_join db s) = 3" using c(1) by (simp add: g)
  ultimately show ?thesis unfolding facts_exact_def Let_def by simp
qed

lemma review_triggers_accept:
  assumes "price_keys db" and "review_clean True r db = Inr ()" and "review_unique r (db_reviews db)"
  shows "review_gate_time_trigger r db" and "review_trigger r db"
proof -
  obtain source run where g: "get_row sc_id (rd_source_configuration r) (db_sources db) = Some source"
    "get_row run_id (rd_parse_run r) (db_runs db) = Some run"
    and c: "review_source_clean r source run db = Inr ()" "review_chain_clean True r db = Inr ()"
      "review_verdict_clean r source run db = Inr ()"
    using review_clean_Inr(1,3) [OF assms(2)] by blast
  have id: "sc_id source = rd_source_configuration r" "run_id run = rd_parse_run r"
    using get_row_Some [OF g(1)] get_row_Some [OF g(2)] by simp_all
  obtain t u where e: "effective_gate_timestamps source db = Inr (t, Some u)" "t \<le> rd_decided_at r" "u \<le> rd_decided_at r"
    and s: "sc_state source = ACTIVE" "sc_rights_evidence_locator source \<noteq> []" "sc_rights_evidence_sha256 source \<noteq> []"
      "list_ex (\<lambda>a. fa_source_configuration a = rd_source_configuration r
         \<and> fa_artifact a = Some (rd_source_artifact r) \<and> fa_state a = SUCCEEDED) (db_attempts db)"
      "run_artifact run = rd_source_artifact r"
    using c(1)
    by (auto simp: review_source_clean_def require_eq_Inr elim!: ebind_InrE split: prod.split_asm option.split_asm)
  show "review_gate_time_trigger r db"
    using e g(1) id(1)
    by (cases "sc_rights_confirmed_at source")
       (auto simp: review_gate_time_trigger_def effective_gate_timestamps_def split: option.split option.split_asm if_split_asm)
  have rights: "sc_rights_confirmed_at source \<noteq> None"
    using e(1) by (cases "sc_rights_confirmed_at source") (auto simp: effective_gate_timestamps_def split: option.split_asm if_split_asm)
  have chain: "review_trigger_chain r db"
  proof (cases "rd_supersedes r")
    case (Some k)
    then obtain p where p: "get_row rd_id k (db_reviews db) = Some p" "rd_id p \<noteq> rd_id r"
      "review_generation p = review_generation r"
      using c(2) by (auto simp: review_chain_clean_def require_eq_Inr of_option_eq_Inr elim!: ebind_InrE)
    then show ?thesis
      using Some assms(3) get_row_Some [OF p(1)] by (simp add: review_trigger_chain_def review_unique_def)
  qed (simp add: review_trigger_chain_def)
  have facts: "list_all (facts_exact db) ss" if "eall (review_snapshot_clean db) ss = Inr ()" for ss
    using that facts_exact_clean [OF assms(1)] by (auto simp: eall_eq_Inr list_all_iff)
  show "review_trigger r db"
  proof (cases "rd_decision r")
    case APPROVE
    then show ?thesis
      using g s rights chain c(3) facts id(2)
      by (auto simp: review_trigger_def review_verdict_clean_def Let_def require_eq_Inr elim!: ebind_InrE)
  next
    case REJECT
    then show ?thesis
      using g s rights chain c(3) by (auto simp: review_trigger_def review_verdict_clean_def require_eq_Inr)
  qed
qed

lemma save_review_iff:
  assumes "price_keys db"
  shows "save_review users True r db =
    (if review_fields r \<and> review_links users r db \<and> succeeds (review_clean True r db)
        \<and> review_unique r (db_reviews db) \<and> review_constraints r
     then Inr (db\<lparr>db_reviews := db_reviews db @ [r]\<rparr>) else Inl (FullClean ''ReviewDecision''))"
  using review_triggers_accept [OF assms, of r]
  by (auto simp: save_review_def require_def succeeds_iff)

end
