(* ===== verification/Publication_Seal.thy ===== *)
theory Publication_Seal
  imports Review_Chain
begin

text \<open>
  Sealing on the whole database: a replay answers the stored row and writes nothing, a first seal
  adds one sealed revision and the entries of its fact set, and the triggers of the database never
  refuse what the service lets through.
\<close>

section \<open>A published revision\<close>

text \<open>A stored revision is sealed and is the fact set of the generation its decision approved.\<close>

definition published_as ::
    "'a seal_db_scheme \<Rightarrow> publication_revision \<Rightarrow> review_decision \<Rightarrow> canonical_fact_set \<Rightarrow> parse_run \<Rightarrow> bool" where
  "published_as db v d facts run \<longleftrightarrow> pv_sealed_at v \<noteq> None
     \<and> get_row rd_id (pv_review_decision v) (db_reviews db) = Some d
     \<and> rd_decision d = APPROVE \<and> rd_parse_run d = pv_generation v
     \<and> get_row run_id (pv_generation v) (db_runs db) = Some run
     \<and> run_status run = RUN_VALIDATED \<and> run_parser_revision run = pv_parser_revision v
     \<and> build_publication_fact_set (snapshots_of_run (pv_generation v) db) db = Inr facts
     \<and> pv_typed_fact_set_sha256 v = fs_typed_fact_set_sha256 facts
     \<and> pv_entry_count v = length (fs_entries facts)
     \<and> pv_source_effective_date_min v = fs_source_effective_date_min facts
     \<and> pv_source_effective_date_max v = fs_source_effective_date_max facts
     \<and> map stored_entry (entries_in_order (pv_id v) db) = fs_entries facts
     \<and> list_all (coverage_approved d db) (snapshots_of_run (pv_generation v) db)"

definition revision_published :: "'a seal_db_scheme \<Rightarrow> publication_revision \<Rightarrow> bool" where
  "revision_published db v \<longleftrightarrow> (\<exists>d facts run. published_as db v d facts run)"

section \<open>What a seal writes\<close>

definition sealed_entry :: "(nat \<Rightarrow> uuid) \<Rightarrow> uuid \<Rightarrow> canonical_entry \<Rightarrow> publication_entry" where
  "sealed_entry ids k c = \<lparr>en_id = ids (ce_ordinal c), en_revision = k, en_snapshot = ce_snapshot c,
     en_ordinal = ce_ordinal c, en_fact_sha256 = ce_fact_sha256 c\<rparr>"

lemma sealed_entry_simps [simp]:
  "en_id (sealed_entry ids k c) = ids (ce_ordinal c)" "en_revision (sealed_entry ids k c) = k"
  "en_snapshot (sealed_entry ids k c) = ce_snapshot c" "en_ordinal (sealed_entry ids k c) = ce_ordinal c"
  "en_fact_sha256 (sealed_entry ids k c) = ce_fact_sha256 c" "stored_entry (sealed_entry ids k c) = c"
  by (simp_all add: sealed_entry_def stored_entry_def)

lemma create_entries_Inr:
  "create_entries ids k cs db = Inr db' \<Longrightarrow> db' = db\<lparr>db_entries := db_entries db @ map (sealed_entry ids k) cs\<rparr>"
proof (induction cs arbitrary: db)
  case (Cons c cs)
  then obtain db1 where d: "save_entry True (sealed_entry ids k c) db = Inr db1" "create_entries ids k cs db1 = Inr db'"
    by (auto simp: sealed_entry_def elim!: ebind_InrE)
  then have "db1 = db\<lparr>db_entries := db_entries db @ [sealed_entry ids k c]\<rparr>"
    by (auto simp: save_entry_def elim!: ebind_InrE)
  then show ?case using Cons.IH [OF d(2)] by simp
qed simp

lemma save_revision_Inr:
  assumes "save_revision adding v db = Inr db'"
  shows "db' = db\<lparr>db_revisions := db_revisions db @ [v]\<rparr>" and "pv_id v \<notin> pv_id ` set (db_revisions db)"
    and "pv_sealed_at v = None" and "\<not> list_ex (same_publication v) (db_revisions db)"
    and "revision_fields v" and "revision_constraints v"
  using assms by (auto simp: save_revision_def require_eq_Inr elim!: ebind_InrE)

definition sealed_row :: "publication_revision \<Rightarrow> instant \<Rightarrow> publication_revision" where
  "sealed_row v now = v\<lparr>pv_sealed_at := Some now\<rparr>"

lemma sealed_row_simps [simp]:
  "pv_id (sealed_row v now) = pv_id v" "pv_sealed_at (sealed_row v now) = Some now"
  "pv_review_decision (sealed_row v now) = pv_review_decision v" "pv_generation (sealed_row v now) = pv_generation v"
  "pv_parser_revision (sealed_row v now) = pv_parser_revision v" "pv_entry_count (sealed_row v now) = pv_entry_count v"
  "pv_typed_fact_set_sha256 (sealed_row v now) = pv_typed_fact_set_sha256 v"
  "pv_source_effective_date_min (sealed_row v now) = pv_source_effective_date_min v"
  "pv_source_effective_date_max (sealed_row v now) = pv_source_effective_date_max v"
  "pv_public_copy_revision (sealed_row v now) = pv_public_copy_revision v"
  by (simp_all add: sealed_row_def)

lemma create_publication_Inr:
  assumes "create_publication ids now v facts db = Inr (w, db')"
  shows "w = sealed_row v now" and "pv_id v \<notin> pv_id ` set (db_revisions db)"
    and "\<not> list_ex (same_publication v) (db_revisions db)"
    and "db' = db\<lparr>db_revisions := db_revisions db @ [sealed_row v now],
                 db_entries := db_entries db @ map (sealed_entry ids (pv_id v)) (fs_entries facts)\<rparr>"
proof -
  obtain db1 db2 n where s: "save_revision True v db = Inr db1"
    "create_entries ids (pv_id v) (fs_entries facts) db1 = Inr db2" "update_seal (pv_id v) now db2 = Inr (n, db')"
    "n = 1" "get_row pv_id (pv_id v) (db_revisions db') = Some w"
    using assms by (auto simp: create_publication_def of_option_eq_Inr require_eq_Inr elim!: ebind_InrE split: prod.split_asm)
  note R = save_revision_Inr [OF s(1)]
  have none: "get_row pv_id (pv_id v) (db_revisions db) = None" using R(2) by (simp add: get_row_None)
  have d2: "db2 = db\<lparr>db_revisions := db_revisions db @ [v],
      db_entries := db_entries db @ map (sealed_entry ids (pv_id v)) (fs_entries facts)\<rparr>"
    using create_entries_Inr [OF s(2)] R(1) by simp
  then have "get_row pv_id (pv_id v) (db_revisions db2) = Some v" by (simp add: get_row_append none)
  then have d3: "db' = db2\<lparr>db_revisions := put_row pv_id (sealed_row v now) (db_revisions db2)\<rparr>"
    using s(3,4) R(3) by (auto simp: update_seal_def Let_def sealed_row_def elim!: ebind_InrE)
  have "put_row pv_id (sealed_row v now) (db_revisions db2) = db_revisions db @ [sealed_row v now]"
    using R(2) by (auto simp: d2 put_row_def image_iff intro!: map_idI)
  then show "db' = db\<lparr>db_revisions := db_revisions db @ [sealed_row v now],
                 db_entries := db_entries db @ map (sealed_entry ids (pv_id v)) (fs_entries facts)\<rparr>"
    using d3 d2 by simp
  then show "w = sealed_row v now" using s(5) by (simp add: get_row_append none)
  show "pv_id v \<notin> pv_id ` set (db_revisions db)" "\<not> list_ex (same_publication v) (db_revisions db)" by (rule R)+
qed

section \<open>What the service checks first\<close>

text \<open>The guards before the candidate row, with everything they read.\<close>

definition sealable ::
    "uuid \<Rightarrow> 'a seal_db_scheme \<Rightarrow> review_decision \<Rightarrow> source_configuration \<Rightarrow> parse_run \<Rightarrow> canonical_fact_set \<Rightarrow> bool" where
  "sealable k db d source run facts \<longleftrightarrow> get_row rd_id k (db_reviews db) = Some d \<and> require_review_tail d db = Inr ()
     \<and> get_row sc_id (rd_source_configuration d) (db_sources db) = Some source
     \<and> get_row run_id (rd_parse_run d) (db_runs db) = Some run
     \<and> require_publication_contract d source run = Inr ()
     \<and> length (snapshots_of_run (run_id run) db) = run_accepted_row_count run
     \<and> list_all (coverage_approved d db) (snapshots_of_run (run_id run) db)
     \<and> build_publication_fact_set (snapshots_of_run (run_id run) db) db = Inr facts"

lemma seal_sealable:
  assumes "sealable k db d source run facts"
  shows "seal_recent_publication ids created sealed k copy_revision db =
    (let v = publication_candidate (ids 0) created d run facts copy_revision in
     if \<not> (revision_fields v \<and> revision_links v db) then Inl (FullClean ''PublicationRevision'')
     else (case find (same_publication v) (db_revisions db) of
        Some w \<Rightarrow> ebind (replay_publication w v facts db) (\<lambda>w. Inr (w, db))
      | None \<Rightarrow> create_publication ids sealed v facts db))"
  using assms by (simp add: sealable_def seal_recent_publication_def Let_def require_def)

lemma seal_Inr:
  assumes "seal_recent_publication ids created sealed k copy_revision db = Inr (v, db')"
  obtains d source run facts where "sealable k db d source run facts"
proof -
  have "\<exists>d source run facts. sealable k db d source run facts"
    using assms
    by (auto simp: seal_recent_publication_def sealable_def Let_def of_option_eq_Inr require_eq_Inr elim!: ebind_InrE)
  then show ?thesis using that by blast
qed

lemma seal_Inr_cases:
  assumes "sealable k db d source run facts"
    and "seal_recent_publication ids created sealed k copy_revision db = Inr (v, db')"
  defines "c \<equiv> publication_candidate (ids 0) created d run facts copy_revision"
  obtains (replay) "db' = db" "find (same_publication c) (db_revisions db) = Some v" "pv_sealed_at v \<noteq> None"
    "same_revision_fields v c"
  | (new) "v = sealed_row c sealed" "pv_id c \<notin> pv_id ` set (db_revisions db)"
    "\<not> list_ex (same_publication c) (db_revisions db)"
    "db' = db\<lparr>db_revisions := db_revisions db @ [v],
        db_entries := db_entries db @ map (sealed_entry ids (pv_id c)) (fs_entries facts)\<rparr>"
proof (cases "find (same_publication c) (db_revisions db)")
  case None
  then have "create_publication ids sealed c facts db = Inr (v, db')"
    using assms(2) unfolding seal_sealable [OF assms(1)] Let_def c_def [symmetric] by (simp split: if_split_asm)
  note C = create_publication_Inr [OF this]
  show ?thesis using C by (intro new) simp_all
next
  case (Some w)
  then show ?thesis
    using assms(2) unfolding seal_sealable [OF assms(1)] Let_def c_def [symmetric]
    by (intro replay) (auto simp: replay_publication_def require_eq_Inr elim!: ebind_InrE split: if_split_asm)
qed

section \<open>The fact set\<close>

lemma fact_entries_Inr:
  assumes "fact_entries ss db = Inr es"
  shows "map ce_ordinal es = [1..<length ss + 1]" and "map ce_snapshot es = map sn_id ss" and "length es = length ss"
    and "list_all2 (\<lambda>s c. snapshot_fact_sha256 s db = Inr (ce_fact_sha256 c)) ss es"
proof -
  have *: "map ce_ordinal es = map fst ps \<and> map ce_snapshot es = map (sn_id \<circ> snd) ps
      \<and> list_all2 (\<lambda>s c. snapshot_fact_sha256 s db = Inr (ce_fact_sha256 c)) (map snd ps) es"
    if "emap (\<lambda>(i, s). ebind (snapshot_fact_sha256 s db) (\<lambda>h.
      Inr \<lparr>ce_ordinal = i, ce_snapshot = sn_id s, ce_fact_sha256 = h\<rparr>)) ps = Inr es" for ps
    using that by (induction ps arbitrary: es) (auto elim!: ebind_InrE split: prod.split_asm)
  let ?ps = "zip [1..<length ss + 1] ss"
  have "map fst ?ps = [1..<length ss + 1]" "map snd ?ps = ss" by (simp_all del: upt_Suc)
  moreover from this(2) have "map (sn_id \<circ> snd) ?ps = map sn_id ss" by (simp del: upt_Suc flip: map_map)
  ultimately show o: "map ce_ordinal es = [1..<length ss + 1]" and "map ce_snapshot es = map sn_id ss"
    and "list_all2 (\<lambda>s c. snapshot_fact_sha256 s db = Inr (ce_fact_sha256 c)) ss es"
    using * [OF assms [unfolded fact_entries_def]] by simp_all
  show "length es = length ss" using arg_cong [OF o, of length] by (simp del: upt_Suc)
qed

text \<open>The canonical fact set of a run has one entry for each of its snapshots, numbered from one.\<close>

lemma fact_set_members:
  assumes "price_inv db" and "build_publication_fact_set (snapshots_of_run k db) db = Inr facts"
  shows "map ce_ordinal (fs_entries facts) = [1..<length (snapshots_of_run k db) + 1]"
    and "map ce_snapshot (fs_entries facts) = map sn_id (run_order k db)"
    and "length (fs_entries facts) = length (snapshots_of_run k db)" and "snapshots_of_run k db \<noteq> []"
    and "list_all2 (\<lambda>s c. snapshot_fact_sha256 s db = Inr (ce_fact_sha256 c)) (run_order k db) (fs_entries facts)"
    and "facts = fact_set_of (fs_entries facts) (map sn_source_effective_date (run_order k db))"
proof -
  obtain es where ne: "snapshots_of_run k db \<noteq> []" and e: "fact_entries (run_order k db) db = Inr es"
    and f: "facts = fact_set_of es (map sn_source_effective_date (run_order k db))"
    using assms by (auto simp: fact_set_Inr)
  have es: "fs_entries facts = es" by (simp add: f fact_set_of_def)
  note E = fact_entries_Inr [OF e]
  show "map ce_ordinal (fs_entries facts) = [1..<length (snapshots_of_run k db) + 1]"
    using E(1) by (simp add: es run_order_set(2) [OF assms(1)])
  show "map ce_snapshot (fs_entries facts) = map sn_id (run_order k db)" using E(2) by (simp add: es)
  show "length (fs_entries facts) = length (snapshots_of_run k db)"
    using E(3) by (simp add: es run_order_set(2) [OF assms(1)])
  show "snapshots_of_run k db \<noteq> []" by (rule ne)
  show "list_all2 (\<lambda>s c. snapshot_fact_sha256 s db = Inr (ce_fact_sha256 c)) (run_order k db) (fs_entries facts)"
    using E(4) by (simp add: es)
  show "facts = fact_set_of (fs_entries facts) (map sn_source_effective_date (run_order k db))"
    using f es by simp
qed

section \<open>A seal publishes\<close>

text \<open>The facts do not depend on the tables a seal writes.\<close>

lemma build_fact_set_cong:
  assumes "db_series db' = db_series db" "db_snapshots db' = db_snapshots db"
      "db_references db' = db_references db" "db_changes db' = db_changes db"
  shows "build_publication_fact_set ss db' = build_publication_fact_set ss db"
    and "coverage_approved d db' = coverage_approved d db" and "snapshots_of_run k db' = snapshots_of_run k db"
    and "sql_snapshot_fact_sha256 i db' = sql_snapshot_fact_sha256 i db" and "snapshot_series db' = snapshot_series db"
proof -
  show s: "snapshot_series db' = snapshot_series db" by (rule ext) (simp add: snapshot_series_def assms)
  have r: "references_of i db' = references_of i db" for i by (simp add: references_of_def assms)
  have "canonical_reference_data db' = canonical_reference_data db"
    by (rule ext) (simp add: canonical_reference_data_def assms)
  then have "canonical_snapshot_data x db' = canonical_snapshot_data x db" for x
    by (simp add: canonical_snapshot_data_def s r)
  then have "snapshot_fact_sha256 x db' = snapshot_fact_sha256 x db" for x by (simp add: snapshot_fact_sha256_def)
  moreover have "with_series db' = with_series db" by (rule ext) (simp add: with_series_def s)
  ultimately show "build_publication_fact_set ss db' = build_publication_fact_set ss db"
    by (simp add: build_publication_fact_set_def)
  show "coverage_approved d db' = coverage_approved d db" by (rule ext) (simp add: coverage_approved_def s)
  show "snapshots_of_run k db' = snapshots_of_run k db" by (simp add: snapshots_of_run_def assms)
  show "sql_snapshot_fact_sha256 i db' = sql_snapshot_fact_sha256 i db"
    by (simp add: sql_snapshot_fact_sha256_def sql_references_def assms s r cong: option.case_cong)
qed

lemma seal_reads [simp]:
  "build_publication_fact_set ss (db\<lparr>db_revisions := vs\<rparr>) = build_publication_fact_set ss db"
  "build_publication_fact_set ss (db\<lparr>db_entries := es\<rparr>) = build_publication_fact_set ss db"
  "coverage_approved d (db\<lparr>db_revisions := vs\<rparr>) = coverage_approved d db"
  "coverage_approved d (db\<lparr>db_entries := es\<rparr>) = coverage_approved d db"
  "snapshots_of_run k (db\<lparr>db_revisions := vs\<rparr>) = snapshots_of_run k db"
  "snapshots_of_run k (db\<lparr>db_entries := es\<rparr>) = snapshots_of_run k db"
  "sql_snapshot_fact_sha256 i (db\<lparr>db_revisions := vs\<rparr>) = sql_snapshot_fact_sha256 i db"
  "sql_snapshot_fact_sha256 i (db\<lparr>db_entries := es\<rparr>) = sql_snapshot_fact_sha256 i db"
  "snapshot_series (db\<lparr>db_revisions := vs\<rparr>) = snapshot_series db"
  "snapshot_series (db\<lparr>db_entries := es\<rparr>) = snapshot_series db"
  by (rule build_fact_set_cong, simp_all)+

lemma published_as_cong:
  assumes "get_row rd_id (pv_review_decision v) (db_reviews db') = get_row rd_id (pv_review_decision v) (db_reviews db)"
    and "db_runs db' = db_runs db" "db_series db' = db_series db" "db_snapshots db' = db_snapshots db"
      "db_references db' = db_references db" "db_changes db' = db_changes db"
    and "entries_of (pv_id v) db' = entries_of (pv_id v) db"
  shows "published_as db' v = published_as db v"
  using build_fact_set_cong [OF assms(3-6)] assms(1,2,7)
  by (intro ext) (simp add: published_as_def entries_in_order_def)

text \<open>Every entry belongs to a stored revision.\<close>

definition entries_linked :: "'a seal_db_scheme \<Rightarrow> bool" where
  "entries_linked db \<longleftrightarrow> list_all (\<lambda>e. en_revision e \<in> pv_id ` set (db_revisions db)) (db_entries db)"

lemma entries_linked_fresh: "entries_linked db \<Longrightarrow> k \<notin> pv_id ` set (db_revisions db) \<Longrightarrow> entries_of k db = []"
  by (auto simp: entries_linked_def entries_of_def filter_empty_conv list_all_iff)

lemma seal_published:
  assumes "price_inv db" and "entries_linked db" and "sealable k db d source run facts"
    and "seal_recent_publication ids created sealed k copy_revision db = Inr (v, db')"
    and new: "v \<notin> set (db_revisions db)"
  shows "published_as db' v d facts run"
proof -
  let ?c = "publication_candidate (ids 0) created d run facts copy_revision"
  let ?es = "map (sealed_entry ids (pv_id ?c)) (fs_entries facts)"
  obtain v: "v = sealed_row ?c sealed" and fresh: "pv_id ?c \<notin> pv_id ` set (db_revisions db)"
    and db': "db' = db\<lparr>db_revisions := db_revisions db @ [v], db_entries := db_entries db @ ?es\<rparr>"
    using assms(3,4) new find_Some_member
    by (cases rule: seal_Inr_cases [OF assms(3,4), case_names replay new]) fastforce+
  have S: "get_row rd_id k (db_reviews db) = Some d" "require_review_tail d db = Inr ()"
    "get_row run_id (rd_parse_run d) (db_runs db) = Some run" "require_publication_contract d source run = Inr ()"
    "list_all (coverage_approved d db) (snapshots_of_run (run_id run) db)"
    "build_publication_fact_set (snapshots_of_run (run_id run) db) db = Inr facts"
    using assms(3) by (simp_all add: sealable_def)
  have ids: "rd_id d = k" "run_id run = rd_parse_run d" using get_row_Some S(1,3) by fastforce+
  have ap: "rd_decision d = APPROVE"
    using S(2) by (auto simp: require_review_tail_def Let_def require_eq_Inr elim!: ebind_InrE)
  have val: "run_status run = RUN_VALIDATED" using S(4) by (simp add: require_publication_contract_def require_eq_Inr)
  have "entries_of (pv_id v) db' = ?es"
    using entries_linked_fresh [OF assms(2) fresh] by (simp add: v db' entries_of_def)
  moreover have "map en_ordinal ?es = [1..<length (snapshots_of_run (run_id run) db) + 1]"
    using fact_set_members(1) [OF assms(1) S(6)] by (simp add: comp_def)
  then have "sort_key en_ordinal ?es = ?es" by (intro sort_key_id_if_sorted) (simp del: upt_Suc)
  ultimately have e: "map stored_entry (entries_in_order (pv_id v) db') = fs_entries facts"
    by (simp add: entries_in_order_def comp_def)
  have "build_publication_fact_set (snapshots_of_run (run_id run) db') db' = Inr facts"
    using S(6) by (simp add: db')
  then show ?thesis
    using S ids ap val e
    by (simp add: published_as_def v publication_candidate_def) (simp add: db')
qed

section \<open>The database accepts what the service builds\<close>

lemma get_rows_member:
  "distinct (map f rows) \<Longrightarrow> set ss \<subseteq> set rows \<Longrightarrow> List.map_filter (\<lambda>i. get_row f i rows) (map f ss) = ss"
  by (induction ss) (auto simp: List.map_filter_simps get_row_member)

text \<open>One more entry: the guards of \<open>save\<close> and of the trigger in one place.\<close>

definition entry_fits :: "uuid \<Rightarrow> 'a seal_db_scheme \<Rightarrow> canonical_entry \<Rightarrow> bool" where
  "entry_fits g db c \<longleftrightarrow> 1 \<le> ce_ordinal c \<and> integer_field (ce_ordinal c)
     \<and> SHA256_PATTERN (ce_fact_sha256 c) \<and> sql_snapshot_fact_sha256 (ce_snapshot c) db = Some (ce_fact_sha256 c)
     \<and> (\<exists>s. get_row sn_id (ce_snapshot c) (db_snapshots db) = Some s \<and> sn_parse_run s = g)"

lemma save_entry_ok:
  assumes "get_row pv_id k (db_revisions db) = Some v" and "pv_sealed_at v = None"
    and "entry_fits (pv_generation v) db c" and "entry_unique (sealed_entry ids k c) (db_entries db)"
  shows "save_entry True (sealed_entry ids k c) db = Inr (db\<lparr>db_entries := db_entries db @ [sealed_entry ids k c]\<rparr>)"
proof -
  obtain s where s: "get_row sn_id (ce_snapshot c) (db_snapshots db) = Some s" "sn_parse_run s = pv_generation v"
    using assms(3) by (auto simp: entry_fits_def)
  have "k \<in> pv_id ` set (db_revisions db)" "ce_snapshot c \<in> sn_id ` set (db_snapshots db)"
    using get_row_Some [OF assms(1)] get_row_Some [OF s(1)] by (metis imageI)+
  then show ?thesis
    using assms s
    by (simp add: save_entry_def entry_clean_def entry_fields_def entry_constraints_def entry_trigger_def entry_fits_def)
qed

lemma create_entries_ok:
  assumes "get_row pv_id k (db_revisions db) = Some v" and "pv_sealed_at v = None"
    and "\<forall>c \<in> set cs. entry_fits (pv_generation v) db c" and "distinct (map ce_ordinal cs)"
    and "distinct (map ce_snapshot cs)" and "distinct (map (\<lambda>c. ids (ce_ordinal c)) cs)"
    and "\<forall>e \<in> set (db_entries db). en_id e \<notin> (\<lambda>c. ids (ce_ordinal c)) ` set cs"
    and "\<forall>e \<in> set (db_entries db). en_revision e = k \<longrightarrow> en_ordinal e \<notin> ce_ordinal ` set cs
           \<and> en_snapshot e \<notin> ce_snapshot ` set cs"
  shows "create_entries ids k cs db = Inr (db\<lparr>db_entries := db_entries db @ map (sealed_entry ids k) cs\<rparr>)"
  using assms
proof (induction cs arbitrary: db)
  case (Cons c cs)
  let ?db = "db\<lparr>db_entries := db_entries db @ [sealed_entry ids k c]\<rparr>"
  have "entry_unique (sealed_entry ids k c) (db_entries db)"
    using Cons.prems(7,8) by (auto simp: entry_unique_def list_ex_iff)
  then have one: "save_entry True (sealed_entry ids k c) db = Inr ?db"
    using save_entry_ok [OF Cons.prems(1,2), of c ids] Cons.prems(3) by simp
  have "create_entries ids k cs ?db = Inr (?db\<lparr>db_entries := db_entries ?db @ map (sealed_entry ids k) cs\<rparr>)"
  proof (rule Cons.IH)
    show "\<forall>c \<in> set cs. entry_fits (pv_generation v) ?db c" using Cons.prems(3) by (simp add: entry_fits_def)
    show "\<forall>e \<in> set (db_entries ?db). en_id e \<notin> (\<lambda>c. ids (ce_ordinal c)) ` set cs"
      using Cons.prems(6,7) by auto
    show "\<forall>e \<in> set (db_entries ?db). en_revision e = k \<longrightarrow> en_ordinal e \<notin> ce_ordinal ` set cs
        \<and> en_snapshot e \<notin> ce_snapshot ` set cs"
      using Cons.prems(4,5,8) by auto
  qed (use Cons.prems in simp_all)
  then show ?case using one by (simp add: sealed_entry_def)
qed simp

text \<open>What a first seal needs besides the guards: a copy revision in the right form and new identifiers.\<close>

definition new_publication_ids :: "(nat \<Rightarrow> uuid) \<Rightarrow> nat \<Rightarrow> 'a seal_db_scheme \<Rightarrow> bool" where
  "new_publication_ids ids n db \<longleftrightarrow> inj_on ids {1..n} \<and> ids 0 \<notin> pv_id ` set (db_revisions db)
     \<and> (\<forall>e \<in> set (db_entries db). en_id e \<notin> ids ` {1..n})"

lemma min_le_max_dates: "foldr min ds d \<le> foldr max ds (d :: date)"
proof -
  have "foldr min ds d \<le> d" "d \<le> foldr max ds d" by (induction ds) (auto simp: min.coboundedI2 max.coboundedI2)
  then show ?thesis by (rule order_trans)
qed

lemma fact_entries_fit:
  assumes "price_inv db" and f: "build_publication_fact_set (snapshots_of_run k db) db = Inr facts"
    and "integer_field (length (snapshots_of_run k db))" and c: "c \<in> set (fs_entries facts)"
  shows "entry_fits k db c"
proof -
  note F = fact_set_members [OF assms(1) f]
  have keys: "price_keys db" using assms(1) by (simp add: price_inv_def)
  obtain i where i: "i < length (fs_entries facts)" "c = fs_entries facts ! i" using c by (metis in_set_conv_nth)
  define s where "s = run_order k db ! i"
  have "snapshot_fact_sha256 s db = Inr (ce_fact_sha256 c)"
    using F(5) i by (simp add: s_def list_all2_conv_all_nth)
  moreover have "i < length (run_order k db)" using F(3) i(1) by (simp add: run_order_set(2) [OF assms(1)])
  then have s: "s \<in> set (snapshots_of_run k db)" using run_order_set(1) [OF assms(1)] by (metis s_def nth_mem)
  then have m: "s \<in> set (db_snapshots db)" "sn_parse_run s = k" by (simp_all add: snapshots_of_run_def)
  moreover have "ce_snapshot c = sn_id s"
    using arg_cong [OF F(2), of "\<lambda>xs. xs ! i"] i \<open>i < length (run_order k db)\<close> by (simp add: s_def)
  moreover have "ce_ordinal c = i + 1"
    using arg_cong [OF F(1), of "\<lambda>xs. xs ! i"] i F(3) by (simp del: upt_Suc)
  moreover have "SHA256_PATTERN (ce_fact_sha256 c)"
    using calculation(1)
    by (auto simp: snapshot_fact_sha256_def canonical_fact_hash_def of_option_eq_Inr SHA256_PATTERN_def
        dest!: sym [where t = "ce_fact_sha256 c"] elim!: ebind_InrE)
  moreover have "get_row sn_id (sn_id s) (db_snapshots db) = Some s"
    using keys m(1) by (simp add: price_keys_def get_row_member)
  ultimately show ?thesis
    using sql_hash_agrees [OF keys m(1)] i(1) F(3) assms(3) by (simp add: entry_fits_def integer_field_def)
qed

lemma entry_snapshots_order:
  assumes "price_inv db" and f: "build_publication_fact_set (snapshots_of_run k db) db = Inr facts"
    and "entries_of i db' = map (sealed_entry ids i) (fs_entries facts)" and "db_snapshots db' = db_snapshots db"
  shows "entry_snapshots i db' = run_order k db"
proof -
  have keys: "distinct (map sn_id (db_snapshots db))" using assms(1) by (simp add: price_inv_def price_keys_def)
  have "set (run_order k db) \<subseteq> set (db_snapshots db)"
    using run_order_set(1) [OF assms(1)] by (auto simp: snapshots_of_run_def)
  then have "List.map_filter (\<lambda>i. get_row sn_id i (db_snapshots db)) (map sn_id (run_order k db)) = run_order k db"
    by (rule get_rows_member [OF keys])
  moreover have "entry_snapshots i db' = List.map_filter (\<lambda>i. get_row sn_id i (db_snapshots db)) (map ce_snapshot (fs_entries facts))"
    unfolding entry_snapshots_def assms(3,4) by (simp add: List.map_filter_def comp_def filter_map)
  ultimately show ?thesis using fact_set_members(2) [OF assms(1) f] by simp
qed

lemma seal_entries_accepts:
  assumes "price_inv db" and f: "build_publication_fact_set (snapshots_of_run k db) db = Inr facts"
    and e: "entries_of (pv_id v) db' = map (sealed_entry ids (pv_id v)) (fs_entries facts)"
    and snaps: "db_snapshots db' = db_snapshots db"
    and v: "pv_entry_count v = length (fs_entries facts)" "pv_generation v = k"
      "pv_typed_fact_set_sha256 v = fs_typed_fact_set_sha256 facts"
      "pv_source_effective_date_min v = fs_source_effective_date_min facts"
      "pv_source_effective_date_max v = fs_source_effective_date_max facts"
  shows "seal_entries_ok v db'"
proof -
  let ?es = "fs_entries facts" and ?n = "length (snapshots_of_run k db)"
  note F = fact_set_members [OF assms(1) f]
  have order: "entry_snapshots (pv_id v) db' = run_order k db"
    by (rule entry_snapshots_order [OF assms(1) f e snaps])
  have ids: "distinct (map sn_id (run_order k db))"
  proof -
    have "mset (map sn_id (run_order k db)) = mset (map sn_id (snapshots_of_run k db))"
      using run_order_set(3) [OF assms(1)] by simp
    moreover have "distinct (map sn_id (snapshots_of_run k db))"
      using assms(1) by (simp add: price_inv_def price_keys_def snapshots_of_run_def distinct_map_filter)
    ultimately show ?thesis using mset_eq_imp_distinct_iff by blast
  qed
  have n: "0 < ?n" "length ?es = ?n" using F(3,4) by simp_all
  have ords: "map en_ordinal (entries_of (pv_id v) db') = [1..<?n + 1]"
    using F(1) by (simp add: e comp_def)
  then have "set (map en_ordinal (entries_of (pv_id v) db')) = {1..?n}" by (simp only: set_upt) auto
  moreover have "map en_snapshot (entries_of (pv_id v) db') = map sn_id (run_order k db)"
    using F(2) by (simp add: e comp_def)
  then have "card (set (map en_snapshot (entries_of (pv_id v) db'))) = ?n"
    using distinct_card [OF ids] run_order_set(2) [OF assms(1), of k] by simp
  moreover have "entries_in_order (pv_id v) db' = entries_of (pv_id v) db'"
    using ords by (simp add: entries_in_order_def sort_key_id_if_sorted del: upt_Suc)
  then have "map en_fact_sha256 (entries_in_order (pv_id v) db') = map ce_fact_sha256 ?es" by (simp add: e comp_def)
  moreover have "Min {1..?n} = 1" "Max {1..?n} = ?n" using n(1) by (auto intro!: Min_eqI Max_eqI simp: Suc_le_eq)
  moreover have "run_order k db \<noteq> []" using n(1) run_order_set(2) [OF assms(1), of k] by auto
  moreover have "list_all (\<lambda>s. sn_parse_run s = k) (run_order k db)"
    using run_order_set(1) [OF assms(1), of k] by (simp add: list_all_iff snapshots_of_run_def)
  moreover have "fs_typed_fact_set_sha256 facts = fact_set_hash (map ce_fact_sha256 ?es)"
    "fs_source_effective_date_min facts = foldr min (map sn_source_effective_date (run_order k db))
        (hd (map sn_source_effective_date (run_order k db)))"
    "fs_source_effective_date_max facts = foldr max (map sn_source_effective_date (run_order k db))
        (hd (map sn_source_effective_date (run_order k db)))"
    using arg_cong [OF F(6), of fs_typed_fact_set_sha256] arg_cong [OF F(6), of fs_source_effective_date_min]
      arg_cong [OF F(6), of fs_source_effective_date_max] by (simp_all add: fact_set_of_def)
  moreover have "entries_of (pv_id v) db' \<noteq> []" "length (entries_of (pv_id v) db') = ?n" using n by (auto simp: e)
  ultimately show ?thesis
    using n v by (simp add: seal_entries_ok_def Let_def order fact_set_hash_def FACT_SET_HASH_VERSION_def)
qed

lemma seal_decision_accepts:
  assumes "sealable k db d source run facts" and "review_inv db" and "price_inv db"
    and v: "pv_review_decision v = k" "pv_generation v = run_id run"
    and "db_reviews db' = db_reviews db" "db_sources db' = db_sources db"
    and "entry_series (pv_id v) db' = List.map_filter (snapshot_series db) (run_order (run_id run) db)"
  shows "seal_decision_ok v db'"
proof -
  have S: "get_row rd_id k (db_reviews db) = Some d" "require_review_tail d db = Inr ()"
    "get_row sc_id (rd_source_configuration d) (db_sources db) = Some source"
    "require_publication_contract d source run = Inr ()"
    "list_all (coverage_approved d db) (snapshots_of_run (run_id run) db)"
    using assms(1) by (simp_all add: sealable_def)
  have d: "d \<in> set (db_reviews db)" "rd_id d = k" using get_row_Some [OF S(1)] by simp_all
  have tail: "last (review_history (review_generation d) db) = d" "rd_decision d = APPROVE"
    using S(2) unfolding require_review_tail_iff [OF assms(2) d(1)] by (simp_all split: if_split_asm)
  then have "\<not> list_ex (\<lambda>x. rd_supersedes x = Some (rd_id d)) (db_reviews db)"
    using superseded_in_history [OF assms(2) d(1)] by simp
  moreover have "list_all (\<lambda>x. si_coverage_identity (ser_identity x) = rd_approved_coverage_identity d)
      (entry_series (pv_id v) db')"
    using S(5) run_order_set(1) [OF assms(3), of "run_id run"]
    by (auto simp: assms(8) list_all_iff List.map_filter_def coverage_approved_def)
  ultimately show ?thesis
    using S(1,3,4) tail(2) d(2)
    by (simp add: seal_decision_ok_def v assms(6,7) require_publication_contract_def require_eq_Inr)
qed

theorem create_publication_ok:
  assumes "price_inv db" and "review_inv db" and "entries_linked db" and S: "sealable k db d source run facts"
    and c: "c = publication_candidate (ids 0) created d run facts copy_revision"
    and "revision_fields c" "revision_links c db" "\<not> list_ex (same_publication c) (db_revisions db)"
    and "copy_revision_text copy_revision" and "created \<le> sealed"
    and fresh: "new_publication_ids ids (length (fs_entries facts)) db"
  shows "create_publication ids sealed c facts db =
    Inr (sealed_row c sealed, db\<lparr>db_revisions := db_revisions db @ [sealed_row c sealed],
      db_entries := db_entries db @ map (sealed_entry ids (pv_id c)) (fs_entries facts)\<rparr>)"
proof -
  let ?k = "run_id run" and ?i = "pv_id c" and ?cs = "fs_entries facts"
  let ?es = "map (sealed_entry ids ?i) ?cs"
  let ?db1 = "db\<lparr>db_revisions := db_revisions db @ [c]\<rparr>"
  let ?db2 = "?db1\<lparr>db_entries := db_entries db @ ?es\<rparr>"
  have f: "build_publication_fact_set (snapshots_of_run ?k db) db = Inr facts" using S by (simp add: sealable_def)
  note F = fact_set_members [OF assms(1) f]
  have i: "?i = ids 0" "pv_sealed_at c = None" "pv_generation c = ?k" "pv_review_decision c = k"
    "pv_entry_count c = length ?cs" "pv_parser_revision c = run_parser_revision run"
    using S get_row_Some [of rd_id k "db_reviews db" d] by (simp_all add: c publication_candidate_def sealable_def)
  then have new: "?i \<notin> pv_id ` set (db_revisions db)" using fresh by (simp add: new_publication_ids_def)
  have none: "get_row pv_id ?i (db_revisions db) = None" using new by (simp add: get_row_None)
  have set: "fs_typed_fact_set_sha256 facts = fact_set_hash (map ce_fact_sha256 ?cs)"
    "fs_source_effective_date_min facts \<le> fs_source_effective_date_max facts"
    using arg_cong [OF F(6), of fs_typed_fact_set_sha256] arg_cong [OF F(6), of fs_source_effective_date_min]
      arg_cong [OF F(6), of fs_source_effective_date_max] by (simp_all add: fact_set_of_def min_le_max_dates)
  have rows: "0 < length ?cs" using F(3,4) by simp
  have con: "revision_constraints c" "revision_constraints (sealed_row c sealed)"
    using set rows assms(9,10)
    by (simp_all add: revision_constraints_def c publication_candidate_def sealed_row_def SHA256_PATTERN_def fact_set_hash_def)
  then have one: "save_revision True c db = Inr ?db1"
    using assms(6-8) new i(2) by (simp add: save_revision_def)
  have got: "get_row pv_id ?i (db_revisions ?db1) = Some c" by (simp add: get_row_append none)
  have int: "integer_field (length (snapshots_of_run ?k db))"
    using assms(6) i(5) F(3) by (simp add: revision_fields_def)
  have old: "entries_of ?i db = []" using assms(3) new by (rule entries_linked_fresh)
  have ord: "set (map ce_ordinal ?cs) = {1..length ?cs}" unfolding F(1) F(3) by (simp only: set_upt) auto
  have two: "create_entries ids ?i ?cs ?db1 = Inr (?db1\<lparr>db_entries := db_entries ?db1 @ ?es\<rparr>)"
  proof (rule create_entries_ok [OF got i(2)])
    show "\<forall>x \<in> set ?cs. entry_fits (pv_generation c) ?db1 x"
      using fact_entries_fit [OF assms(1) f int] by (simp add: i(3) entry_fits_def)
    show o: "distinct (map ce_ordinal ?cs)" unfolding F(1) by simp
    show "distinct (map ce_snapshot ?cs)"
    proof -
      have "distinct (map sn_id (snapshots_of_run ?k db))"
        using assms(1) by (simp add: price_inv_def price_keys_def snapshots_of_run_def distinct_map_filter)
      moreover have "mset (map sn_id (run_order ?k db)) = mset (map sn_id (snapshots_of_run ?k db))"
        using run_order_set(3) [OF assms(1)] by simp
      ultimately show ?thesis unfolding F(2) using mset_eq_imp_distinct_iff by blast
    qed
    have inj: "inj_on ids (set (map ce_ordinal ?cs))" using fresh by (simp only: ord new_publication_ids_def)
    show "distinct (map (\<lambda>c. ids (ce_ordinal c)) ?cs)"
      using o inj distinct_map [of ids "map ce_ordinal ?cs"] by (simp add: comp_def)
    have img: "(\<lambda>c. ids (ce_ordinal c)) ` set ?cs = ids ` set (map ce_ordinal ?cs)" by (simp add: image_image)
    show "\<forall>e \<in> set (db_entries ?db1). en_id e \<notin> (\<lambda>c. ids (ce_ordinal c)) ` set ?cs"
      unfolding img ord using fresh by (simp add: new_publication_ids_def)
    show "\<forall>e \<in> set (db_entries ?db1). en_revision e = ?i \<longrightarrow> en_ordinal e \<notin> ce_ordinal ` set ?cs
        \<and> en_snapshot e \<notin> ce_snapshot ` set ?cs"
      using old by (auto simp: entries_of_def filter_empty_conv)
  qed
  have mine: "entries_of ?i ?db2 = ?es" using old by (simp add: entries_of_def)
  have "entry_series ?i ?db2 = List.map_filter (snapshot_series db) (run_order ?k db)"
    using entry_snapshots_order [OF assms(1) f mine] by (simp add: entry_series_def)
  then have "seal_decision_ok (sealed_row c sealed) ?db2"
    using i by (intro seal_decision_accepts [OF S assms(2,1)]) simp_all
  moreover have "seal_generation_ok (sealed_row c sealed) ?db2"
    using S F(3) i get_row_Some [of run_id "rd_parse_run d" "db_runs db" run]
    by (auto simp: seal_generation_ok_def sealable_def require_publication_contract_def require_eq_Inr)
  moreover have "seal_entries_ok (sealed_row c sealed) ?db2"
    using mine i by (intro seal_entries_accepts [OF assms(1) f, where ids = ids]) (simp_all add: c publication_candidate_def sealed_row_def)
  ultimately have "seal_trigger c (sealed_row c sealed) ?db2"
    using i(2) by (simp add: seal_trigger_def sealed_row_def)
  moreover have "put_row pv_id (sealed_row c sealed) (db_revisions db @ [c]) = db_revisions db @ [sealed_row c sealed]"
    using new by (auto simp: put_row_def image_iff intro!: map_idI)
  ultimately have "update_seal ?i sealed ?db2 = Inr (1, ?db2\<lparr>db_revisions := db_revisions db @ [sealed_row c sealed]\<rparr>)"
    using got con(2) i(2) by (simp add: update_seal_def sealed_row_def [symmetric] require_def)
  then show ?thesis
    using one two by (simp add: create_publication_def get_row_append none)
qed

end
