(* ===== verification/Guarded_Pointer.thy ===== *)
theory Guarded_Pointer
  imports System_Runs
begin

text \<open>
  The contract the publication channels share: a pointer with a version, moved only by appending an
  event that names the version it produces, the target it leaves and the target it installs. The
  abstract state is the list of the targets installed so far.
\<close>

section \<open>Events\<close>

type_synonym 'k pointer_event = "nat \<times> 'k option \<times> 'k option"

fun chained :: "'k option \<Rightarrow> nat \<Rightarrow> 'k pointer_event list \<Rightarrow> bool" where
  "chained p n [] = True"
| "chained p n ((m, q, t) # es) = (m = Suc n \<and> q = p \<and> t \<noteq> p \<and> chained t (Suc n) es)"

definition last_target :: "'k option \<Rightarrow> 'k pointer_event list \<Rightarrow> 'k option" where
  "last_target p es = (if es = [] then p else snd (snd (last es)))"

definition targets :: "'k pointer_event list \<Rightarrow> 'k option list" where
  "targets es = map (snd \<circ> snd) es"

lemma last_target_simps [simp]:
  "last_target p [] = p" "last_target p (es @ [(m, q, t)]) = t" "last_target p ((m, q, t) # es) = last_target t es"
  by (simp_all add: last_target_def)

lemma chained_snoc [simp]:
  "chained p n (es @ [(m, q, t)]) \<longleftrightarrow>
     chained p n es \<and> m = n + length es + 1 \<and> q = last_target p es \<and> t \<noteq> last_target p es"
  by (induction es arbitrary: p n) auto

lemma chained_sequences: "chained p n es \<Longrightarrow> map fst es = [n + 1..<n + length es + 1]"
  by (induction p n es rule: chained.induct) (auto simp: upt_conv_Cons simp del: upt_Suc)

lemma chained_nth:
  assumes "chained p n es" and "i < length es"
  shows "fst (es ! i) = n + i + 1" and "fst (snd (es ! i)) = (if i = 0 then p else snd (snd (es ! (i - 1))))"
    and "snd (snd (es ! i)) \<noteq> fst (snd (es ! i))"
proof -
  have "fst (es ! i) = n + i + 1 \<and> fst (snd (es ! i)) = (if i = 0 then p else snd (snd (es ! (i - 1))))
      \<and> snd (snd (es ! i)) \<noteq> fst (snd (es ! i))"
    using assms
  proof (induction p n es arbitrary: i rule: chained.induct)
    case (2 p n m q t es)
    show ?case
    proof (cases i)
      case (Suc j)
      then show ?thesis using 2(1) [of j] 2(2,3) by (cases j) auto
    qed (use 2(2) in auto)
  qed simp
  then show "fst (es ! i) = n + i + 1" and "fst (snd (es ! i)) = (if i = 0 then p else snd (snd (es ! (i - 1))))"
    and "snd (snd (es ! i)) \<noteq> fst (snd (es ! i))" by blast+
qed

section \<open>The contract\<close>

text \<open>
  \<open>pointer s\<close> is the version and the current target, \<open>events s\<close> the stored events of a state
  that satisfies \<open>inv\<close>. A \<open>move\<close> appends one event; nothing else touches the events.
\<close>

locale guarded_pointer =
  fixes inv :: "'s \<Rightarrow> bool"
    and pointer :: "'s \<Rightarrow> nat \<times> 'k option"
    and events :: "'s \<Rightarrow> 'k pointer_event list"
    and move :: "'k option \<Rightarrow> 's \<Rightarrow> 's \<Rightarrow> bool"
    and other :: "'s \<Rightarrow> 's \<Rightarrow> bool"
  assumes linked: "inv s \<Longrightarrow> chained None 0 (events s)"
    and pointer_at: "inv s \<Longrightarrow> pointer s = (length (events s), last_target None (events s))"
    and move_inv: "inv s \<Longrightarrow> move t s s' \<Longrightarrow> inv s'"
    and other_inv: "inv s \<Longrightarrow> other s s' \<Longrightarrow> inv s'"
    and move_events: "inv s \<Longrightarrow> move t s s' \<Longrightarrow>
          events s' = events s @ [(Suc (fst (pointer s)), snd (pointer s), t)]"
    and other_events: "inv s \<Longrightarrow> other s s' \<Longrightarrow> events s' = events s"
begin

definition step :: "'s \<Rightarrow> 's \<Rightarrow> bool" where
  "step s s' \<longleftrightarrow> (\<exists>t. move t s s') \<or> other s s'"

lemma move_pointer: "inv s \<Longrightarrow> move t s s' \<Longrightarrow> pointer s' = (Suc (fst (pointer s)), t)"
  using pointer_at [of s] pointer_at [of s'] move_inv [of s t s'] move_events [of s t s'] by simp

lemma other_pointer: "inv s \<Longrightarrow> other s s' \<Longrightarrow> pointer s' = pointer s"
  using pointer_at [of s] pointer_at [of s'] other_inv [of s s'] other_events [of s s'] by simp

lemma move_changes: "inv s \<Longrightarrow> move t s s' \<Longrightarrow> t \<noteq> snd (pointer s)"
  using linked [of s'] move_inv [of s t s'] move_events [of s t s'] pointer_at [of s] by simp

text \<open>The abstract machine: a move appends its target to the history, and the pointer is the last of it.\<close>

lemma move_refines: "inv s \<Longrightarrow> move t s s' \<Longrightarrow> targets (events s') = targets (events s) @ [t]"
  using move_events [of s t s'] by (simp add: targets_def)

lemma pointer_refines:
  assumes "inv s"
  shows "pointer s = (length (targets (events s)), if targets (events s) = [] then None else last (targets (events s)))"
  using pointer_at [OF assms] by (simp add: targets_def last_target_def last_map)

lemma step_inv: "inv s \<Longrightarrow> step s s' \<Longrightarrow> inv s'"
  unfolding step_def using move_inv [of s _ s'] other_inv [of s s'] by auto

lemma step_append: "inv s \<Longrightarrow> step s s' \<Longrightarrow> \<exists>es. events s' = events s @ es"
  using move_events [of s _ s'] other_events [of s s'] by (auto simp: step_def)

end

text \<open>The events of a guarded pointer are a log: any state of a guarded pointer is a growing system.\<close>

sublocale guarded_pointer \<subseteq> log: growing_system inv step "\<lambda>s s'. prefix (events s) (events s')"
  by unfold_locales (use step_inv step_append in \<open>auto simp: prefix_def\<close>)

context guarded_pointer begin

lemma steps_append: "step\<^sup>*\<^sup>* s s' \<Longrightarrow> inv s \<Longrightarrow> inv s' \<and> (\<exists>es. events s' = events s @ es)"
  using log.steps [of s s'] by (auto simp: prefix_def)

lemma version_never_falls: "step\<^sup>*\<^sup>* s s' \<Longrightarrow> inv s \<Longrightarrow> fst (pointer s) \<le> fst (pointer s')"
  using steps_append [of s s'] pointer_at [of s] pointer_at [of s'] by auto

text \<open>An unchanged version means an unchanged pointer: the version detects every move in between.\<close>

lemma same_version_same_pointer:
  assumes "step\<^sup>*\<^sup>* s s'" and "inv s" and "fst (pointer s') = fst (pointer s)"
  shows "pointer s' = pointer s \<and> events s' = events s"
  using steps_append [OF assms(1,2)] pointer_at [of s'] pointer_at [OF assms(2)] assms(3) by auto

text \<open>What was current stays in the history.\<close>

lemma current_stays_in_history:
  assumes "step\<^sup>*\<^sup>* s s'" and "inv s" and "snd (pointer s) = Some k"
  shows "Some k \<in> set (targets (events s'))"
  using steps_append [OF assms(1,2)] pointer_refines [OF assms(2)] assms(3) last_in_set [of "targets (events s)"]
  by (auto simp: targets_def split: if_split_asm)

end

end
