(* ===== verification/Activation_Machine.thy ===== *)
theory Activation_Machine
  imports Activation Guarded_Pointer
begin

text \<open>
  The recent channel as a guarded pointer: what a transition answers, when the guards of the
  database can refuse it (never, from a consistent state) and how the stored events read.
\<close>

section \<open>The channel as a pointer\<close>

definition pointer_event :: "publication_activation \<Rightarrow> uuid pointer_event" where
  "pointer_event a = (pa_sequence a, pa_previous_revision a, pa_target_revision a)"

definition recent_events :: "'a publication_db_scheme \<Rightarrow> uuid pointer_event list" where
  "recent_events db = map pointer_event (db_activations db)"

definition recent_pointer :: "'a publication_db_scheme \<Rightarrow> nat \<times> uuid option" where
  "recent_pointer db = (case db_channel db of
     None \<Rightarrow> (0, None) | Some c \<Rightarrow> (ch_version c, ch_current_revision c))"

text \<open>The row the service works on: the bootstrap creates it when it is missing.\<close>

definition with_channel :: "'a publication_db_scheme \<Rightarrow> 'a publication_db_scheme" where
  "with_channel db = (if db_channel db = None
     then db\<lparr>db_channel := Some \<lparr>ch_current_revision = None, ch_version = 0\<rparr>\<rparr> else db)"

definition channel_inv :: "'a publication_db_scheme \<Rightarrow> bool" where
  "channel_inv db \<longleftrightarrow> chained None 0 (recent_events db)
     \<and> recent_pointer db = (length (recent_events db), last_target None (recent_events db))
     \<and> list_all (\<lambda>a. revision_exists (pa_target_revision a) db) (db_activations db)"

lemma with_channel_tables [simp]:
  "db_activations (with_channel db) = db_activations db" "recent_events (with_channel db) = recent_events db"
  "recent_pointer (with_channel db) = recent_pointer db" "db_revisions (with_channel db) = db_revisions db"
  "db_reviews (with_channel db) = db_reviews db" "db_entries (with_channel db) = db_entries db"
  "db_channel (with_channel db) = Some \<lparr>ch_current_revision = snd (recent_pointer db), ch_version = fst (recent_pointer db)\<rparr>"
  by (auto simp: with_channel_def recent_events_def recent_pointer_def split: option.split)

lemma bootstrap_with_channel:
  "bootstrap_recent_publication_channel (Some k) db = Inr (with_channel db)"
  by (simp add: bootstrap_recent_publication_channel_def with_channel_def Let_def channel_insert_guard_def
      channel_constraints_def big_field_def require_def)

lemma revision_exists_iff: "revision_exists k db \<longleftrightarrow> (\<forall>i. k = Some i \<longrightarrow> i \<in> pv_id ` set (db_revisions db))"
  by (cases k) (auto simp: revision_exists_def)

lemma current_exists:
  assumes "channel_inv db"
  shows "revision_exists (snd (recent_pointer db)) db"
proof (cases "db_activations db" rule: rev_cases)
  case Nil
  then show ?thesis using assms by (simp add: channel_inv_def recent_events_def revision_exists_def)
next
  case (snoc as a)
  then show ?thesis using assms by (simp add: channel_inv_def recent_events_def pointer_event_def)
qed

section \<open>The deferred check\<close>

lemma recent_sequences:
  "channel_inv db \<Longrightarrow> map pa_sequence (db_activations db) = [1..<length (db_activations db) + 1]"
  using chained_sequences [of None 0 "recent_events db"]
  by (simp add: channel_inv_def recent_events_def pointer_event_def comp_def del: upt_Suc)

lemma channel_inv_consistent:
  assumes "channel_inv db" and "db_channel db = Some c"
  shows "channel_state_consistent db"
proof (cases "db_activations db = []")
  case True
  then show ?thesis
    using assms by (simp add: channel_state_consistent_def channel_inv_def recent_events_def recent_pointer_def)
next
  case False
  let ?as = "db_activations db" and ?n = "length (db_activations db)"
  note seqs = recent_sequences [OF assms(1)]
  have set: "set (map pa_sequence ?as) = {1..?n}" unfolding seqs by (simp only: set_upt) auto
  have max: "Max (set (map pa_sequence ?as)) = ?n"
    unfolding set using False by (intro Max_eqI) (auto simp: Suc_le_eq)
  have sorted: "sort_key pa_sequence ?as = ?as" by (rule sort_key_id_if_sorted) (simp add: seqs del: upt_Suc)
  have c: "ch_version c = ?n" "ch_current_revision c = latest_target ?as"
    using assms False
    by (simp_all add: channel_inv_def recent_pointer_def recent_events_def latest_target_def sorted last_target_def
        last_map pointer_event_def)
  have nth: "pa_sequence (?as ! i) = i + 1"
    "pa_previous_revision (?as ! i) = (if i = 0 then None else pa_target_revision (?as ! (i - 1)))" if "i < ?n" for i
    using chained_nth [of None 0 "recent_events db" i] assms(1) that
    by (simp_all add: channel_inv_def recent_events_def pointer_event_def)
  have link: "\<not> (pa_sequence a = 1 \<and> pa_previous_revision a \<noteq> None)
      \<and> (pa_sequence a > 1 \<longrightarrow> list_ex (\<lambda>b. pa_sequence b = pa_sequence a - 1) ?as
         \<and> list_all (\<lambda>b. pa_sequence b = pa_sequence a - 1 \<longrightarrow> pa_previous_revision a = pa_target_revision b) ?as)"
    if a: "a \<in> set ?as" for a
  proof -
    obtain i where i: "i < ?n" "a = ?as ! i" using a by (metis in_set_conv_nth)
    have only: "b = ?as ! (i - 1)" if "b \<in> set ?as" "pa_sequence b = pa_sequence a - 1" "0 < i" for b
    proof -
      obtain j where j: "j < ?n" "b = ?as ! j" using \<open>b \<in> set ?as\<close> by (metis in_set_conv_nth)
      then have "j = i - 1" using nth(1) [of j] nth(1) [of i] i that by simp
      then show ?thesis using j(2) by simp
    qed
    have "list_ex (\<lambda>b. pa_sequence b = pa_sequence a - 1) ?as" if "0 < i"
      using nth(1) [of "i - 1"] nth(1) [of i] i that
      by (auto simp: list_ex_iff intro!: bexI [of _ "?as ! (i - 1)"])
    moreover have "list_all (\<lambda>b. pa_sequence b = pa_sequence a - 1 \<longrightarrow> pa_previous_revision a = pa_target_revision b) ?as"
      if "0 < i"
      using only nth(2) [of i] i that by (auto simp: list_all_iff)
    ultimately show ?thesis using nth [of i] i by auto
  qed
  show ?thesis
    using False c max link by (simp add: channel_state_consistent_def assms(2) Let_def list_all_iff del: set_map)
qed

section \<open>One transition\<close>

text \<open>What the columns of the event still have to satisfy once the service's checks have passed.\<close>

definition evidence_valid :: "(user \<Rightarrow> bool) \<Rightarrow> user \<Rightarrow> nat \<Rightarrow> transition_arguments \<Rightarrow> bool" where
  "evidence_valid users publisher version t \<longleftrightarrow> users publisher \<and> big_field (version + 1)
     \<and> length (ta_reason_code t) \<le> 64 \<and> upper_code (ta_reason_code t)
     \<and> SHA256_PATTERN (ta_acceptance_evidence_sha256 t)"

definition record_transition :: "publication_activation \<Rightarrow> 'a publication_db_scheme \<Rightarrow> 'a publication_db_scheme" where
  "record_transition a db = db\<lparr>db_activations := db_activations db @ [a],
     db_channel := Some \<lparr>ch_current_revision = pa_target_revision a, ch_version = pa_sequence a\<rparr>\<rparr>"

lemma check_transition_Inr:
  assumes "check_transition channel version t db = Inr operation"
  shows "ch_version channel = version" and "ch_current_revision channel = ta_expected_current_revision t"
    and "ta_operation t = Some operation" and "ta_target_revision t \<noteq> ch_current_revision channel"
    and "operation = WITHDRAW \<longleftrightarrow> ta_target_revision t = None"
    and "ta_target_revision t = Some k \<Longrightarrow> target_approved k db"
    and "ta_target_revision t = Some k \<Longrightarrow> operation = ROLLBACK \<Longrightarrow> was_current k version (db_activations db)"
  using assms
  by (auto simp: check_transition_def require_eq_Inr of_option_eq_Inr elim!: ebind_InrE split: if_split_asm option.split_asm)

lemma upper_code_nonempty: "upper_code s \<Longrightarrow> s \<noteq> []"
  by (auto simp: upper_code_def)

lemma target_approved_exists: "target_approved k db \<Longrightarrow> revision_exists (Some k) db"
  using get_row_Some [of pv_id k "db_revisions db"]
  by (auto simp: target_approved_def revision_exists_iff split: option.split_asm)

lemma transition_event_accepted:
  fixes publisher :: user and now :: instant
  assumes "channel_inv db" and "get_row pa_id k (db_activations db) = None"
    and C: "check_transition \<lparr>ch_current_revision = snd (recent_pointer db), ch_version = fst (recent_pointer db)\<rparr>
        version t (with_channel db) = Inr operation"
  defines "a \<equiv> activation_row k operation version publisher now t"
  shows "activation_fields a \<and> users (pa_publisher a) \<and> db_channel (with_channel db) \<noteq> None
      \<and> revision_exists (pa_previous_revision a) (with_channel db)
      \<and> revision_exists (pa_target_revision a) (with_channel db)
      \<and> activation_unique a (db_activations (with_channel db)) \<and> activation_constraints a
    \<longleftrightarrow> evidence_valid users publisher version t"
    and "activation_trigger (Some k) a (with_channel db)"
proof -
  note T = check_transition_Inr [OF C]
  have n: "version = length (db_activations db)"
    using assms(1) T(1) by (simp add: channel_inv_def recent_events_def)
  have prev: "revision_exists (ta_expected_current_revision t) (with_channel db)"
    using current_exists [OF assms(1)] T(2) by (simp add: revision_exists_iff)
  have target: "revision_exists (ta_target_revision t) (with_channel db)"
  proof (cases "ta_target_revision t")
    case (Some i)
    then show ?thesis using target_approved_exists [OF T(6) [OF Some]] by simp
  qed (simp add: revision_exists_def)
  have "version + 1 \<notin> set (map pa_sequence (db_activations db))"
    unfolding recent_sequences [OF assms(1)] n by simp
  then have unique: "activation_unique a (db_activations (with_channel db))"
    using assms(2) by (simp add: activation_unique_def a_def activation_row_def get_row_None)
  show "activation_fields a \<and> users (pa_publisher a) \<and> db_channel (with_channel db) \<noteq> None
      \<and> revision_exists (pa_previous_revision a) (with_channel db)
      \<and> revision_exists (pa_target_revision a) (with_channel db)
      \<and> activation_unique a (db_activations (with_channel db)) \<and> activation_constraints a
    \<longleftrightarrow> evidence_valid users publisher version t"
    using unique prev target T(5) upper_code_nonempty [of "ta_reason_code t"]
      SHA256_PATTERN_length [of "ta_acceptance_evidence_sha256 t"]
    by (auto simp: evidence_valid_def activation_fields_def activation_constraints_def a_def activation_row_def
        char_field_def code_validator_def dollar_def)
  have "list_ex (\<lambda>x. pa_sequence x < version + 1 \<and> pa_operation x \<in> {ACTIVATE, ROLLBACK}
      \<and> pa_target_revision x = Some i) (db_activations db)"
    if "ta_target_revision t = Some i" "operation = ROLLBACK" for i
    using T(7) [OF that] by (simp add: was_current_def less_Suc_eq_le)
  then show "activation_trigger (Some k) a (with_channel db)"
    using T
    by (cases "ta_expected_current_revision t")
       (auto simp: activation_trigger_def a_def activation_row_def split: option.split)
qed

lemma channel_inv_record:
  assumes "channel_inv db" and "pa_sequence a = fst (recent_pointer db) + 1"
    and "pa_previous_revision a = snd (recent_pointer db)" and "pa_target_revision a \<noteq> snd (recent_pointer db)"
    and "revision_exists (pa_target_revision a) db"
  shows "channel_inv (record_transition a (with_channel db))"
  using assms
  by (auto simp: channel_inv_def record_transition_def recent_events_def recent_pointer_def pointer_event_def
      revision_exists_iff list_all_iff with_channel_def)

text \<open>
  From a consistent state the database never refuses what the service lets through: the answer is
  decided by the service's own checks and the columns of the event.
\<close>

lemma transition_outcome:
  assumes "channel_inv db"
  shows "transition_recent_publication users now actor t db =
    (case (authorized ''grocery.publish_publication'' actor, ta_operation_id t, ta_expected_version t) of
       (None, _, _) \<Rightarrow> Inl (PermissionDenied ''An active publisher with publish_publication permission is required.'')
     | (Some p, None, _) \<Rightarrow> Inl (ValidationError ''Publication operation ID must be a UUID.'')
     | (Some p, Some k, v) \<Rightarrow>
         (if v = None \<or> the v < 0
          then Inl (ValidationError ''Expected publication version must be a non-negative integer.'')
          else let n = nat (the v) in
            (case get_row pa_id k (db_activations db) of
               Some a \<Rightarrow> if same_activation p n t a then Inr (a, False, with_channel db)
                 else Inl (ValidationError ''Publication operation UUID conflicts with stored evidence.'')
             | None \<Rightarrow>
                 ebind (check_transition \<lparr>ch_current_revision = snd (recent_pointer db),
                          ch_version = fst (recent_pointer db)\<rparr> n t (with_channel db)) (\<lambda>operation.
                 let a = activation_row k operation n p now t in
                 if evidence_valid users p n t then Inr (a, True, record_transition a (with_channel db))
                 else Inl (FullClean ''PublicationActivation'')))))"
proof (cases "authorized ''grocery.publish_publication'' actor")
  case (Some p)
  show ?thesis
  proof (cases "ta_operation_id t")
    case k: (Some k)
    show ?thesis
    proof (cases "ta_expected_version t = None \<or> the (ta_expected_version t) < 0")
      case False
      then obtain i where v: "ta_expected_version t = Some i" "0 \<le> i" by (cases "ta_expected_version t") auto
      let ?n = "nat i" and ?c = "\<lparr>ch_current_revision = snd (recent_pointer db), ch_version = fst (recent_pointer db)\<rparr>"
      have inv1: "channel_inv (with_channel db)"
        using assms by (simp add: channel_inv_def revision_exists_iff)
      have com: "commit b (with_channel db) = Inr ()" for b
        using channel_inv_consistent [OF inv1] by (simp add: commit_def require_def)
      show ?thesis
      proof (cases "get_row pa_id k (db_activations db)")
        case (Some a)
        then show ?thesis
          using \<open>authorized _ actor = Some p\<close> k v com
          by (simp add: transition_recent_publication_def bootstrap_with_channel require_def)
      next
        case None
        show ?thesis
        proof (cases "check_transition ?c ?n t (with_channel db)")
          case (Inl e)
          then show ?thesis
            using \<open>authorized _ actor = Some p\<close> k v None
            by (simp add: transition_recent_publication_def bootstrap_with_channel)
        next
          case (Inr operation)
          let ?a = "activation_row k operation ?n p now t"
          let ?db2 = "(with_channel db)\<lparr>db_activations := db_activations db @ [?a]\<rparr>"
          note A = transition_event_accepted [OF assms None Inr, where publisher = p and now = now]
          note T = check_transition_Inr [OF Inr]
          have row: "pa_sequence ?a = ?n + 1" "pa_previous_revision ?a = ta_expected_current_revision t"
            "pa_target_revision ?a = ta_target_revision t" "pa_id ?a = k"
            by (simp_all add: activation_row_def)
          have saved: "save_activation users (Some k) True True ?a (with_channel db)
              = (if evidence_valid users p ?n t then Inr ?db2 else Inl (FullClean ''PublicationActivation''))"
            unfolding save_activation_def A(1) using A(2) by (simp add: require_def)
          show ?thesis
          proof (cases "evidence_valid users p ?n t")
            case True
            have target: "revision_exists (ta_target_revision t) (with_channel db)"
              using A(1) [of users] True row(3) by simp
            have guard: "channel_update_guard (Some k) ?c \<lparr>ch_current_revision = ta_target_revision t, ch_version = ?n + 1\<rparr> ?db2"
              using T(1,2) row by (simp add: channel_update_guard_def)
            have con: "channel_constraints \<lparr>ch_current_revision = ta_target_revision t, ch_version = ?n + 1\<rparr>"
              using True by (simp add: channel_constraints_def evidence_valid_def)
            have moved: "update_recent_publication_pointer (Some k) (ta_expected_current_revision t) ?n (ta_target_revision t) ?db2
                = Inr (1, record_transition ?a (with_channel db))"
              using T(1,2) guard con target row
              by (simp add: update_recent_publication_pointer_def record_transition_def Let_def revision_exists_iff)
            have inv3: "channel_inv (record_transition ?a (with_channel db))"
              using T(1,2,4) row target by (intro channel_inv_record [OF assms]) (simp_all add: revision_exists_iff)
            have "commit True (record_transition ?a (with_channel db)) = Inr ()"
              using channel_inv_consistent [OF inv3] by (simp add: commit_def require_def record_transition_def)
            then show ?thesis
              using \<open>authorized _ actor = Some p\<close> k v None Inr saved moved True
              by (simp add: transition_recent_publication_def bootstrap_with_channel Let_def)
          next
            case False
            then show ?thesis
              using \<open>authorized _ actor = Some p\<close> k v None Inr saved
              by (simp add: transition_recent_publication_def bootstrap_with_channel Let_def)
          qed
        qed
      qed
    next
      case True
      then show ?thesis
        using Some k by (auto simp: transition_recent_publication_def split: option.split)
    qed
  next
    case None
    then show ?thesis using Some by (simp add: transition_recent_publication_def)
  qed
qed (simp add: transition_recent_publication_def)

end
