(* ===== verification/Publication_System.thy ===== *)
theory Publication_System
  imports Publication_Seal Activation_Machine
begin

text \<open>
  The whole recent side as a step relation: acquisitions and parse generations as before, reviews,
  seals and pointer transitions. Its invariant says that every publication is the fact set of an
  approved generation and that the pointer is the latest target of a contiguous history.
\<close>

section \<open>Steps\<close>

inductive publication_step ::
    "generation_module \<Rightarrow> (user \<Rightarrow> bool) \<Rightarrow> publication_db \<Rightarrow> publication_db \<Rightarrow> bool" for m users where
  facts: "price_step m (price_db.truncate db) p \<Longrightarrow>
      publication_step m users db (price_db.extend p (price_db.more db))"
| review: "record_review_decision users now k actor a db = Inr (r, created, db') \<Longrightarrow> publication_step m users db db'"
| seal: "seal_recent_publication ids created sealed k copy_revision db = Inr (v, db') \<Longrightarrow>
      publication_step m users db db'"
| transition: "transition_recent_publication users now actor t db = Inr (e, created, db') \<Longrightarrow>
      publication_step m users db db'"

inductive_cases publication_stepE: "publication_step m users db db'"

definition empty_publication_db :: publication_db where
  "empty_publication_db = price_db.extend empty_price_db
     \<lparr>db_reviews = [], db_revisions = [], db_entries = [], db_channel = None, db_activations = []\<rparr>"

definition publication_reachable :: "generation_module \<Rightarrow> (user \<Rightarrow> bool) \<Rightarrow> publication_db \<Rightarrow> bool" where
  "publication_reachable m users db \<longleftrightarrow> (publication_step m users)\<^sup>*\<^sup>* empty_publication_db db"

section \<open>The invariant\<close>

definition revisions_inv :: "'a seal_db_scheme \<Rightarrow> bool" where
  "revisions_inv db \<longleftrightarrow> distinct (map pv_id (db_revisions db))
     \<and> list_all (revision_published db) (db_revisions db) \<and> entries_linked db"

definition publication_inv :: "publication_db \<Rightarrow> bool" where
  "publication_inv db \<longleftrightarrow> system_inv (price_db.truncate db) \<and> review_inv db \<and> revisions_inv db \<and> channel_inv db"

section \<open>The tables below\<close>

lemma truncate_price_tables [simp]:
  "db_sources (price_db.truncate db) = db_sources db" "db_corrections (price_db.truncate db) = db_corrections db"
  "db_artifacts (price_db.truncate db) = db_artifacts db" "db_attempts (price_db.truncate db) = db_attempts db"
  "db_receipts (price_db.truncate db) = db_receipts db" "db_runs (price_db.truncate db) = db_runs db"
  "db_series (price_db.truncate db) = db_series db" "db_snapshots (price_db.truncate db) = db_snapshots db"
  "db_references (price_db.truncate db) = db_references db" "db_changes (price_db.truncate db) = db_changes db"
  by (simp_all add: price_db.defs)

lemma extend_price_tables [simp]:
  "db_reviews (price_db.extend p (price_db.more db)) = db_reviews db"
  "db_revisions (price_db.extend p (price_db.more db)) = db_revisions db"
  "db_entries (price_db.extend p (price_db.more db)) = db_entries db"
  "db_channel (price_db.extend p (price_db.more db)) = db_channel db"
  "db_activations (price_db.extend p (price_db.more db)) = db_activations db"
  "db_runs (price_db.extend p (price_db.more db)) = db_runs p"
  "db_series (price_db.extend p (price_db.more db)) = db_series p"
  "db_snapshots (price_db.extend p (price_db.more db)) = db_snapshots p"
  "db_references (price_db.extend p (price_db.more db)) = db_references p"
  "db_changes (price_db.extend p (price_db.more db)) = db_changes p"
  "price_db.truncate (price_db.extend p (price_db.more db)) = p"
  for db :: publication_db
  by (cases db, cases p, simp add: price_db.defs)+

lemma price_inv_truncate [simp]: "price_inv (price_db.truncate db) = price_inv db"
proof -
  have e: "expected_fields r (price_db.truncate db) = expected_fields r db" for r
    by (simp add: expected_fields_def references_of_def cong: option.case_cong)
  have "change_recalculates (price_db.truncate db) c = change_recalculates db c" for c
    unfolding change_recalculates_def e by (simp cong: option.case_cong)
  then show ?thesis by (simp add: price_inv_def price_keys_def price_links_def list_all_iff)
qed

lemma run_facts_truncate [simp]:
  "run_pairs k (price_db.truncate db) = run_pairs k db" "run_references k (price_db.truncate db) = run_references k db"
  "run_changes k (price_db.truncate db) = run_changes k db"
  by (simp_all add: run_pairs_def run_references_def run_changes_def snapshot_series_def cong: if_cong option.case_cong)

lemma publication_price_inv: "publication_inv db \<Longrightarrow> price_inv db"
  by (simp add: publication_inv_def system_inv_def)

section \<open>Facts grow, what rests on them stays\<close>

definition facts_grow :: "'a price_db_scheme \<Rightarrow> 'a price_db_scheme \<Rightarrow> bool" where
  "facts_grow db db' \<longleftrightarrow> price_inv db \<and> price_inv db' \<and> keeps_facts db db'
     \<and> (\<forall>k. run_validated (db_runs db) k \<longrightarrow> same_run_facts k db db')"

lemma run_validated_row: "get_row run_id k runs = Some r \<Longrightarrow> run_status r = RUN_VALIDATED \<Longrightarrow> run_validated runs k"
  by (simp add: run_validated_def)

lemma facts_grow_run:
  assumes "facts_grow db db'" and "get_row run_id k (db_runs db) = Some r" and "run_status r = RUN_VALIDATED"
  shows "get_row run_id k (db_runs db') = Some r" and "same_run_facts k db db'"
    and "snapshots_of_run k db' = snapshots_of_run k db"
proof -
  show "get_row run_id k (db_runs db') = Some r" using assms by (simp add: facts_grow_def keeps_facts_def)
  show s: "same_run_facts k db db'" using assms run_validated_row [OF assms(2,3)] by (simp add: facts_grow_def)
  then show "snapshots_of_run k db' = snapshots_of_run k db"
    using run_pairs_snapshots(1) [of db k] run_pairs_snapshots(1) [of db' k] assms(1)
    by (simp add: facts_grow_def same_run_facts_def)
qed

lemma references_keep:
  assumes "facts_grow db db'" and "same_run_facts k db db'" and "snapshots_of_run k db' = snapshots_of_run k db"
    and "s \<in> set (snapshots_of_run k db)"
  shows "references_of (sn_id s) db' = references_of (sn_id s) db"
proof -
  have "s \<in> set (snapshots_of_run k db')" using assms(3,4) by simp
  then have "s \<in> set (db_snapshots db)" "s \<in> set (db_snapshots db')" "sn_parse_run s = k"
    using assms(4) by (simp_all add: snapshots_of_run_def)
  moreover have "price_keys db" "price_keys db'" using assms(1) by (simp_all add: facts_grow_def price_inv_def)
  ultimately show ?thesis
    using own_references [of db s k] own_references [of db' s k] assms(2) by (simp add: same_run_facts_def)
qed

lemma approval_backed_keeps:
  assumes "facts_grow db db'" and "approval_backed db r"
  shows "approval_backed db' r"
proof (cases "rd_decision r")
  case APPROVE
  then obtain run where r: "get_row run_id (rd_parse_run r) (db_runs db) = Some run" "run_status run = RUN_VALIDATED"
    "run_artifact run = rd_source_artifact r"
    "length (snapshots_of_run (rd_parse_run r) db) = run_accepted_row_count run"
    "eall (review_snapshot_clean db) (snapshots_of_run (rd_parse_run r) db) = Inr ()"
    using assms(2) by (auto simp: approval_backed_def)
  note g = facts_grow_run [OF assms(1) r(1,2)]
  have change: "has_change db' x" if "has_change db x" for x
  proof -
    have "set (db_changes db) \<subseteq> set (db_changes db')"
      using assms(1) by (auto simp: facts_grow_def keeps_facts_def prefix_def)
    then show ?thesis using that by (auto simp: has_change_def list_ex_iff)
  qed
  have "review_snapshot_clean db' s = Inr ()"
    if s: "s \<in> set (snapshots_of_run (rd_parse_run r) db)" "review_snapshot_clean db s = Inr ()" for s
    using s(2) change
    by (auto simp: review_snapshot_clean_def Let_def references_keep [OF assms(1) g(2,3) s(1)] ebind_eq_Inr require_eq_Inr
          list_all_iff)
  then show ?thesis using r g by (auto simp: approval_backed_def eall_eq_Inr)
next
  case REJECT
  then show ?thesis by (simp add: approval_backed_def)
qed

lemma coverage_keeps:
  assumes "keeps_facts db db'" and "coverage_approved d db s"
  shows "coverage_approved d db' s"
  using assms get_row_prefix [of "db_series db" "db_series db'" ser_id "sn_series s"]
  by (auto simp: coverage_approved_def snapshot_series_def keeps_facts_def split: option.split_asm)

lemma published_as_keeps:
  assumes "facts_grow db db'" and v: "published_as db v d facts run"
    and "get_row rd_id (pv_review_decision v) (db_reviews db') = Some d"
    and "entries_of (pv_id v) db' = entries_of (pv_id v) db"
  shows "published_as db' v d facts run"
proof -
  have r: "get_row run_id (pv_generation v) (db_runs db) = Some run" "run_status run = RUN_VALIDATED"
    using v by (simp_all add: published_as_def)
  note g = facts_grow_run [OF assms(1) r]
  have "build_publication_fact_set (snapshots_of_run (pv_generation v) db) db = Inr facts"
    using v by (simp add: published_as_def)
  then have b: "build_publication_fact_set (snapshots_of_run (pv_generation v) db') db' = Inr facts"
    using assms(1) fact_set_keeps [OF _ _ _ g(2), of facts] by (simp add: facts_grow_def)
  have "list_all (coverage_approved d db) (snapshots_of_run (pv_generation v) db)"
    using v by (simp add: published_as_def)
  moreover have "keeps_facts db db'" using assms(1) by (simp add: facts_grow_def)
  ultimately have c: "list_all (coverage_approved d db') (snapshots_of_run (pv_generation v) db')"
    by (simp add: g(3) list_all_iff coverage_keeps)
  have "map stored_entry (entries_in_order (pv_id v) db') = map stored_entry (entries_in_order (pv_id v) db)"
    by (simp add: entries_in_order_def assms(4))
  then show ?thesis
    using v b c g(1) assms(3) unfolding published_as_def by simp
qed

lemma revisions_inv_keeps:
  assumes "facts_grow db db'" and "revisions_inv db" and "db_revisions db' = db_revisions db" and "db_entries db' = db_entries db"
    and "prefix (db_reviews db) (db_reviews db')"
  shows "revisions_inv db'"
proof -
  have "revision_published db' v" if "v \<in> set (db_revisions db)" for v
  proof -
    obtain d facts run where p: "published_as db v d facts run"
      using assms(2) \<open>v \<in> set (db_revisions db)\<close> by (auto simp: revisions_inv_def revision_published_def list_all_iff)
    then have "get_row rd_id (pv_review_decision v) (db_reviews db) = Some d" by (simp add: published_as_def)
    then have "get_row rd_id (pv_review_decision v) (db_reviews db') = Some d" using assms(5) by (rule get_row_prefix [rotated])
    then have "published_as db' v d facts run"
      using assms(4) by (intro published_as_keeps [OF assms(1) p]) (simp_all add: entries_of_def)
    then show ?thesis by (auto simp: revision_published_def)
  qed
  then show ?thesis using assms(2-4) by (simp add: revisions_inv_def entries_linked_def list_all_iff)
qed

section \<open>Steps keep the invariant\<close>

lemma truncate_writes [simp]:
  "price_db.truncate (db\<lparr>db_reviews := rs\<rparr>) = price_db.truncate db"
  "price_db.truncate (db\<lparr>db_revisions := vs\<rparr>) = price_db.truncate db"
  "price_db.truncate (db\<lparr>db_entries := es\<rparr>) = price_db.truncate db"
  "price_db.truncate (db\<lparr>db_channel := c\<rparr>) = price_db.truncate db"
  "price_db.truncate (db\<lparr>db_activations := as\<rparr>) = price_db.truncate db"
  for db :: publication_db
  by (simp_all add: price_db.defs)

lemma truncate_same:
  assumes "price_db.truncate db' = price_db.truncate db"
  shows "db_runs db' = db_runs db" "db_series db' = db_series db" "db_snapshots db' = db_snapshots db"
    "db_references db' = db_references db" "db_changes db' = db_changes db" "price_inv db' = price_inv db"
  using arg_cong [OF assms, of db_runs] arg_cong [OF assms, of db_series] arg_cong [OF assms, of db_snapshots]
    arg_cong [OF assms, of db_references] arg_cong [OF assms, of db_changes] arg_cong [OF assms, of price_inv]
  by simp_all

lemma facts_same:
  assumes "price_inv db" and "price_db.truncate db' = price_db.truncate db"
  shows "facts_grow db db'"
proof -
  note t = truncate_same [OF assms(2)]
  have "run_pairs k db' = run_pairs k db" "run_references k db' = run_references k db" "run_changes k db' = run_changes k db" for k
    using arg_cong [OF assms(2), of "run_pairs k"] arg_cong [OF assms(2), of "run_references k"]
      arg_cong [OF assms(2), of "run_changes k"] by simp_all
  then show ?thesis using assms(1) t by (simp add: facts_grow_def keeps_facts_def same_run_facts_def)
qed

lemma facts_extended:
  assumes "price_step m (price_db.truncate db) p" and "publication_inv db"
  shows "facts_grow db (price_db.extend p (price_db.more db))" and "system_inv p"
proof -
  let ?db' = "price_db.extend p (price_db.more db)"
  have p: "system_inv p" "keeps_facts (price_db.truncate db) p"
    "\<And>k. run_validated (db_runs db) k \<Longrightarrow> same_run_facts k (price_db.truncate db) p"
    using price_step_keeps [OF assms(1)] assms(2) by (simp_all add: publication_inv_def)
  show "system_inv p" by (rule p(1))
  have t: "run_pairs k ?db' = run_pairs k p" "run_references k ?db' = run_references k p" "run_changes k ?db' = run_changes k p" for k
    using run_facts_truncate [of k ?db'] by simp_all
  have "price_inv ?db'" using price_inv_truncate [of ?db'] p(1) by (simp add: system_inv_def)
  then show "facts_grow db ?db'"
    using p publication_price_inv [OF assms(2)]
    by (simp add: facts_grow_def keeps_facts_def same_run_facts_def t)
qed

lemma review_inv_keeps:
  assumes "facts_grow db db'" and "db_reviews db' = db_reviews db" and "review_inv db"
  shows "review_inv db'"
  using assms(2,3) approval_backed_keeps [OF assms(1)]
  by (auto simp: review_inv_def review_history_def list_all_iff)

lemma channel_inv_keeps:
  assumes "db_channel db' = db_channel db" and "db_activations db' = db_activations db"
    and "pv_id ` set (db_revisions db) \<subseteq> pv_id ` set (db_revisions db')" and "channel_inv db"
  shows "channel_inv db'"
proof -
  have "recent_events db' = recent_events db" "recent_pointer db' = recent_pointer db"
    by (simp_all add: recent_events_def recent_pointer_def assms)
  then show ?thesis using assms(2-4) by (auto simp: channel_inv_def list_all_iff revision_exists_iff)
qed

lemma review_step_inv:
  assumes "publication_inv db" and "record_review_decision users now k actor a db = Inr (r, created, db')"
  shows "publication_inv db'" and "facts_grow db db'"
proof -
  note price = publication_price_inv [OF assms(1)]
  have "publication_inv db' \<and> facts_grow db db'"
    using assms(2)
  proof (cases rule: record_review_Inr)
    case replay
    then show ?thesis using assms(1) facts_same [OF price, of db] by simp
  next
    case new
    have db': "db' = db\<lparr>db_reviews := db_reviews db @ [r]\<rparr>" using save_review_Inr(2) [OF new(2)] .
    have g: "facts_grow db db'" by (rule facts_same [OF price]) (simp add: db')
    have "review_inv db'" using save_review_inv [OF new(2)] assms(1) by (simp add: publication_inv_def)
    moreover have "revisions_inv db'"
      using assms(1) by (intro revisions_inv_keeps [OF g]) (simp_all add: publication_inv_def db')
    moreover have "channel_inv db'"
      using assms(1) by (intro channel_inv_keeps [of db' db]) (simp_all add: publication_inv_def db')
    ultimately show ?thesis using g assms(1) by (simp add: publication_inv_def db')
  qed
  then show "publication_inv db'" "facts_grow db db'" by simp_all
qed

lemma seal_step_inv:
  assumes "publication_inv db" and "seal_recent_publication ids created sealed k copy_revision db = Inr (v, db')"
  shows "publication_inv db'" and "facts_grow db db'" and "v \<in> set (db_revisions db')"
proof -
  note price = publication_price_inv [OF assms(1)]
  obtain d source run facts where S: "sealable k db d source run facts" using seal_Inr [OF assms(2)] .
  have "publication_inv db' \<and> facts_grow db db' \<and> v \<in> set (db_revisions db')"
    using S assms(2)
  proof (cases rule: seal_Inr_cases)
    case replay
    then show ?thesis using assms(1) facts_same [OF price, of db] find_Some_member [OF replay(2)] by simp
  next
    case new
    let ?c = "publication_candidate (ids 0) created d run facts copy_revision"
    have vid: "pv_id v = pv_id ?c" using new(1) by simp
    have g: "facts_grow db db'" by (rule facts_same [OF price]) (simp add: new(4))
    have R: "revisions_inv db" using assms(1) by (simp add: publication_inv_def)
    have fresh: "v \<notin> set (db_revisions db)" using new(2) vid by (metis imageI)
    have "published_as db' v d facts run"
      using R by (intro seal_published [OF price _ S assms(2) fresh]) (simp add: revisions_inv_def)
    then have pub: "revision_published db' v" by (auto simp: revision_published_def)
    have old: "revision_published db' w" if w: "w \<in> set (db_revisions db)" for w
    proof -
      have "pv_id w \<noteq> pv_id ?c" using new(2) w by (metis imageI)
      then have "entries_of (pv_id w) db' = entries_of (pv_id w) db" by (simp add: entries_of_def new(4))
      then have "published_as db' w = published_as db w" by (intro published_as_cong) (simp_all add: new(4))
      moreover have "revision_published db w" using R w by (simp add: revisions_inv_def list_all_iff)
      ultimately show ?thesis by (simp add: revision_published_def)
    qed
    have tables: "db_revisions db' = db_revisions db @ [v]"
      "db_entries db' = db_entries db @ map (sealed_entry ids (pv_id ?c)) (fs_entries facts)"
      by (simp_all add: new(4))
    have "list_all (revision_published db') (db_revisions db')" using pub old by (simp add: tables list_all_iff)
    moreover have "entries_linked db'"
      using R vid by (auto simp: revisions_inv_def entries_linked_def tables list_all_iff)
    moreover have "distinct (map pv_id (db_revisions db'))" using R new(2) vid by (simp add: revisions_inv_def tables)
    ultimately have "revisions_inv db'" by (simp add: revisions_inv_def)
    moreover have "review_inv db'"
      using assms(1) by (intro review_inv_keeps [OF g]) (simp_all add: publication_inv_def new(4))
    moreover have "channel_inv db'"
      using assms(1) by (intro channel_inv_keeps [of db' db]) (auto simp: publication_inv_def new(4))
    ultimately show ?thesis using g assms(1) tables by (simp add: publication_inv_def new(4))
  qed
  then show "publication_inv db'" "facts_grow db db'" "v \<in> set (db_revisions db')" by simp_all
qed

text \<open>A transition that is not a replay moves the pointer by one event; a replay creates at most the empty channel.\<close>

lemma transition_Inr:
  assumes "channel_inv db" and "transition_recent_publication users now actor t db = Inr (a, created, db')"
  obtains (replay) "\<not> created" "db' = with_channel db" "a \<in> set (db_activations db)"
  | (new) "created" "db' = record_transition a (with_channel db)" "pa_sequence a = fst (recent_pointer db) + 1"
      "pa_previous_revision a = snd (recent_pointer db)" "pa_target_revision a \<noteq> snd (recent_pointer db)"
      "\<And>k. pa_target_revision a = Some k \<Longrightarrow> target_approved k db"
proof -
  have approved: "target_approved k (with_channel db) = target_approved k db" for k
    by (simp add: target_approved_def cong: option.case_cong)
  obtain p k i where p: "authorized ''grocery.publish_publication'' actor = Some p" "ta_operation_id t = Some k"
    "ta_expected_version t = Some i" "\<not> i < 0"
    using assms(2) unfolding transition_outcome [OF assms(1)]
    by (auto split: option.split_asm if_split_asm)
  show ?thesis
  proof (cases "get_row pa_id k (db_activations db)")
    case (Some e)
    then show ?thesis
      using assms(2) p get_row_Some [OF Some] unfolding transition_outcome [OF assms(1)]
      by (intro replay) (auto simp: Let_def split: if_split_asm)
  next
    case None
    then obtain operation where c: "check_transition \<lparr>ch_current_revision = snd (recent_pointer db),
        ch_version = fst (recent_pointer db)\<rparr> (nat i) t (with_channel db) = Inr operation"
      and a: "a = activation_row k operation (nat i) p now t" "created" "db' = record_transition a (with_channel db)"
      using assms(2) p unfolding transition_outcome [OF assms(1)]
      by (auto simp: Let_def elim!: ebind_InrE split: if_split_asm)
    note T = check_transition_Inr [OF c]
    show ?thesis
      using a T(1-4) T(6) by (intro new) (auto simp: activation_row_def approved)
  qed
qed

lemma transition_step_inv:
  assumes "publication_inv db" and "transition_recent_publication users now actor t db = Inr (a, created, db')"
  shows "publication_inv db'" and "facts_grow db db'"
proof -
  note price = publication_price_inv [OF assms(1)]
  have chan: "channel_inv db" using assms(1) by (simp add: publication_inv_def)
  have inv1: "channel_inv (with_channel db)"
    using chan by (simp add: channel_inv_def list_all_iff revision_exists_iff)
  have tables: "db_reviews db' = db_reviews db \<and> db_revisions db' = db_revisions db \<and> db_entries db' = db_entries db
      \<and> price_db.truncate db' = price_db.truncate db \<and> channel_inv db'"
    using chan assms(2)
  proof (cases rule: transition_Inr)
    case replay
    then show ?thesis using inv1 by (simp add: with_channel_def)
  next
    case new
    have "revision_exists (pa_target_revision a) db"
      using new(6) target_approved_exists by (cases "pa_target_revision a") (auto simp: revision_exists_def)
    then have "channel_inv db'" using channel_inv_record [OF chan new(3-5)] new(2) by simp
    then show ?thesis using new(2) by (simp add: record_transition_def with_channel_def)
  qed
  have g: "facts_grow db db'" by (rule facts_same [OF price]) (simp add: tables)
  have "review_inv db'" "revisions_inv db'"
    using assms(1) tables by (auto simp: publication_inv_def intro: review_inv_keeps [OF g] revisions_inv_keeps [OF g])
  then show "publication_inv db'" "facts_grow db db'" using assms(1) g tables by (simp_all add: publication_inv_def)
qed

lemma publication_step_inv:
  assumes "publication_step m users db db'" and "publication_inv db"
  shows "publication_inv db'" and "facts_grow db db'"
proof -
  have "publication_inv db' \<and> facts_grow db db'"
    using assms(1)
  proof (cases rule: publication_step.cases)
    case (facts p)
    note g = facts_extended [OF facts(2) assms(2), folded facts(1)]
    have "review_inv db'" "revisions_inv db'" "channel_inv db'"
      using assms(2) review_inv_keeps [OF g(1)] revisions_inv_keeps [OF g(1)] channel_inv_keeps [of db' db]
      by (simp_all add: publication_inv_def facts(1))
    then show ?thesis using g by (simp add: publication_inv_def facts(1))
  next
    case review
    then show ?thesis using review_step_inv [OF assms(2)] by simp
  next
    case seal
    then show ?thesis using seal_step_inv [OF assms(2)] by simp
  next
    case transition
    then show ?thesis using transition_step_inv [OF assms(2)] by simp
  qed
  then show "publication_inv db'" "facts_grow db db'" by simp_all
qed

lemma empty_publication_inv: "publication_inv empty_publication_db"
proof -
  have "price_db.truncate empty_publication_db = empty_price_db"
    by (simp add: empty_publication_db_def price_db.defs empty_price_db_def fetch_db.defs)
  then have "system_inv (price_db.truncate empty_publication_db)" using empty_system_inv by simp
  then show ?thesis
    unfolding publication_inv_def
    by (simp add: empty_publication_db_def review_inv_def review_history_def revisions_inv_def
        entries_linked_def channel_inv_def recent_events_def recent_pointer_def price_db.defs)
qed

section \<open>A growing system\<close>

definition publication_grows :: "publication_db \<Rightarrow> publication_db \<Rightarrow> bool" where
  "publication_grows db db' \<longleftrightarrow> facts_grow db db' \<and> prefix (db_reviews db) (db_reviews db')
     \<and> prefix (db_revisions db) (db_revisions db') \<and> prefix (db_activations db) (db_activations db')
     \<and> (db_channel db \<noteq> None \<longrightarrow> db_channel db' \<noteq> None)"

lemma facts_grow_trans: "facts_grow a b \<Longrightarrow> facts_grow b c \<Longrightarrow> facts_grow a c"
  using keeps_facts_trans [of a b c] run_validated_keeps [of a b] by (auto simp: facts_grow_def same_run_facts_def)

lemma publication_step_grows:
  assumes "publication_inv db" and "publication_step m users db db'"
  shows "publication_grows db db'"
proof -
  have "prefix (db_reviews db) (db_reviews db') \<and> prefix (db_revisions db) (db_revisions db')
      \<and> prefix (db_activations db) (db_activations db') \<and> (db_channel db \<noteq> None \<longrightarrow> db_channel db' \<noteq> None)"
    using assms(2)
  proof (cases rule: publication_step.cases)
    case (review now k actor a r created)
    then show ?thesis
    proof (cases rule: record_review_Inr)
      case new
      show ?thesis unfolding save_review_Inr(2) [OF new(2)] by simp
    qed simp
  next
    case (seal ids created sealed k copy_revision v)
    obtain d source run facts where S: "sealable k db d source run facts" using seal_Inr [OF seal] .
    show ?thesis using S seal by (cases rule: seal_Inr_cases) simp_all
  next
    case (transition now actor t a created)
    have chan: "channel_inv db" using assms(1) by (simp add: publication_inv_def)
    show ?thesis
      using chan transition by (cases rule: transition_Inr) (simp_all add: record_transition_def with_channel_def)
  qed simp
  then show ?thesis using publication_step_inv(2) [OF assms(2,1)] by (simp add: publication_grows_def)
qed

interpretation recent_side: started_system publication_inv "publication_step m users" publication_grows
  empty_publication_db for m users
proof
  fix s s'
  assume inv: "publication_inv s"
  show "publication_grows s s" using facts_same [OF publication_price_inv [OF inv]] by (simp add: publication_grows_def)
  show "publication_inv s'" "publication_grows s s'" if "publication_step m users s s'"
    using publication_step_inv(1) [OF that inv] publication_step_grows [OF inv that] by simp_all
next
  show "publication_grows a c" if "publication_grows a b" "publication_grows b c" for a b c
    using that facts_grow_trans [of a b c] by (auto simp: publication_grows_def dest: prefix_order.trans)
qed (rule empty_publication_inv)

lemma publication_reachable_inv: "publication_reachable m users db \<Longrightarrow> publication_inv db"
  using recent_side.reachable_inv by (simp add: publication_reachable_def)

end
