(* ===== verification/Publication_Theorems.thy ===== *)
theory Publication_Theorems
  imports Publication_System
begin

text \<open>
  What holds of the recent side as a whole: the published revision is an approved fact set, the
  reviews of a generation form a history, seals replay, and the channel is a guarded pointer.
\<close>

section \<open>The recent channel is a guarded pointer\<close>

definition recent_move :: "(user \<Rightarrow> bool) \<Rightarrow> uuid option \<Rightarrow> publication_db \<Rightarrow> publication_db \<Rightarrow> bool" where
  "recent_move users target db db' \<longleftrightarrow>
     (\<exists>now actor t a. transition_recent_publication users now actor t db = Inr (a, True, db') \<and> pa_target_revision a = target)"

definition recent_other :: "generation_module \<Rightarrow> (user \<Rightarrow> bool) \<Rightarrow> publication_db \<Rightarrow> publication_db \<Rightarrow> bool" where
  "recent_other m users db db' \<longleftrightarrow> publication_step m users db db'
     \<and> ((\<exists>p. db' = price_db.extend p (price_db.more db))
        \<or> (\<exists>now k actor a r created. record_review_decision users now k actor a db = Inr (r, created, db'))
        \<or> (\<exists>ids created sealed k copy_revision v. seal_recent_publication ids created sealed k copy_revision db = Inr (v, db'))
        \<or> (\<exists>now actor t a. transition_recent_publication users now actor t db = Inr (a, False, db')))"

lemma publication_step_split:
  "publication_step m users db db' \<longleftrightarrow> (\<exists>t. recent_move users t db db') \<or> recent_other m users db db'"
proof
  assume step: "publication_step m users db db'"
  then show "(\<exists>t. recent_move users t db db') \<or> recent_other m users db db'"
  proof (cases rule: publication_step.cases)
    case (transition now actor t a created)
    then show ?thesis using step by (cases created) (auto simp: recent_move_def recent_other_def)
  qed (use step in \<open>auto simp: recent_other_def\<close>)
next
  assume "(\<exists>t. recent_move users t db db') \<or> recent_other m users db db'"
  then show "publication_step m users db db'"
    by (auto simp: recent_move_def recent_other_def intro: publication_step.transition)
qed

lemma record_transition_events:
  "recent_events (record_transition a (with_channel db)) = recent_events db @ [pointer_event a]"
  by (simp add: record_transition_def recent_events_def)

lemma record_transition_pointer:
  "recent_pointer (record_transition a db) = (pa_sequence a, pa_target_revision a)"
  by (simp add: record_transition_def recent_pointer_def)

lemma recent_other_events:
  assumes "publication_inv db" and "recent_other m users db db'"
  shows "recent_events db' = recent_events db"
proof -
  have chan: "channel_inv db" using assms(1) by (simp add: publication_inv_def)
  consider p where "db' = price_db.extend p (price_db.more db)"
    | now k actor a r created where "record_review_decision users now k actor a db = Inr (r, created, db')"
    | ids created sealed k copy_revision v where
        "seal_recent_publication ids created sealed k copy_revision db = Inr (v, db')"
    | now actor t a where "transition_recent_publication users now actor t db = Inr (a, False, db')"
    using assms(2) unfolding recent_other_def by blast
  then show ?thesis
  proof cases
    case 2
    then show ?thesis
    proof (cases rule: record_review_Inr)
      case new
      show ?thesis unfolding save_review_Inr(2) [OF new(2)] by (simp add: recent_events_def)
    qed simp
  next
    case 3
    then obtain d source run facts where S: "sealable k db d source run facts" using seal_Inr by blast
    show ?thesis using S 3 by (cases rule: seal_Inr_cases) (simp_all add: recent_events_def)
  next
    case 4
    then show ?thesis using chan by (cases rule: transition_Inr [OF chan 4]) simp_all
  qed (simp add: recent_events_def)
qed

interpretation recent: guarded_pointer publication_inv recent_pointer recent_events
  "recent_move users" "recent_other m users" for m users
proof
  fix s t s'
  assume inv: "publication_inv s"
  then have chan: "channel_inv s" by (simp add: publication_inv_def)
  then show "chained None 0 (recent_events s)"
    "recent_pointer s = (length (recent_events s), last_target None (recent_events s))"
    by (simp_all add: channel_inv_def)
  show "publication_inv s'" if "recent_move users t s s'"
    using that transition_step_inv(1) [OF inv] by (auto simp: recent_move_def)
  show "publication_inv s'" if "recent_other m users s s'"
    using that publication_step_inv(1) [OF _ inv] by (auto simp: recent_other_def)
  show "recent_events s' = recent_events s @ [(Suc (fst (recent_pointer s)), snd (recent_pointer s), t)]"
    if move: "recent_move users t s s'"
  proof -
    obtain now actor ta a where a: "transition_recent_publication users now actor ta s = Inr (a, True, s')"
      "pa_target_revision a = t"
      using move by (auto simp: recent_move_def)
    show ?thesis
      using chan a(1) by (cases rule: transition_Inr) (simp_all add: record_transition_events pointer_event_def a(2))
  qed
  show "recent_events s' = recent_events s" if "recent_other m users s s'"
    by (rule recent_other_events [OF inv that])
qed

lemma recent_steps: "recent.step users m = publication_step m users"
  by (intro ext) (simp add: recent.step_def publication_step_split)

lemma get_row_key: "get_row f k rows = Some r \<Longrightarrow> k \<in> f ` set rows"
  using get_row_None [of f k rows] by auto

section \<open>Publication\<close>

text \<open>
  C31: In every reachable state the revision the recent channel points to is stored and sealed, its
  decision approved a validated generation of the parser revision it names, its entries, count,
  hash and dates are those of the canonical fact set computed anew from the stored facts of that
  generation, and the coverage of every snapshot is the approved one.
\<close>

theorem current_revision_is_reviewed:
  assumes "publication_reachable m users db" and "snd (recent_pointer db) = Some k"
  shows "\<exists>v d facts run. get_row pv_id k (db_revisions db) = Some v \<and> published_as db v d facts run"
proof -
  have inv: "publication_inv db" using assms(1) by (rule publication_reachable_inv)
  then have "revision_exists (Some k) db" using current_exists [of db] assms(2) by (simp add: publication_inv_def)
  then obtain v where v: "v \<in> set (db_revisions db)" "pv_id v = k" by (auto simp: revision_exists_iff)
  have R: "revisions_inv db" using inv by (simp add: publication_inv_def)
  then have "get_row pv_id k (db_revisions db) = Some v" using v get_row_member by (auto simp: revisions_inv_def)
  moreover have "revision_published db v" using R v(1) by (simp add: revisions_inv_def list_all_iff)
  ultimately show ?thesis by (auto simp: revision_published_def)
qed

text \<open>
  C32: A transition is decided by the service alone: in every reachable state it answers exactly
  what its own checks and the columns of the event say, and neither the insert trigger, nor the
  guards of the channel row, nor the deferred check at commit ever refuses the write.
\<close>

theorem transition_is_decided_by_the_service:
  assumes "publication_reachable m users db"
  shows "transition_recent_publication users now actor t db =
    (case (authorized ''grocery.publish_publication'' actor, ta_operation_id t, ta_expected_version t) of
       (None, _, _) \<Rightarrow> Inl (PermissionDenied ''An active publisher with publish_publication permission is required.'')
     | (Some p, None, _) \<Rightarrow> Inl (ValidationError ''Publication operation ID must be a UUID.'')
     | (Some p, Some k, v) \<Rightarrow>
         (if v = None \<or> the v < 0
          then Inl (ValidationError ''Expected publication version must be a non-negative integer.'')
          else let n = nat (the v) in
            (case get_row pa_id k (db_activations db) of
               Some a \<Rightarrow> if same_activation p n t a then Inr (a, False, with_channel db)
                 else Inl (ValidationError ''Publication operation UUID conflicts with stored evidence.'')
             | None \<Rightarrow>
                 ebind (check_transition \<lparr>ch_current_revision = snd (recent_pointer db),
                          ch_version = fst (recent_pointer db)\<rparr> n t (with_channel db)) (\<lambda>operation.
                 let a = activation_row k operation n p now t in
                 if evidence_valid users p n t then Inr (a, True, record_transition a (with_channel db))
                 else Inl (FullClean ''PublicationActivation'')))))"
  using publication_reachable_inv [OF assms] by (intro transition_outcome) (simp add: publication_inv_def)

text \<open>
  C33: The pointer implements an append-only history: its version is the number of targets
  installed so far and it names the last of them; whatever steps follow only add targets; and as
  long as the version is the same the pointer and the history are the same, so the expected
  version of a transition detects every transition in between.
\<close>

theorem recent_channel_refines_history:
  assumes "publication_reachable m users db" and "(publication_step m users)\<^sup>*\<^sup>* db db'"
  shows "recent_pointer db = (length (targets (recent_events db)),
           if targets (recent_events db) = [] then None else last (targets (recent_events db)))
    \<and> prefix (targets (recent_events db)) (targets (recent_events db'))
    \<and> (fst (recent_pointer db') = fst (recent_pointer db) \<longrightarrow>
         recent_pointer db' = recent_pointer db \<and> recent_events db' = recent_events db)"
proof -
  have inv: "publication_inv db" using assms(1) by (rule publication_reachable_inv)
  have steps: "(recent.step users m)\<^sup>*\<^sup>* db db'" using assms(2) by (simp add: recent_steps)
  obtain es where "recent_events db' = recent_events db @ es" using recent.steps_append [OF steps inv] by blast
  then have "prefix (targets (recent_events db)) (targets (recent_events db'))" by (simp add: targets_def)
  then show ?thesis
    using recent.pointer_refines [OF inv] recent.same_version_same_pointer [OF steps inv] by blast
qed

text \<open>
  C34: A sealed revision whose approval nobody superseded can always be activated: an authorized
  publisher with well-formed evidence and a new operation identifier, expecting the pointer the
  channel has, makes it the current revision and advances the version by one.
\<close>

theorem approved_target_activates:
  assumes "publication_reachable m users db" and "authorized ''grocery.publish_publication'' actor = Some p"
    and "target_approved k db" and "snd (recent_pointer db) \<noteq> Some k"
    and "i \<notin> pa_id ` set (db_activations db)"
    and t: "t = \<lparr>ta_operation_id = Some i, ta_operation = Some ACTIVATE, ta_target_revision = Some k,
      ta_expected_current_revision = snd (recent_pointer db), ta_expected_version = Some (int (fst (recent_pointer db))),
      ta_reason_code = reason, ta_acceptance_evidence_sha256 = evidence\<rparr>"
    and "evidence_valid users p (fst (recent_pointer db)) t"
  shows "\<exists>a db'. transition_recent_publication users now actor t db = Inr (a, True, db')
    \<and> recent_pointer db' = (fst (recent_pointer db) + 1, Some k)"
proof -
  have chan: "channel_inv db" using publication_reachable_inv [OF assms(1)] by (simp add: publication_inv_def)
  have approved: "target_approved k (with_channel db)"
    using assms(3) by (simp add: target_approved_def cong: option.case_cong)
  have "get_row pa_id i (db_activations db) = None" using assms(5) by (simp add: get_row_None)
  then show ?thesis
    unfolding transition_outcome [OF chan] using assms(2,4,7) approved
    by (simp add: t check_transition_def require_def Let_def record_transition_pointer) (simp add: activation_row_def)
qed

lemma first_seal:
  assumes inv: "publication_inv db" and S: "sealable k db d source run facts"
    and c: "c = publication_candidate (ids 0) created d run facts copy_revision"
    and "copy_revision_text copy_revision" and "length (run_parser_revision run) \<le> 64"
    and "integer_field (length (fs_entries facts))" and "created \<le> sealed"
    and "\<not> list_ex (same_publication c) (db_revisions db)" and "new_publication_ids ids (length (fs_entries facts)) db"
  shows "\<exists>v db'. seal_recent_publication ids created sealed k copy_revision db = Inr (v, db')
    \<and> v = sealed_row c sealed \<and> v \<in> set (db_revisions db') \<and> published_as db' v d facts run"
proof -
  have price: "price_inv db" and I: "review_inv db" "entries_linked db"
    using inv publication_price_inv by (auto simp: publication_inv_def revisions_inv_def)
  have f: "build_publication_fact_set (snapshots_of_run (run_id run) db) db = Inr facts"
    and rows: "get_row rd_id k (db_reviews db) = Some d" "get_row run_id (rd_parse_run d) (db_runs db) = Some run"
    and parser: "run_parser_revision run \<noteq> []"
    using S by (auto simp: sealable_def require_publication_contract_def require_eq_Inr)
  note F = fact_set_members [OF price f]
  have "fs_typed_fact_set_sha256 facts = fact_set_hash (map ce_fact_sha256 (fs_entries facts))"
    using arg_cong [OF F(6), of fs_typed_fact_set_sha256] by (simp add: fact_set_of_def)
  then have hash: "SHA256_PATTERN (fs_typed_fact_set_sha256 facts)"
    by (simp add: SHA256_PATTERN_def fact_set_hash_def)
  have "copy_revision \<noteq> [] \<and> length copy_revision \<le> 64"
    using assms(4) by (auto simp: copy_revision_text_def split: list.split_asm)
  then have fields: "revision_fields c"
    using assms(4-6) hash SHA256_PATTERN_length [OF hash] F(3,4) parser
    by (simp add: revision_fields_def c publication_candidate_def char_field_def dollar_def Suc_le_eq)
  have links: "revision_links c db"
    using get_row_key [OF rows(1)] get_row_key [OF rows(2)] get_row_Some [OF rows(1)] get_row_Some [OF rows(2)]
    by (simp add: revision_links_def c publication_candidate_def)
  have "find (same_publication c) (db_revisions db) = None"
    using assms(8) by (auto simp: find_None_iff list_ex_iff)
  then have seal: "seal_recent_publication ids created sealed k copy_revision db =
      Inr (sealed_row c sealed, db\<lparr>db_revisions := db_revisions db @ [sealed_row c sealed],
        db_entries := db_entries db @ map (sealed_entry ids (pv_id c)) (fs_entries facts)\<rparr>)"
    unfolding seal_sealable [OF S] Let_def c [symmetric]
    using create_publication_ok [OF price I S c fields links assms(8,4,7,9)] fields links by simp
  have "sealed_row c sealed \<notin> set (db_revisions db)"
    using assms(9) by (auto simp: new_publication_ids_def c publication_candidate_def sealed_row_def image_iff)
  then show ?thesis
    using seal_published [OF price I(2) S seal] seal by simp
qed

text \<open>
  C35: Whatever the service's checks let through is sealed: from every reachable state, a latest
  approval whose generation, coverage and membership are as approved, a well-formed copy revision,
  new identifiers and a fact set not published before give a sealed revision that is that fact
  set; no trigger of the database refuses a row of it.
\<close>

theorem first_seal_publishes:
  assumes "publication_reachable m users db" and S: "sealable k db d source run facts"
    and c: "c = publication_candidate (ids 0) created d run facts copy_revision"
    and "copy_revision_text copy_revision" and "length (run_parser_revision run) \<le> 64"
    and "integer_field (length (fs_entries facts))" and "created \<le> sealed"
    and "\<not> list_ex (same_publication c) (db_revisions db)" and "new_publication_ids ids (length (fs_entries facts)) db"
  shows "\<exists>v db'. seal_recent_publication ids created sealed k copy_revision db = Inr (v, db')
    \<and> v = sealed_row c sealed \<and> v \<in> set (db_revisions db') \<and> published_as db' v d facts run"
  by (rule first_seal [OF publication_reachable_inv [OF assms(1)] assms(2-9)])

text \<open>
  C36: Both hashes of a fact agree: whenever the service serialises and hashes a stored snapshot
  with its series, references and changes, the database function that assembles the same object
  from SQL fragments, with its members in the order of their keys, yields the same hash.
\<close>

theorem database_recomputes_the_hash:
  assumes "publication_reachable m users db" and "s \<in> set (db_snapshots db)" and "snapshot_fact_sha256 s db = Inr h"
  shows "sql_snapshot_fact_sha256 (sn_id s) db = Some h"
  using publication_price_inv [OF publication_reachable_inv [OF assms(1)]] assms(2,3)
  by (intro sql_hash_agrees) (simp_all add: price_inv_def)

section \<open>Replays\<close>

lemma find_prefix: "find P xs = Some x \<Longrightarrow> prefix xs ys \<Longrightarrow> find P ys = Some x"
  by (induction xs arbitrary: ys) (auto simp: prefix_def split: if_split_asm)

lemma same_revision_fields_iff:
  "same_revision_fields v w \<longleftrightarrow> pv_review_decision v = pv_review_decision w \<and> pv_generation v = pv_generation w
     \<and> pv_parser_revision v = pv_parser_revision w \<and> pv_typed_fact_set_sha256 v = pv_typed_fact_set_sha256 w
     \<and> pv_entry_count v = pv_entry_count w \<and> pv_source_effective_date_min v = pv_source_effective_date_min w
     \<and> pv_source_effective_date_max v = pv_source_effective_date_max w
     \<and> pv_public_copy_revision v = pv_public_copy_revision w"
  by (cases v, cases w) (auto simp: same_revision_fields_def)

text \<open>What a sealed row has in common with its candidate.\<close>

lemma seal_first_match:
  assumes "sealable k db d source run facts"
    and "seal_recent_publication ids created sealed k copy_revision db = Inr (v, db')"
    and c: "c = publication_candidate (ids 0) created d run facts copy_revision"
  shows "find (same_publication c) (db_revisions db') = Some v" and "pv_sealed_at v \<noteq> None"
    and "same_revision_fields v c" and "revision_fields c"
proof -
  have "find (same_publication c) (db_revisions db') = Some v \<and> pv_sealed_at v \<noteq> None \<and> same_revision_fields v c"
    using assms(1,2)
  proof (cases rule: seal_Inr_cases)
    case replay
    then show ?thesis by (simp add: c)
  next
    case new
    have "find (same_publication c) (db_revisions db) = None" using new(3) by (auto simp: c find_None_iff list_ex_iff)
    moreover have "find P (xs @ [x]) = Some x" if "find P xs = None" "P x" for P xs and x :: publication_revision
      using that by (induction xs) (auto split: if_split_asm)
    moreover have "same_publication c v" by (simp add: new(1) c same_publication_def)
    ultimately have "find (same_publication c) (db_revisions db') = Some v" by (simp add: new(4))
    then show ?thesis by (simp add: new(1) c same_revision_fields_def sealed_row_def publication_candidate_def)
  qed
  then show "find (same_publication c) (db_revisions db') = Some v" "pv_sealed_at v \<noteq> None" "same_revision_fields v c"
    by simp_all
  show "revision_fields c"
    using assms(2) unfolding seal_sealable [OF assms(1)] Let_def c [symmetric] by (simp split: if_split_asm)
qed

text \<open>What a seal leaves in the state: the sealed row is the first with its hash and copy revision.\<close>

definition seal_stored :: "uuid \<times> pystr \<Rightarrow> publication_revision \<Rightarrow> publication_db \<Rightarrow> bool" where
  "seal_stored q v db \<longleftrightarrow> pv_review_decision v = fst q \<and> pv_public_copy_revision v = snd q \<and> pv_sealed_at v \<noteq> None
     \<and> revision_fields v \<and> find (same_publication v) (db_revisions db) = Some v"

lemma same_publication_cong: "same_revision_fields v c \<Longrightarrow> same_publication c = same_publication v"
  by (auto simp: same_revision_fields_iff same_publication_def fun_eq_iff)

lemma seal_stores:
  assumes "seal_recent_publication ids created sealed k copy_revision db = Inr (v, db')"
  shows "seal_stored (k, copy_revision) v db'"
proof -
  obtain d source run facts where S: "sealable k db d source run facts" using seal_Inr [OF assms] .
  note M = seal_first_match [OF S assms refl]
  have "rd_id d = k" using S get_row_Some [of rd_id k "db_reviews db" d] by (simp add: sealable_def)
  then show ?thesis
    using M same_publication_cong [OF M(3)]
    by (simp add: seal_stored_def same_revision_fields_iff revision_fields_def publication_candidate_def)
qed

lemma seal_stored_replays:
  assumes inv: "publication_inv db" and stored: "seal_stored (k, copy_revision) v db"
    and S: "sealable k db d source run facts"
  shows "seal_recent_publication ids created sealed k copy_revision db = Inr (v, db)"
proof -
  define c where "c = publication_candidate (ids 0) created d run facts copy_revision"
  have v: "v \<in> set (db_revisions db)" "pv_review_decision v = k" "pv_public_copy_revision v = copy_revision"
    "pv_sealed_at v \<noteq> None" "revision_fields v" "find (same_publication v) (db_revisions db) = Some v"
    using stored find_Some_member by (fastforce simp: seal_stored_def)+
  have "revision_published db v" using inv v(1) by (simp add: publication_inv_def revisions_inv_def list_all_iff)
  then obtain d1 facts1 run1 where "published_as db v d1 facts1 run1" by (auto simp: revision_published_def)
  moreover have rows: "get_row rd_id k (db_reviews db) = Some d" "get_row run_id (rd_parse_run d) (db_runs db) = Some run"
    "build_publication_fact_set (snapshots_of_run (run_id run) db) db = Inr facts"
    using S by (simp_all add: sealable_def)
  moreover have "rd_id d = k" "run_id run = rd_parse_run d" using get_row_Some rows(1,2) by fastforce+
  ultimately have p: "published_as db v d facts run" and id: "rd_id d = k" "run_id run = pv_generation v"
    using v(2) by (auto simp: published_as_def)
  have same: "same_revision_fields v c"
    using p id v(2,3) by (simp add: same_revision_fields_iff c_def publication_candidate_def published_as_def)
  have "revision_fields c" using v(5) same by (simp add: same_revision_fields_iff revision_fields_def)
  moreover have "revision_links c db"
    using get_row_key [OF rows(1)] get_row_key [OF rows(2)] id p
    by (simp add: revision_links_def c_def publication_candidate_def published_as_def)
  moreover have "map stored_entry (entries_in_order (pv_id v) db) = fs_entries facts" using p by (simp add: published_as_def)
  ultimately show ?thesis
    unfolding seal_sealable [OF S] Let_def c_def [symmetric] same_publication_cong [OF same]
    using v(4,6) same by (simp add: replay_publication_def require_def)
qed

interpretation seals: replayed_operation publication_inv "publication_step m users" publication_grows
  "\<lambda>(ids, created, sealed) (k, copy_revision). seal_recent_publication ids created sealed k copy_revision"
  "\<lambda>v. v" "\<lambda>q db. \<exists>d source run facts. sealable (fst q) db d source run facts" seal_stored for m users
proof
  fix s s' v and q :: "uuid \<times> pystr" and e :: "(nat \<Rightarrow> uuid) \<times> instant \<times> instant"
  assume inv: "publication_inv s"
  obtain ids created sealed k copy_revision where [simp]: "e = (ids, created, sealed)" "q = (k, copy_revision)"
    by (cases e, cases q)
  let ?run = "case e of (ids, created, sealed) \<Rightarrow> \<lambda>(k, copy_revision). seal_recent_publication ids created sealed k copy_revision"
  show "publication_inv s'" "seal_stored q v s'" if "?run q s = Inr (v, s')"
    using that seal_step_inv(1) [OF inv] seal_stores by auto
  show "?run q s = Inr (v, s)" if "seal_stored q v s" "\<exists>d source run facts. sealable (fst q) s d source run facts"
    using that seal_stored_replays [OF inv] by auto
  show "seal_stored q v s'" if "publication_grows s s'" "seal_stored q v s"
    using that find_prefix by (auto simp: seal_stored_def publication_grows_def)
qed

text \<open>
  C37: A publication replays: after a successful seal and any further steps, sealing the same
  decision with the same copy revision, while the service's checks still pass, answers the stored
  revision and writes nothing, whatever identifiers and times the second call drew.
\<close>

theorem sealed_publication_replays:
  assumes "publication_reachable m users db" and "seal_recent_publication ids created sealed k copy_revision db = Inr (v, db')"
    and "(publication_step m users)\<^sup>*\<^sup>* db' db''" and S: "sealable k db'' d source run facts"
  shows "seal_recent_publication ids' created' sealed' k copy_revision db'' = Inr (v, db'')"
  using seals.replays [where e = "(ids, created, sealed)" and e' = "(ids', created', sealed')" and q = "(k, copy_revision)",
      OF publication_reachable_inv [OF assms(1)] _ assms(3), of v] assms(2) S by auto

text \<open>Decisions and transitions say whether they created the row they answer.\<close>

definition answered :: "'e + ('r \<times> bool \<times> 's) \<Rightarrow> 'e + (('r \<times> bool) \<times> 's)" where
  "answered m = ebind m (\<lambda>(r, created, s). Inr ((r, created), s))"

lemma answered_Inr [simp]: "answered m = Inr (x, s) \<longleftrightarrow> m = Inr (fst x, snd x, s)"
  by (cases x) (auto simp: answered_def ebind_eq_Inr)

definition review_stored :: "uuid \<times> actor \<times> review_arguments \<Rightarrow> review_decision \<times> bool \<Rightarrow> publication_db \<Rightarrow> bool" where
  "review_stored q x db \<longleftrightarrow> (case q of (k, actor, a) \<Rightarrow>
     \<exists>p. authorized ''grocery.review_generation'' actor = Some p
       \<and> get_row rd_id k (db_reviews db) = Some (fst x) \<and> same_review p a (fst x))"

lemma review_stores:
  assumes "record_review_decision users now k actor a db = Inr (r, created, db')"
  shows "review_stored (k, actor, a) (r, created) db'"
proof -
  obtain p where p: "authorized ''grocery.review_generation'' actor = Some p"
    using assms by (auto simp: record_review_decision_def of_option_eq_Inr elim!: ebind_InrE)
  show ?thesis
  proof (cases "get_row rd_id k (db_reviews db)")
    case (Some existing)
    then show ?thesis
      using assms p by (auto simp: record_review_decision_def review_stored_def require_eq_Inr elim!: ebind_InrE)
  next
    case None
    then obtain v where v: "ra_decision a = Some v" "r = review_candidate k p now v a" "save_review users True r db = Inr db'"
      using assms p by (auto simp: record_review_decision_def Let_def of_option_eq_Inr elim!: ebind_InrE)
    have "get_row rd_id k (db_reviews db') = Some r"
      using None v(2) by (simp add: save_review_Inr(2) [OF v(3)] get_row_append review_candidate_def)
    then show ?thesis using p v(1,2) by (simp add: review_stored_def same_review_def review_candidate_def)
  qed
qed

interpretation decisions: replayed_operation publication_inv "publication_step m users" publication_grows
  "\<lambda>now (k, actor, a) db. answered (record_review_decision users now k actor a db)"
  "\<lambda>(r, _). (r, False)" "\<lambda>_ _. True" review_stored for m users
proof
  fix s s' x and q :: "uuid \<times> actor \<times> review_arguments" and now :: instant
  assume inv: "publication_inv s"
  obtain k actor a where [simp]: "q = (k, actor, a)" by (cases q)
  let ?run = "(\<lambda>(k, actor, a) db. answered (record_review_decision users now k actor a db)) q s"
  show "publication_inv s'" "review_stored q x s'" if "?run = Inr (x, s')"
    using that review_step_inv(1) [OF inv] review_stores by fastforce+
  show "?run = Inr (case x of (r, _) \<Rightarrow> (r, False), s)" if "review_stored q x s"
    using that by (cases x) (auto simp: review_stored_def record_review_decision_def of_option_def require_def)
  show "review_stored q x s'" if "publication_grows s s'" "review_stored q x s"
    using that get_row_prefix [of "db_reviews s" "db_reviews s'"] by (auto simp: review_stored_def publication_grows_def)
qed

text \<open>
  C38: A decision is recorded once: whatever steps follow, an identical request under the same
  identifier, at any later time, answers the stored decision, says that it created nothing and
  writes nothing.
\<close>

theorem recorded_review_replays:
  assumes "publication_reachable m users db" and "record_review_decision users now k actor a db = Inr (r, created, db')"
    and "(publication_step m users)\<^sup>*\<^sup>* db' db''"
  shows "record_review_decision users now' k actor a db'' = Inr (r, False, db'')"
  using decisions.replays [where e = now and e' = now' and q = "(k, actor, a)" and r = "(r, created)",
      OF publication_reachable_inv [OF assms(1)] _ assms(3)] assms(2) by simp

definition transition_stored ::
    "actor \<times> transition_arguments \<Rightarrow> publication_activation \<times> bool \<Rightarrow> publication_db \<Rightarrow> bool" where
  "transition_stored q x db \<longleftrightarrow> (case q of (actor, t) \<Rightarrow>
     \<exists>p k n. authorized ''grocery.publish_publication'' actor = Some p \<and> ta_operation_id t = Some k
       \<and> ta_expected_version t = Some (int n) \<and> get_row pa_id k (db_activations db) = Some (fst x)
       \<and> same_activation p n t (fst x) \<and> db_channel db \<noteq> None)"

lemma transition_stores:
  assumes chan: "channel_inv db" and run: "transition_recent_publication users now actor t db = Inr (a, created, db')"
  shows "transition_stored (actor, t) (a, created) db'"
proof -
  obtain p k n where p: "authorized ''grocery.publish_publication'' actor = Some p" "ta_operation_id t = Some k"
    "ta_expected_version t = Some (int n)"
    using run unfolding transition_outcome [OF chan]
    by (auto split: option.split_asm if_split_asm) (metis int_nat_eq linorder_not_less)
  show ?thesis
  proof (cases "get_row pa_id k (db_activations db)")
    case (Some e)
    then show ?thesis
      using run p unfolding transition_outcome [OF chan]
      by (auto simp: transition_stored_def Let_def with_channel_def split: if_split_asm)
  next
    case None
    then obtain operation where c: "check_transition \<lparr>ch_current_revision = snd (recent_pointer db),
        ch_version = fst (recent_pointer db)\<rparr> n t (with_channel db) = Inr operation"
      and a: "a = activation_row k operation n p now t" "db' = record_transition a (with_channel db)"
      using run p unfolding transition_outcome [OF chan]
      by (auto simp: Let_def elim!: ebind_InrE split: if_split_asm)
    have "get_row pa_id k (db_activations db') = Some a"
      using None by (simp add: a(2) record_transition_def get_row_append) (simp add: a(1) activation_row_def)
    moreover have "same_activation p n t a"
      using check_transition_Inr(3) [OF c] by (simp add: a(1) same_activation_def activation_row_def)
    ultimately show ?thesis using p by (simp add: transition_stored_def a(2) record_transition_def)
  qed
qed

interpretation transitions: replayed_operation publication_inv "publication_step m users" publication_grows
  "\<lambda>now (actor, t) db. answered (transition_recent_publication users now actor t db)"
  "\<lambda>(a, _). (a, False)" "\<lambda>_ _. True" transition_stored for m users
proof
  fix s s' x and q :: "actor \<times> transition_arguments" and now :: instant
  assume inv: "publication_inv s"
  then have chan: "channel_inv s" by (simp add: publication_inv_def)
  obtain actor t where [simp]: "q = (actor, t)" by (cases q)
  let ?run = "(\<lambda>(actor, t) db. answered (transition_recent_publication users now actor t db)) q s"
  show "publication_inv s'" "transition_stored q x s'" if "?run = Inr (x, s')"
    using that transition_step_inv(1) [OF inv] transition_stores [OF chan] by fastforce+
  show "?run = Inr (case x of (a, _) \<Rightarrow> (a, False), s)" if "transition_stored q x s"
    using that transition_outcome [OF chan, of users now actor t]
    by (cases x) (auto simp: transition_stored_def with_channel_def)
  show "transition_stored q x s'" if "publication_grows s s'" "transition_stored q x s"
    using that get_row_prefix [of "db_activations s" "db_activations s'"]
    by (fastforce simp: transition_stored_def publication_grows_def)
qed

text \<open>
  C39: A transition is recorded once: whatever steps follow, even when the pointer has long moved
  on, an identical request under the same operation identifier answers the stored event, says that
  it created nothing and writes nothing.
\<close>

theorem recorded_transition_replays:
  assumes "publication_reachable m users db" and "transition_recent_publication users now actor t db = Inr (a, created, db')"
    and "(publication_step m users)\<^sup>*\<^sup>* db' db''"
  shows "transition_recent_publication users now' actor t db'' = Inr (a, False, db'')"
  using transitions.replays [where e = now and e' = now' and q = "(actor, t)" and r = "(a, created)",
      OF publication_reachable_inv [OF assms(1)] _ assms(3)] assms(2) by simp

section \<open>Review\<close>

text \<open>
  C40: A recorded decision becomes the tail of its generation: it supersedes the last decision of
  the generation's history, or nothing when it is the first, it is appended to that history, and
  from then on the sealing service's tail check passes for no decision of the generation but this
  one, and for this one exactly when it approves.
\<close>

theorem recorded_review_becomes_tail:
  assumes "publication_reachable m users db" and "record_review_decision users now k actor a db = Inr (r, True, db')"
  shows "rd_supersedes r = (let rs = review_history (review_generation r) db in
           if rs = [] then None else Some (rd_id (last rs)))
    \<and> review_history (review_generation r) db' = review_history (review_generation r) db @ [r]
    \<and> list_all (\<lambda>d. require_review_tail d db' = Inr () \<longleftrightarrow> d = r \<and> rd_decision r = APPROVE)
         (review_history (review_generation r) db')"
proof -
  have inv: "review_inv db" using publication_reachable_inv [OF assms(1)] by (simp add: publication_inv_def)
  have saved: "save_review users True r db = Inr db'" using assms(2) by (cases rule: record_review_Inr) simp_all
  note R = save_review_Inr [OF saved]
  have inv': "review_inv db'" by (rule save_review_inv [OF saved inv])
  have h: "review_history (review_generation r) db' = review_history (review_generation r) db @ [r]"
    by (simp add: R(2) review_history_snoc)
  have "require_review_tail d db' = Inr () \<longleftrightarrow> d = r \<and> rd_decision r = APPROVE"
    if d: "d \<in> set (review_history (review_generation r) db')" for d
  proof -
    have "d \<in> set (db_reviews db')" "review_generation d = review_generation r" using d by (simp_all add: review_history_def)
    then show ?thesis using require_review_tail_iff [OF inv', of d] h by auto
  qed
  then show ?thesis
    using review_chain_clean_Inr [OF review_clean_Inr(1) [OF R(3)] R(4) inv] h by (simp add: list_all_iff)
qed

end
