(* ===== verification/Kamis_Client_Proofs.thy ===== *)
theory Kamis_Client_Proofs
  imports Kamis_Client
begin

text \<open>
  What the client guarantees against any server: at most twelve calls, and receipts that form a
  contiguous run of pages which agree with each other; on success they account for every row.
  Each lemma follows one function of the client; \<open>fetch_loop_run\<close> is the invariant of the loop.
\<close>

section \<open>One page\<close>

definition page_ok :: "nat \<Rightarrow> nat \<Rightarrow> decoded_page \<Rightarrow> bool" where
  "page_ok page page_size d \<longleftrightarrow>
     dp_declared_page_number d = page \<and> dp_declared_page_size d = page_size
     \<and> dp_provider_result_code d = lit ''0'' \<and> dp_byte_length d \<le> MAX_PAGE_BYTES
     \<and> sha256_text (dp_body_sha256 d)"

lemma provider_header_zero: "provider_header header page = Inr (Inl c) \<Longrightarrow> c = lit ''0''"
  by (auto simp: provider_header_def elim!: ebind_InrE split: json.split_asm if_split_asm)

lemma decode_body_page:
  assumes "decode_body tr raw response code page page_size = Inr d"
  shows "dp_declared_page_number d = page \<and> dp_declared_page_size d = page_size
    \<and> dp_provider_result_code d = code \<and> dp_byte_length d = length raw \<and> dp_body_sha256 d = sha256 raw"
  using assms unfolding decode_body_def
  by (auto elim!: ebind_InrE split: if_split_asm json.split_asm)

lemma decode_page_page:
  assumes "decode_page tr raw page page_size = Inr (Inl d)"
  shows "dp_declared_page_number d = page \<and> dp_declared_page_size d = page_size
    \<and> dp_provider_result_code d = lit ''0'' \<and> dp_byte_length d = length raw \<and> dp_body_sha256 d = sha256 raw"
proof -
  obtain header response code where "provider_header header page = Inr (Inl code)"
    "decode_body tr raw response code page page_size = Inr d"
    using assms unfolding decode_page_def
    by (auto elim!: ebind_InrE split: sum.split_asm)
  then show ?thesis using decode_body_page provider_header_zero by metis
qed

lemma request_once_page:
  assumes "request_once tr request calls page page_size = Inr (Inl d)"
  shows "page_ok page page_size d"
proof -
  obtain raw where "length raw \<le> MAX_PAGE_BYTES" "decode_page tr raw page page_size = Inr (Inl d)"
    using assms by (auto simp: request_once_def not_less elim!: ebind_InrE split: sum.split_asm if_split_asm)
  then show ?thesis using decode_page_page [of tr raw page page_size d] by (simp add: page_ok_def)
qed

lemma fetch_attempts_page:
  "fetch_attempts tr build key page page_size attempt remaining prev st = (Inr d, st')
     \<Longrightarrow> page_ok page page_size d"
proof (induction remaining arbitrary: attempt prev st)
  case (Suc remaining)
  then show ?case
    by (auto simp: Let_def split: sum.split_asm if_split_asm dest: request_once_page)
qed (auto split: option.split_asm)

lemma fetch_page_page: "fetch_page tr build key page page_size st = (Inr d, st') \<Longrightarrow> page_ok page page_size d"
  unfolding fetch_page_def by (rule fetch_attempts_page)

section \<open>The call budget\<close>

text \<open>What any run of attempts does to the state, whatever the server answers.\<close>

definition budget_step :: "client_state \<Rightarrow> client_state \<Rightarrow> nat \<Rightarrow> bool" where
  "budget_step st st' calls \<longleftrightarrow>
     cs_count st \<le> cs_count st' \<and> cs_count st' \<le> cs_count st + calls
     \<and> (cs_count st \<le> MAX_CALLS \<longrightarrow> cs_count st' \<le> MAX_CALLS)
     \<and> (\<exists>rs. cs_requests st' = cs_requests st @ rs \<and> length rs \<le> cs_count st' - cs_count st)
     \<and> (\<exists>ds. cs_sleeps st' = cs_sleeps st @ ds \<and> length ds \<le> cs_count st' - cs_count st)"

lemma budget_step_refl [simp]: "budget_step st st n"
  by (simp add: budget_step_def)

lemma budget_step_trans:
  "budget_step a b m \<Longrightarrow> budget_step b c n \<Longrightarrow> budget_step a c (m + n)"
  by (fastforce simp: budget_step_def)

lemma consume_Inr:
  "consume page attempt st = Inr st' \<longleftrightarrow> cs_count st < MAX_CALLS \<and> st' = st\<lparr>cs_count := cs_count st + 1\<rparr>"
  by (auto simp: consume_def)

lemma fetch_attempts_budget:
  assumes "fetch_attempts tr build key page page_size attempt remaining prev st = (r, st')"
  shows "budget_step st st' remaining"
  using assms
proof (induction remaining arbitrary: attempt prev st)
  case (Suc remaining)
  show ?case
  proof (cases "consume page attempt st")
    case (Inl e)
    then show ?thesis using Suc.prems by simp
  next
    case (Inr st1)
    then have c: "cs_count st < MAX_CALLS" and st1: "st1 = st\<lparr>cs_count := cs_count st + 1\<rparr>"
      by (auto simp: consume_Inr)
    have one: "budget_step st (st1\<lparr>cs_requests := rs, cs_sleeps := ds\<rparr>) 1"
      if "rs = cs_requests st \<or> (\<exists>x. rs = cs_requests st @ [x])" "ds = cs_sleeps st \<or> (\<exists>x. ds = cs_sleeps st @ [x])"
      for rs ds
      using c that by (auto simp: budget_step_def st1)
    have keep: "x\<lparr>cs_requests := cs_requests x, cs_sleeps := cs_sleeps x\<rparr> = x" for x :: client_state by simp
    have s1: "budget_step st st1 1" using one [of "cs_requests st" "cs_sleeps st"] by (simp add: st1)
    have s2: "budget_step st (st1\<lparr>cs_requests := cs_requests st1 @ [x]\<rparr>) 1" for x
      using one [of "cs_requests st @ [x]" "cs_sleeps st"] by (simp add: st1)
    have s3: "budget_step st (st1\<lparr>cs_requests := cs_requests st1 @ [x], cs_sleeps := cs_sleeps st1 @ [y]\<rparr>) 1" for x y
      using one [of "cs_requests st @ [x]" "cs_sleeps st @ [y]"] by (simp add: st1)
    have weaken: "budget_step a b 1 \<Longrightarrow> budget_step a b (Suc remaining)" for a b
      by (auto simp: budget_step_def)
    have step: "budget_step a b 1 \<Longrightarrow> budget_step b c remaining \<Longrightarrow> budget_step a c (Suc remaining)" for a b c
      using budget_step_trans [of a b 1 c remaining] by simp
    show ?thesis
      using Suc.prems Inr weaken [OF s1]
      by (auto simp: Let_def split: sum.splits if_splits
               intro: weaken [OF s2] step [OF s2] step [OF s3] Suc.IH)
  qed
qed auto

lemma fetch_attempts_progress:
  assumes "fetch_attempts tr build key page page_size attempt remaining prev st = (Inr d, st')"
  shows "cs_count st < cs_count st'"
proof (cases remaining)
  case (Suc n)
  show ?thesis
    using assms fetch_attempts_budget unfolding Suc
    by (fastforce simp: Let_def consume_Inr budget_step_def split: sum.splits if_splits)
qed (use assms in \<open>auto split: option.split_asm\<close>)

lemma fetch_page_budget:
  "fetch_page tr build key page page_size st = (r, st') \<Longrightarrow> budget_step st st' MAX_ATTEMPTS_PER_PAGE"
  unfolding fetch_page_def by (rule fetch_attempts_budget)


section \<open>The run of pages\<close>

text \<open>
  A receipt of page \<open>n\<close> of a source that declares \<open>declared_total\<close> rows: it repeats the request
  and holds the rows that page has to have.
\<close>

definition receipt_ok :: "nat \<Rightarrow> nat \<Rightarrow> page_receipt \<Rightarrow> bool" where
  "receipt_ok page_size declared_total r \<longleftrightarrow>
     pr_requested_page_number r = pr_ordinal r \<and> pr_declared_page_number r = pr_ordinal r
     \<and> pr_declared_page_size r = page_size \<and> pr_declared_total_count r = declared_total
     \<and> pr_row_count r = min page_size (declared_total - page_size * (pr_ordinal r - 1))
     \<and> pr_http_status r = 200 \<and> pr_provider_result_code r = lit ''0''
     \<and> pr_byte_length r \<le> MAX_PAGE_BYTES \<and> sha256_text (pr_body_sha256 r)"

definition receipts_ok :: "nat \<Rightarrow> nat \<Rightarrow> page_receipt list \<Rightarrow> bool" where
  "receipts_ok page_size declared_total rs \<longleftrightarrow>
     contiguous_from_one (map pr_ordinal rs) \<and> list_all (receipt_ok page_size declared_total) rs"

lemma receipts_ok_Nil [simp]: "receipts_ok ps t []"
  by (simp add: receipts_ok_def)

lemma receipts_ok_snoc:
  "receipts_ok ps t (rs @ [r]) \<longleftrightarrow> receipts_ok ps t rs \<and> pr_ordinal r = length rs + 1 \<and> receipt_ok ps t r"
  by (auto simp: receipts_ok_def contiguous_snoc)

text \<open>The invariant on entry to the turn of \<open>page\<close>, and what holds when the loop stops.\<close>

definition loop_inv :: "nat \<Rightarrow> nat \<Rightarrow> nat option \<Rightarrow> nat \<Rightarrow> page_receipt list \<Rightarrow> bool" where
  "loop_inv ps page expected n rs \<longleftrightarrow>
     page = length rs + 1 \<and> page \<le> MAX_PAGES \<and> n = sum_list (map pr_row_count rs)
     \<and> (case expected of None \<Rightarrow> rs = []
        | Some t \<Rightarrow> receipts_ok ps t rs \<and> n = ps * length rs \<and> n < t \<and> required_pages t ps \<le> MAX_PAGES)"

definition complete :: "nat \<Rightarrow> nat \<Rightarrow> page_receipt list \<Rightarrow> bool" where
  "complete ps n rs \<longleftrightarrow> receipts_ok ps n rs \<and> n = sum_list (map pr_row_count rs)
     \<and> length rs = required_pages n ps \<and> length rs \<le> MAX_PAGES"

definition partial_run :: "nat \<Rightarrow> page_receipt list \<Rightarrow> bool" where
  "partial_run ps rs \<longleftrightarrow> length rs \<le> MAX_PAGES
     \<and> (\<exists>t. receipts_ok ps t rs \<and> (rs \<noteq> [] \<longrightarrow> ps * length rs < t \<and> required_pages t ps \<le> MAX_PAGES))"

lemma loop_inv_partial: "loop_inv ps page expected n rs \<Longrightarrow> partial_run ps rs"
  by (auto simp: loop_inv_def partial_run_def split: option.split_asm)

lemma check_total_Inr:
  "check_total expected page ps declared = Inr t \<Longrightarrow>
     t = declared \<and> (expected = None \<and> required_pages t ps \<le> MAX_PAGES \<or> expected = Some t)"
  by (auto simp: check_total_def split: option.split_asm if_split_asm)

lemma required_pages_last:
  assumes "0 < ps" and "ps * k \<le> t" and "t \<le> ps * (k + 1)" and "k = 0 \<or> ps * k < t"
  shows "required_pages t ps = k + 1"
proof (cases "t = 0")
  case True
  then show ?thesis using assms by (auto simp: required_pages_def)
next
  case False
  have "(t + ps - 1) div ps = k + 1"
  proof (rule div_nat_eqI)
    show "ps * (k + 1) \<le> t + ps - 1" using assms False by auto
    show "t + ps - 1 < ps * Suc (k + 1)" using assms by auto
  qed
  then show ?thesis by (simp add: required_pages_def)
qed

lemma required_pages_more:
  assumes "0 < ps" and "ps * k < t"
  shows "k < required_pages t ps"
proof -
  have "ps * (k + 1) \<le> t + ps - 1" using assms by auto
  then have "k + 1 \<le> (t + ps - 1) div ps" using assms(1) by (simp add: less_eq_div_iff_mult_less_eq mult.commute)
  then show ?thesis by (simp add: required_pages_def)
qed

text \<open>One turn: a page that passes the checks of the loop extends the run.\<close>

lemma loop_turn:
  assumes inv: "loop_inv ps page expected n rs" and ps: "0 < ps" and d: "page_ok page ps d"
    and t: "check_total expected page ps (dp_declared_total_count d) = Inr t"
    and k: "length (dp_items d) = min ps (t - n)"
  defines "rs' \<equiv> rs @ [page_receipt_of (length rs) page d]" and "n' \<equiv> n + length (dp_items d)"
  shows "n' \<le> t \<and> (n' = t \<longrightarrow> complete ps n' rs')
    \<and> (n' < t \<longrightarrow> loop_inv ps (page + 1) (Some t) n' rs')"
proof -
  have t': "t = dp_declared_total_count d"
    "required_pages t ps \<le> MAX_PAGES" "receipts_ok ps t rs" "n = ps * length rs" "n \<le> t" "rs = [] \<or> n < t"
    using check_total_Inr [OF t] inv by (auto simp: loop_inv_def)
  have page: "page = length rs + 1" "page \<le> MAX_PAGES" "n = sum_list (map pr_row_count rs)"
    using inv by (auto simp: loop_inv_def)
  have ok: "receipts_ok ps t rs'"
    using t' d k page by (simp add: rs'_def receipts_ok_snoc receipt_ok_def page_receipt_of_def page_ok_def)
  have sum: "n' = sum_list (map pr_row_count rs')"
    using page by (simp add: n'_def rs'_def page_receipt_of_def)
  have le: "n' \<le> t" using k t' by (simp add: n'_def)
  have "complete ps n' rs'" if "n' = t"
  proof -
    have "t \<le> ps * (length rs + 1)" using that k t' by (simp add: n'_def)
    then have "required_pages t ps = length rs + 1"
      using t' ps by (intro required_pages_last) auto
    then show ?thesis using ok sum that page by (simp add: complete_def rs'_def)
  qed
  moreover have "loop_inv ps (page + 1) (Some t) n' rs'" if "n' < t"
  proof -
    have "length (dp_items d) = ps" using that k by (auto simp: n'_def)
    then have "n' = ps * length rs'" using t' by (simp add: n'_def rs'_def)
    moreover have "length rs' < required_pages t ps"
      using required_pages_more [OF ps] that calculation by blast
    ultimately show ?thesis
      using that ok sum page t' by (simp add: loop_inv_def rs'_def)
  qed
  ultimately show ?thesis using le by blast
qed


text \<open>
  The loop from any state that satisfies the invariant: it stops with a complete run or with an
  error after a partial run, and its state moved by at most three calls for every page left.
\<close>

definition loop_post ::
    "nat \<Rightarrow> (fetch_error \<times> page_receipt list) + (json_object list \<times> page_receipt list) \<Rightarrow> bool" where
  "loop_post ps r = (case r of
       Inl (e, rs) \<Rightarrow> partial_run ps rs
     | Inr (rows, rs) \<Rightarrow> complete ps (length rows) rs)"

lemma fetch_loop_run:
  assumes "loop_inv ps page expected (length rows) rs" and "0 < ps"
    and "fetch_loop tr build key ps page expected rows rs st = (r, st')"
  shows "loop_post ps r \<and> budget_step st st' (MAX_ATTEMPTS_PER_PAGE * (MAX_PAGES + 1 - page))"
  using assms
proof (induction "MAX_PAGES + 1 - page" arbitrary: page expected rows rs st rule: less_induct)
  case less
  let ?n = "MAX_ATTEMPTS_PER_PAGE * (MAX_PAGES + 1 - page)"
  have page: "page \<le> MAX_PAGES" using less.prems(1) by (simp add: loop_inv_def)
  have part: "partial_run ps rs" by (rule loop_inv_partial [OF less.prems(1)])
  have weaken: "budget_step a b MAX_ATTEMPTS_PER_PAGE \<Longrightarrow> budget_step a b ?n" for a b
    using page by (auto simp: budget_step_def MAX_ATTEMPTS_PER_PAGE_def)
  obtain p st1 where f: "fetch_page tr build key page ps st = (p, st1)" by fastforce
  note b = fetch_page_budget [OF f]
  show ?case
  proof (cases p)
    case (Inl e)
    then show ?thesis
      using less.prems(3) f part weaken [OF b] by (subst (asm) fetch_loop.simps) (auto simp: loop_post_def)
  next
    case (Inr d)
    note ok = fetch_page_page [OF f [unfolded Inr]]
    show ?thesis
    proof (cases "check_total expected page ps (dp_declared_total_count d)")
      case (Inl e)
      then show ?thesis
        using less.prems(3) f Inr part weaken [OF b]
        by (subst (asm) fetch_loop.simps) (auto simp: loop_post_def)
    next
      case t: (Inr t)
      show ?thesis
      proof (cases "length (dp_items d) = min ps (t - length rows)")
        case False
        then show ?thesis
          using less.prems(3) f Inr t part weaken [OF b]
          by (subst (asm) fetch_loop.simps) (auto simp: loop_post_def)
      next
        case True
        let ?rows = "rows @ dp_items d" and ?rs = "rs @ [page_receipt_of (length rs) page d]"
        note turn = loop_turn [OF less.prems(1,2) ok t True]
        show ?thesis
        proof (cases "length ?rows = t")
          case finished: True
          then have "(r, st') = (Inr (?rows, ?rs), st1)"
            using less.prems(3) f Inr t True by (subst (asm) fetch_loop.simps) simp
          then show ?thesis using turn finished weaken [OF b] by (simp add: loop_post_def)
        next
          case more: False
          then have inv: "loop_inv ps (page + 1) (Some t) (length ?rows) ?rs" using turn by auto
          then have page': "page + 1 \<le> MAX_PAGES" by (simp add: loop_inv_def)
          have rec: "fetch_loop tr build key ps (page + 1) (Some t) ?rows ?rs st1 = (r, st')"
            using less.prems(3) f Inr t True more turn page'
            by (subst (asm) fetch_loop.simps) (simp add: Let_def)
          have "loop_post ps r \<and> budget_step st1 st' (MAX_ATTEMPTS_PER_PAGE * (MAX_PAGES + 1 - (page + 1)))"
            using less.hyps [OF _ inv less.prems(2) rec] page' by simp
          moreover have "MAX_ATTEMPTS_PER_PAGE + MAX_ATTEMPTS_PER_PAGE * (MAX_PAGES + 1 - (page + 1)) = ?n"
            using page' by (simp add: MAX_ATTEMPTS_PER_PAGE_def)
          ultimately show ?thesis using budget_step_trans [OF b] by metis
        qed
      qed
    qed
  qed
qed

lemma initial_loop_inv: "loop_inv ps 1 None (length []) []"
  by (simp add: loop_inv_def MAX_PAGES_def)


lemma fetch_prices_run:
  assumes "fetch_prices tr key page_size build shape scope = (r, st)"
  shows "budget_step initial_client_state st 36
    \<and> (case r of
         Inr res \<Rightarrow> complete (nat page_size) (length (fr_rows res)) (fr_page_receipts res)
           \<and> 0 < nat page_size
           \<and> fr_call_count res = cs_count st \<and> fr_request_scope_sha256 res = scope
           \<and> fr_ordered_manifest_sha256 res = ordered_manifest_sha256 (fr_page_receipts res)
       | Inl Escaped \<Rightarrow> True
       | Inl (EncodeFailure _) \<Rightarrow> True
       | Inl (Transport e) \<Rightarrow> partial_run (nat page_size) (te_partial_page_receipts e)
           \<or> e = kamis_transport_error ''invalid_page_size'' None None None None)"
proof (cases "validate_page_size page_size")
  case (Inl e)
  then show ?thesis
    using assms by (auto simp: fetch_prices_def validate_page_size_def split: if_split_asm)
next
  case (Inr u)
  then have ps: "0 < nat page_size" by (auto simp: validate_page_size_def split: if_split_asm)
  obtain l st1 where l: "fetch_loop tr build key (nat page_size) 1 None [] [] initial_client_state = (l, st1)"
    by fastforce
  have run: "loop_post (nat page_size) l \<and> budget_step initial_client_state st1 36"
    using fetch_loop_run [OF _ ps l] initial_loop_inv [of "nat page_size"]
    by (simp add: MAX_ATTEMPTS_PER_PAGE_def MAX_PAGES_def)
  show ?thesis
    using assms Inr l run ps
    by (auto simp: fetch_prices_def loop_post_def finish_fetch_error_def use_request_shape_def
          retain_completed_pages_def split: sum.splits prod.splits fetch_error.splits)
qed

text \<open>
  C10: whatever the server answers and whatever the page size, one invocation makes at most
  twelve calls, opens at most one request for each of them and pauses at most once after each.
\<close>

theorem fetch_is_bounded:
  "let st = snd (fetch_prices tr key page_size build shape scope)
   in cs_count st \<le> 12 \<and> length (cs_requests st) \<le> cs_count st \<and> length (cs_sleeps st) \<le> cs_count st"
proof -
  obtain r st where run: "fetch_prices tr key page_size build shape scope = (r, st)" by fastforce
  then have "budget_step initial_client_state st 36" using fetch_prices_run by blast
  then show ?thesis
    by (auto simp: run budget_step_def initial_client_state_def MAX_CALLS_def)
qed

text \<open>
  C9: a successful fetch is complete. Its receipts are pages 1, 2, ... without a gap, as many as
  the declared total needs and at most twelve; every page repeats the requested number and size
  and the same total, which is the number of rows returned; every page but the last is full; the
  calls lie between the number of pages and twelve.
\<close>

theorem successful_fetch_is_complete:
  assumes "fetch_prices tr key page_size build shape scope = (Inr res, st)"
  shows "let n = length (fr_rows res); rs = fr_page_receipts res
    in receipts_ok (nat page_size) n rs \<and> n = sum_list (map pr_row_count rs)
       \<and> length rs = required_pages n (nat page_size) \<and> 1 \<le> length rs \<and> length rs \<le> 12
       \<and> fr_call_count res = cs_count st \<and> cs_count st \<le> 12
       \<and> fr_ordered_manifest_sha256 res = ordered_manifest_sha256 rs"
proof -
  have "complete (nat page_size) (length (fr_rows res)) (fr_page_receipts res)"
    "fr_call_count res = cs_count st" "budget_step initial_client_state st 36"
    "fr_ordered_manifest_sha256 res = ordered_manifest_sha256 (fr_page_receipts res)"
    using fetch_prices_run [OF assms] by auto
  then show ?thesis
    by (auto simp: Let_def complete_def budget_step_def initial_client_state_def MAX_CALLS_def
          MAX_PAGES_def required_pages_def)
qed

section \<open>What an error shows\<close>

definition redacted_error :: "transport_error \<Rightarrow> bool" where
  "redacted_error e \<longleftrightarrow>
     te_code e \<in> set SAFE_TRANSPORT_ERROR_CODES \<union> {''unclassified_transport_error''}
     \<and> te_page_number e \<noteq> Some 0 \<and> te_attempt e \<noteq> Some 0
     \<and> (\<forall>s. te_http_status e = Some s \<longrightarrow> 100 \<le> s \<and> s \<le> 599)
     \<and> (\<forall>c. te_provider_result_code e = Some c \<longrightarrow> safe_provider_code c)
     \<and> (te_request_shape e = REDACTED_REQUEST_SHAPE
        \<or> is_safe_historical_request_shape (te_request_shape e))"

text \<open>The errors the client raises itself; those of the interpreter that escape it show what they show.\<close>

fun redacted :: "fetch_error \<Rightarrow> bool" where
  "redacted (Transport e) = redacted_error e"
| "redacted Escaped = True"
| "redacted (EncodeFailure _) = True"

lemma redacted_kamis_error [simp]: "redacted_error (kamis_transport_error code page attempt status c)"
  by (auto simp: redacted_error_def kamis_transport_error_def split: option.splits)

lemma redacted_finish: "redacted e \<Longrightarrow> redacted (finish_fetch_error shape e receipts)"
  by (cases e) (auto simp: finish_fetch_error_def use_request_shape_def retain_completed_pages_def
                      redacted_error_def)

lemma redacted_helpers:
  "validated_content_type tr h = Inl e \<Longrightarrow> redacted e"
  "content_length h = Inl e \<Longrightarrow> redacted e"
  "classify_failure page f = Inl e \<Longrightarrow> redacted e"
  "load_body tr raw page = Inl e \<Longrightarrow> redacted e"
  "require_object j code page = Inl e \<Longrightarrow> redacted e"
  "require_exact_keys obj keys page = Inl e \<Longrightarrow> redacted e"
  "require_nonnegative_int j code page = Inl e \<Longrightarrow> redacted e"
  "member obj k = Inl e \<Longrightarrow> redacted e"
  by (auto simp: validated_content_type_def content_length_def classify_failure_def load_body_def
        require_exact_keys_def member_def exc_simps
        split: header_value.split_asm prod.split_asm option.split_asm if_split_asm open_failure.split_asm
          loads_result.split_asm)
     (cases j; auto split: if_split_asm)+


lemma redacted_read_exchange: "read_exchange tr page x = Inl e \<Longrightarrow> redacted e"
  by (auto simp: read_exchange_def read_ok_response_def elim!: ebind_InlE
           split: exchange.split_asm status_value.split_asm if_split_asm option.split_asm body_read.split_asm
           dest: redacted_helpers)

lemma redacted_provider_header: "provider_header header page = Inl e \<Longrightarrow> redacted e"
  by (auto simp: provider_header_def elim!: ebind_InlE split: json.split_asm if_split_asm
           dest: redacted_helpers)

lemma redacted_require_items: "require_items xs page = Inl e \<Longrightarrow> redacted e"
  by (induction xs page rule: require_items.induct) (auto elim!: ebind_InlE)

lemma redacted_decode_body: "decode_body tr raw response code page page_size = Inl e \<Longrightarrow> redacted e"
  unfolding decode_body_def
  by (auto elim!: ebind_InlE split: if_split_asm json.split_asm dest!: redacted_helpers redacted_require_items)

lemma redacted_decode_page: "decode_page tr raw page page_size = Inl e \<Longrightarrow> redacted e"
  unfolding decode_page_def
  by (auto elim!: ebind_InlE split: sum.split_asm
           dest: redacted_helpers redacted_provider_header redacted_decode_body)

lemma redacted_request_once: "request_once tr request calls page page_size = Inl e \<Longrightarrow> redacted e"
  by (auto simp: request_once_def elim!: ebind_InlE split: sum.split_asm if_split_asm
           dest: redacted_read_exchange redacted_decode_page)

definition redacting_builder :: "request_builder \<Rightarrow> bool" where
  "redacting_builder build \<longleftrightarrow> (\<forall>key page size e. build key page size = Inl e \<longrightarrow> redacted e)"

lemma redacted_fetch_attempts:
  assumes "fetch_attempts tr build key page page_size attempt remaining prev st = (Inl e, st')"
    and "redacting_builder build"
  shows "redacted e"
  using assms
proof (induction remaining arbitrary: attempt prev st)
  case (Suc remaining)
  then show ?case
    by (auto simp: Let_def consume_def redacting_builder_def split: sum.split_asm if_split_asm
             dest: redacted_request_once)
qed (auto split: option.split_asm)

lemma redacted_check_total: "check_total expected page ps declared = Inl e \<Longrightarrow> redacted e"
  by (auto simp: check_total_def split: option.split_asm if_split_asm)

lemma redacted_fetch_loop:
  assumes "fetch_loop tr build key ps page expected rows rs st = (Inl (e, rs'), st')"
    and "redacting_builder build"
  shows "redacted e"
  using assms
proof (induction "MAX_PAGES + 1 - page" arbitrary: page expected rows rs st rule: less_induct)
  case less
  show ?case
    using less.prems
    by (subst (asm) fetch_loop.simps)
       (auto simp: Let_def fetch_page_def split: prod.split_asm sum.split_asm if_split_asm
             dest: redacted_fetch_attempts redacted_check_total intro: less.hyps [rotated])
qed

lemma redacted_fetch_prices:
  assumes "fetch_prices tr key page_size build shape scope = (Inl e, st)" and "redacting_builder build"
  shows "redacted e"
  using assms
  by (auto simp: fetch_prices_def validate_page_size_def
           split: sum.split_asm prod.split_asm if_split_asm
           intro!: redacted_finish dest: redacted_fetch_loop)

definition recent_parameters :: "pystr \<Rightarrow> nat \<Rightarrow> nat \<Rightarrow> (pystr \<times> pystr) list" where
  "recent_parameters key page page_size =
     [(lit ''serviceKey'', key), (lit ''returnType'', lit ''json''),
      (lit ''pageNo'', nat_text page), (lit ''numOfRows'', nat_text page_size)]"

lemma build_request_eq:
  "build_request key page page_size =
     (case urlencode (recent_parameters key page page_size) of
        Inl text \<Rightarrow> Inl (EncodeFailure text)
      | Inr query \<Rightarrow> Inr (get_request KAMIS_ENDPOINT query))"
  by (auto simp: build_request_def recent_parameters_def COMMON_PARAMETER_NAMES_def)

lemma build_request_clean:
  assumes "surrogate_free key"
  shows "\<exists>r. build_request key page page_size = Inr r"
proof -
  have "list_all (\<lambda>(k, v). surrogate_free k \<and> surrogate_free v) (recent_parameters key page page_size)"
    using assms by (simp add: recent_parameters_def surrogate_free_digits all_digits_nat_text)
  then obtain query where "urlencode (recent_parameters key page page_size) = Inr query"
    using urlencode_clean by blast
  then show ?thesis by (simp add: build_request_eq)
qed

lemma build_request_surrogate:
  "\<not> surrogate_free key \<Longrightarrow> build_request key page page_size = Inl (EncodeFailure key)"
  by (simp add: build_request_eq recent_parameters_def urlencode_surrogate)

lemma redacting_build_request: "redacting_builder build_request"
  by (auto simp: redacting_builder_def build_request_eq split: sum.split_asm)

text \<open>
  C11: a transport error of a fetch shows only allowlisted data: its code is one of the fixed codes, its
  status a status, its provider code at most three digits, its request shape a fixed one; and the
  receipts it carries are a contiguous run of full pages that was cut short.
\<close>

theorem failed_fetch_is_redacted:
  assumes "fetch_recent_prices tr service_key page_size = (Inl (Transport e), st)"
  shows "redacted_error e \<and> te_request_shape e = REDACTED_REQUEST_SHAPE
    \<and> partial_run (nat page_size) (te_partial_page_receipts e)"
proof (cases "normalize_service_key tr service_key")
  case (Inl e')
  then show ?thesis
    using assms by (auto simp: fetch_recent_prices_def normalize_service_key_def partial_run_def
        kamis_transport_error_def SAFE_TRANSPORT_ERROR_CODES_def redacted_error_def split: if_split_asm)
next
  case (Inr key)
  then have f: "fetch_prices tr key page_size build_request REDACTED_REQUEST_SHAPE None = (Inl (Transport e), st)"
    using assms by (simp add: fetch_recent_prices_def)
  have "redacted (Transport e)" using redacted_fetch_prices [OF f redacting_build_request] .
  moreover have "partial_run (nat page_size) (te_partial_page_receipts e)"
    using fetch_prices_run [OF f] by (auto simp: kamis_transport_error_def partial_run_def)
  moreover have "te_request_shape e = REDACTED_REQUEST_SHAPE"
    using f by (auto simp: fetch_prices_def validate_page_size_def kamis_transport_error_def
        finish_fetch_error_def use_request_shape_def
        split: sum.split_asm prod.split_asm if_split_asm fetch_error.split_asm)
  ultimately show ?thesis by simp
qed


section \<open>The credential\<close>

text \<open>Two requests for the same page and page size, with whatever credentials.\<close>

definition same_page_requests :: "http_request \<Rightarrow> http_request \<Rightarrow> bool" where
  "same_page_requests r r' \<longleftrightarrow> (\<exists>k k' page page_size.
     build_request k page page_size = Inr r \<and> build_request k' page page_size = Inr r')"

text \<open>A server whose answers do not depend on the credential.\<close>

definition blind_server :: "transport \<Rightarrow> bool" where
  "blind_server tr \<longleftrightarrow> (\<forall>r r' n. same_page_requests r r' \<longrightarrow> cl_exchange tr r n = cl_exchange tr r' n)"

definition same_builds :: "(fetch_error + http_request) \<Rightarrow> (fetch_error + http_request) \<Rightarrow> bool" where
  "same_builds a b \<longleftrightarrow> (case (a, b) of
       (Inr r, Inr r') \<Rightarrow> same_page_requests r r'
     | (Inl e, Inl e') \<Rightarrow> e = e' | _ \<Rightarrow> False)"

definition same_builders :: "request_builder \<Rightarrow> pystr \<Rightarrow> pystr \<Rightarrow> bool" where
  "same_builders build k k' \<longleftrightarrow>
     (\<forall>page page_size. same_builds (build k page page_size) (build k' page page_size))"

definition same_client :: "client_state \<Rightarrow> client_state \<Rightarrow> bool" where
  "same_client st st' \<longleftrightarrow> cs_count st = cs_count st' \<and> cs_sleeps st = cs_sleeps st'
     \<and> list_all2 same_page_requests (cs_requests st) (cs_requests st')"

definition same_run :: "('a \<times> client_state) \<Rightarrow> ('a \<times> client_state) \<Rightarrow> bool" where
  "same_run a b \<longleftrightarrow> fst a = fst b \<and> same_client (snd a) (snd b)"

lemma fetch_attempts_same:
  assumes "blind_server tr" and "same_builders build k k'"
    and "same_client st st'"
  shows "same_run (fetch_attempts tr build k page ps attempt remaining prev st)
                  (fetch_attempts tr build k' page ps attempt remaining prev st')"
  using assms(3)
proof (induction remaining arbitrary: attempt prev st st')
  case (Suc remaining)
  have b: "same_builds (build k page ps) (build k' page ps)"
    using assms(2) by (simp add: same_builders_def)
  show ?case
  proof (cases "MAX_CALLS \<le> cs_count st")
    case True
    then show ?thesis using Suc.prems by (simp add: consume_def same_run_def same_client_def)
  next
    case False
    have c: "cs_count st' = cs_count st" using Suc.prems by (simp add: same_client_def)
    show ?thesis
    proof (cases "build k page ps")
      case (Inl e)
      then have "build k' page ps = Inl e" using b by (auto simp: same_builds_def split: sum.split_asm)
      then show ?thesis using Inl False c Suc.prems by (simp add: consume_def same_run_def same_client_def)
    next
      case (Inr r)
      then obtain r' where r': "build k' page ps = Inr r'" "same_page_requests r r'"
        using b by (auto simp: same_builds_def split: sum.split_asm)
      have "cl_exchange tr r' n = cl_exchange tr r n" for n
        using assms(1) r'(2) unfolding blind_server_def by metis
      then have once: "request_once tr r' n page ps = request_once tr r n page ps" for n
        by (simp add: request_once_def)
      let ?st = "\<lambda>x q. x\<lparr>cs_count := cs_count x + 1, cs_requests := cs_requests x @ [q]\<rparr>"
      let ?pause = "\<lambda>x. if attempt < MAX_ATTEMPTS_PER_PAGE
        then x\<lparr>cs_sleeps := cs_sleeps x @ [RETRY_DELAYS ! (attempt - 1)]\<rparr> else x"
      have st: "same_client (?st st r) (?st st' r')" "same_client (?pause (?st st r)) (?pause (?st st' r'))"
        using Suc.prems r' by (auto simp: same_client_def list_all2_appendI)
      show ?thesis
      proof (cases "\<exists>x. request_once tr r (cs_count st + 1) page ps = Inr (Inr x)")
        case True
        then obtain x where x: "request_once tr r (cs_count st + 1) page ps = Inr (Inr x)" by blast
        then show ?thesis
          using Suc.IH [OF st(2), of "attempt + 1" "Some x"] x Inr r' False c
          by (cases "attempt < MAX_ATTEMPTS_PER_PAGE"; subst (1 2) fetch_attempts.simps(2))
             (simp_all add: consume_def once Let_def del: fetch_attempts.simps)
      next
        case no: False
        then obtain out where out: "request_once tr r (cs_count st + 1) page ps = Inl out
            \<or> (\<exists>d. request_once tr r (cs_count st + 1) page ps = Inr (Inl d))"
          by (cases "request_once tr r (cs_count st + 1) page ps") (auto, metis sum.exhaust)
        then show ?thesis
          using st(1) Inr r' False c
          by (subst (1 2) fetch_attempts.simps(2))
             (auto simp: consume_def once Let_def same_run_def simp del: fetch_attempts.simps)
      qed
    qed
  qed
qed (auto simp: same_run_def split: option.split)

lemma fetch_loop_same:
  assumes "blind_server tr" and "same_builders build k k'"
    and "same_client st st'"
  shows "same_run (fetch_loop tr build k ps page expected rows rs st)
                  (fetch_loop tr build k' ps page expected rows rs st')"
  using assms(3)
proof (induction "MAX_PAGES + 1 - page" arbitrary: page expected rows rs st st' rule: less_induct)
  case less
  obtain p st1 where f: "fetch_page tr build k page ps st = (p, st1)" by fastforce
  obtain p' st1' where f': "fetch_page tr build k' page ps st' = (p', st1')" by fastforce
  have eq: "p' = p" "same_client st1 st1'"
    using fetch_attempts_same [OF assms(1,2) less.prems] f f' unfolding fetch_page_def same_run_def
    by (metis fst_conv snd_conv)+
  have ih: "same_run (fetch_loop tr build k ps (page + 1) ex rw rc st1)
                     (fetch_loop tr build k' ps (page + 1) ex rw rc st1')"
    if "\<not> MAX_PAGES < page + 1" for ex rw rc
    by (rule less.hyps [OF _ eq(2)]) (use that in simp)
  show ?case
    using eq f f' ih
    by (subst (1 2) fetch_loop.simps)
       (auto simp: Let_def same_run_def split: sum.split)
qed


lemma same_builders_recent:
  assumes "surrogate_free k" and "surrogate_free k'"
  shows "same_builders build_request k k'"
  unfolding same_builders_def
proof (intro allI)
  fix page page_size
  obtain r r' where "build_request k page page_size = Inr r" "build_request k' page page_size = Inr r'"
    using build_request_clean assms by metis
  then show "same_builds (build_request k page page_size) (build_request k' page page_size)"
    by (auto simp: same_builds_def same_page_requests_def)
qed

lemma unencodable_credential:
  assumes "normalize_service_key tr service_key = Inr key" and "\<not> surrogate_free key"
    and "1 \<le> page_size" and "page_size \<le> 1000"
  shows "fetch_recent_prices tr service_key page_size
    = (Inl (EncodeFailure key), initial_client_state\<lparr>cs_count := 1\<rparr>)"
proof -
  have "fetch_page tr build_request key 1 (nat page_size) initial_client_state
      = (Inl (EncodeFailure key), initial_client_state\<lparr>cs_count := 1\<rparr>)"
    by (simp add: fetch_page_def MAX_ATTEMPTS_PER_PAGE_def numeral_3_eq_3 consume_def MAX_CALLS_def
        initial_client_state_def build_request_surrogate [OF assms(2)])
  then have "fetch_loop tr build_request key (nat page_size) 1 None [] [] initial_client_state
      = (Inl (EncodeFailure key, []), initial_client_state\<lparr>cs_count := 1\<rparr>)"
    by (subst fetch_loop.simps) simp
  then show ?thesis
    using assms(3,4)
    by (simp add: fetch_recent_prices_def assms(1) fetch_prices_def validate_page_size_def MAX_PAGE_SIZE_def
        finish_fetch_error_def)
qed

text \<open>
  C12: when the credential does not leak, and when it does. Against a server that answers alike
  whatever credential it is shown, two invocations whose credentials UTF-8 can encode end alike: the
  same result or the same error, the same number of calls, the same pauses, and the same pages
  requested. A credential with a lone surrogate, though, ends the fetch before any request is
  opened with the interpreter's encoding error, whose object is that credential.
\<close>

theorem encodable_credential_does_not_leak:
  assumes "blind_server tr" and "normalize_service_key tr key1 = Inr k1"
    and "normalize_service_key tr key2 = Inr k2"
  shows "(surrogate_free k1 \<and> surrogate_free k2 \<longrightarrow>
      same_run (fetch_recent_prices tr key1 page_size) (fetch_recent_prices tr key2 page_size))
    \<and> (\<not> surrogate_free k1 \<and> 1 \<le> page_size \<and> page_size \<le> 1000 \<longrightarrow>
      fetch_recent_prices tr key1 page_size
        = (Inl (EncodeFailure k1), initial_client_state\<lparr>cs_count := 1\<rparr>))"
proof (intro conjI impI)
  assume clean: "surrogate_free k1 \<and> surrogate_free k2"
  have loop: "same_run (fetch_loop tr build_request k1 ps 1 None [] [] initial_client_state)
      (fetch_loop tr build_request k2 ps 1 None [] [] initial_client_state)" for ps
    by (rule fetch_loop_same [OF assms(1) same_builders_recent])
       (simp_all add: clean same_client_def initial_client_state_def)
  show "same_run (fetch_recent_prices tr key1 page_size) (fetch_recent_prices tr key2 page_size)"
    using loop [of "nat page_size"]
    by (auto simp: fetch_recent_prices_def assms(2,3) fetch_prices_def same_run_def same_client_def
             initial_client_state_def split: sum.split prod.split)
next
  assume "\<not> surrogate_free k1 \<and> 1 \<le> page_size \<and> page_size \<le> 1000"
  then show "fetch_recent_prices tr key1 page_size
      = (Inl (EncodeFailure k1), initial_client_state\<lparr>cs_count := 1\<rparr>)"
    using unencodable_credential [OF assms(2)] by blast
qed

section \<open>A concrete server\<close>

text \<open>
  A server of three rows in pages of two: the body of page \<open>n\<close> is the one byte \<open>n\<close>, which the
  stub of \<open>json.loads\<close> maps to the envelope of that page.
\<close>

definition example_page_json :: "nat \<Rightarrow> json list \<Rightarrow> json" where
  "example_page_json n items = JObj [(lit ''response'', JObj
     [(lit ''header'', JObj [(lit ''resultCode'', JStr (lit ''0'')), (lit ''resultMsg'', JStr (lit ''OK''))]),
      (lit ''body'', JObj
        [(lit ''dataType'', JStr (lit ''JSON'')), (lit ''items'', JObj [(lit ''item'', JArr items)]),
         (lit ''numOfRows'', JInt 2), (lit ''pageNo'', JInt (int n)), (lit ''totalCount'', JInt 3)])])]"

definition first_page_request :: "http_request \<Rightarrow> bool" where
  "first_page_request r \<longleftrightarrow> ends_with (lit ''&pageNo=1&numOfRows=2'') (rq_url r)"

definition example_transport :: transport where
  "example_transport =
     \<lparr>cl_exchange = (\<lambda>request calls. Opened
        \<lparr>rsp_status = StatusInt 200, rsp_content_type = HeaderText (lit ''json''),
         rsp_content_length = HeaderMissing,
         rsp_read = ReadBytes [if first_page_request request then 1 else 2]\<rparr>),
      cl_loads = (\<lambda>bytes. if bytes = [1]
        then Loaded (example_page_json 1 [JObj [(lit ''a'', JInt 1)], JObj [(lit ''a'', JInt 2)]])
        else Loaded (example_page_json 2 [JObj [(lit ''a'', JInt 3)]])),
      cl_content_type = (\<lambda>_. (lit ''application/json'', Some (lit ''UTF-8''))),
      cl_unquote = (\<lambda>s. s)\<rparr>"

lemma example_headers:
  "validated_content_type example_transport (HeaderText t) = Inr (lit ''application/json'')"
proof -
  have "ascii_lower (lit ''application/json'') = lit ''application/json''"
    "is_ascii (lit ''UTF-8'')" "map (\<lambda>x. if x = 95 then 45 else x) (ascii_lower (lit ''UTF-8'')) = lit ''utf-8''"
    by (simp_all add: ascii_lower_def is_ascii_def lit_def is_upper_def)
  then show ?thesis by (simp add: validated_content_type_def example_transport_def)
qed

lemma example_provider_header:
  "provider_header [(lit ''resultCode'', JStr (lit ''0'')), (lit ''resultMsg'', JStr (lit ''OK''))] n
     = Inr (Inl (lit ''0''))"
  by (simp add: provider_header_def member_def) (simp add: safe_provider_code_def lit_def all_digits_def is_digit_def)

definition example_decoded :: "nat \<Rightarrow> json_object list \<Rightarrow> nat list \<Rightarrow> decoded_page" where
  "example_decoded n items raw =
     \<lparr>dp_items = items, dp_declared_page_number = n, dp_declared_page_size = 2,
      dp_declared_total_count = 3, dp_provider_result_code = lit ''0'', dp_byte_length = length raw,
      dp_body_sha256 = sha256 raw\<rparr>"

lemma example_decode:
  "cl_loads tr raw = Loaded (example_page_json n (map JObj items)) \<Longrightarrow> list_all (unique_keys \<circ> JObj) items
     \<Longrightarrow> decode_page tr raw n 2 = Inr (Inl (example_decoded n items raw))"
proof -
  assume "cl_loads tr raw = Loaded (example_page_json n (map JObj items))" "list_all (unique_keys \<circ> JObj) items"
  moreover have "require_items (map JObj items) n = Inr items" by (induction items) auto
  ultimately show ?thesis
    by (auto simp: decode_page_def load_body_def example_page_json_def list.pred_map comp_def
          require_exact_keys_def SUCCESS_TOP_LEVEL_KEYS_def SUCCESS_RESPONSE_KEYS_def HEADER_KEYS_def
          BODY_KEYS_def ITEMS_KEYS_def member_def example_provider_header decode_body_def example_decoded_def)
qed


definition example_rows :: "nat \<Rightarrow> json_object list" where
  "example_rows n = (if n = 1 then [[(lit ''a'', JInt 1)], [(lit ''a'', JInt 2)]] else [[(lit ''a'', JInt 3)]])"

definition example_page :: "nat \<Rightarrow> decoded_page" where
  "example_page n = example_decoded n (example_rows n) [n]"

text \<open>The URL of a request ends with the page and its size, whatever the credential.\<close>

definition url_tail :: "nat \<Rightarrow> nat \<Rightarrow> pystr" where
  "url_tail page page_size =
     lit ''&returnType=json&pageNo='' @ nat_text page @ lit ''&numOfRows='' @ nat_text page_size"

lemma quote_plus_names:
  "quote_plus (lit ''serviceKey'') = Inr (lit ''serviceKey'')" "quote_plus (lit ''returnType'') = Inr (lit ''returnType'')"
  "quote_plus (lit ''json'') = Inr (lit ''json'')" "quote_plus (lit ''pageNo'') = Inr (lit ''pageNo'')"
  "quote_plus (lit ''numOfRows'') = Inr (lit ''numOfRows'')" "quote_plus (lit ''key'') = Inr (lit ''key'')"
  by (simp_all add: quote_plus_def lit_def utf8_char_def quote_byte_def url_safe_byte_def is_digit_def
      is_upper_def is_lower_def)

lemma build_request_url:
  assumes "build_request key page page_size = Inr r"
  shows "\<exists>front. rq_url r = front @ url_tail page page_size"
proof -
  obtain query where query: "urlencode (recent_parameters key page page_size) = Inr query"
    and r: "r = get_request KAMIS_ENDPOINT query"
    using assms by (auto simp: build_request_eq split: sum.split_asm)
  obtain k where "quote_plus key = Inr k"
    using query by (auto simp: urlencode_def recent_parameters_def exc_simps)
  then have "query = lit ''serviceKey'' @ [61] @ k @ url_tail page page_size"
    using query
    by (simp add: urlencode_def recent_parameters_def quote_plus_names quote_plus_digits all_digits_nat_text
        url_tail_def) (simp add: lit_def)
  then show ?thesis by (intro exI [of _ "KAMIS_ENDPOINT @ [63] @ lit ''serviceKey'' @ [61] @ k"]) (simp add: r get_request_def)
qed

lemma ends_with_append:
  assumes "length suffix \<le> length t"
  shows "ends_with suffix (s @ t) \<longleftrightarrow> ends_with suffix t"
proof -
  have "length s + length t - length suffix = length s + (length t - length suffix)" using assms by simp
  then show ?thesis using assms by (simp add: ends_with_def)
qed

lemma first_page_request_tail:
  assumes "build_request key page page_size = Inr r"
  shows "first_page_request r \<longleftrightarrow> ends_with (lit ''&pageNo=1&numOfRows=2'') (url_tail page page_size)"
proof -
  have "length (lit ''&pageNo=1&numOfRows=2'') \<le> length (url_tail page page_size)"
    by (simp add: url_tail_def)
  then show ?thesis
    using build_request_url [OF assms] by (auto simp: first_page_request_def ends_with_append)
qed

lemma page_texts: "nat_text 1 = lit ''1''" "nat_text 2 = lit ''2''"
  by (subst nat_text.simps, simp add: lit_def digit_char_def)+

lemma first_page_request_iff:
  assumes "build_request key n 2 = Inr r" and "n = 1 \<or> n = 2"
  shows "first_page_request r \<longleftrightarrow> n = 1"
proof -
  have "ends_with (lit ''&pageNo=1&numOfRows=2'') (url_tail 1 2)"
    "\<not> ends_with (lit ''&pageNo=1&numOfRows=2'') (url_tail 2 2)"
    unfolding url_tail_def page_texts by (simp_all add: ends_with_def lit_def)
  then show ?thesis using first_page_request_tail [OF assms(1)] assms(2) by auto
qed

lemma example_request_once:
  assumes "n = 1 \<or> n = 2" and "build_request key n 2 = Inr r"
  shows "request_once example_transport r calls n 2 = Inr (Inl (example_page n))"
proof -
  have d: "decode_page example_transport [n] n 2 = Inr (Inl (example_page n))"
    unfolding example_page_def
    by (rule example_decode) (use assms in \<open>auto simp: example_transport_def example_rows_def\<close>)
  have h: "validated_content_type example_transport (HeaderText (lit ''json'')) = Inr (lit ''application/json'')"
    by (rule example_headers)
  have x: "read_exchange example_transport n (cl_exchange example_transport r calls) = Inr (Inl [n])"
    using assms h first_page_request_iff [OF assms(2,1)]
    by (auto simp: read_exchange_def read_ok_response_def content_length_def example_transport_def)
  show ?thesis by (simp add: request_once_def x d MAX_PAGE_BYTES_def)
qed

lemma fetch_page_first:
  assumes "cs_count st < MAX_CALLS" and "build key page ps = Inr r"
    and "request_once tr r (cs_count st + 1) page ps = Inr (Inl d)"
  shows "fetch_page tr build key page ps st
    = (Inr d, st\<lparr>cs_count := cs_count st + 1, cs_requests := cs_requests st @ [r]\<rparr>)"
proof -
  have three: "fetch_page tr build key page ps st = fetch_attempts tr build key page ps 1 (Suc 2) None st"
    by (simp add: fetch_page_def MAX_ATTEMPTS_PER_PAGE_def numeral_3_eq_3 numeral_2_eq_2)
  show ?thesis
    unfolding three using assms by (subst fetch_attempts.simps(2)) (simp add: consume_def Let_def)
qed

lemma example_fetch_page:
  assumes "n = 1 \<or> n = 2" and "cs_count st < MAX_CALLS" and "surrogate_free key"
  shows "\<exists>st'. fetch_page example_transport build_request key n 2 st = (Inr (example_page n), st')
    \<and> cs_count st' = cs_count st + 1"
proof -
  obtain r where r: "build_request key n 2 = Inr r" using build_request_clean [OF assms(3)] by blast
  show ?thesis
    using fetch_page_first [where tr = example_transport and build = build_request, OF assms(2) r
        example_request_once [OF assms(1) r]] by auto
qed

lemma example_fetch:
  "\<exists>res st. fetch_recent_prices example_transport (lit ''key'') 2 = (Inr res, st)
     \<and> length (fr_rows res) = 3 \<and> length (fr_page_receipts res) = 2"
proof -
  obtain st1 where p1: "fetch_page example_transport build_request (lit ''key'') 1 2 initial_client_state
      = (Inr (example_page 1), st1)" and c1: "cs_count st1 = 1"
    using example_fetch_page [of 1 initial_client_state "lit ''key''"]
    by (auto simp: initial_client_state_def MAX_CALLS_def)
  obtain st2 where p2: "fetch_page example_transport build_request (lit ''key'') 2 2 st1
      = (Inr (example_page 2), st2)"
    using example_fetch_page [of 2 st1 "lit ''key''"] c1 by (auto simp: MAX_CALLS_def)
  have loop: "\<exists>rows rs. fetch_loop example_transport build_request (lit ''key'') 2 1 None [] [] initial_client_state
      = (Inr (rows, rs), st2) \<and> length rows = 3 \<and> length rs = 2"
    apply (subst fetch_loop.simps)
    apply (simp only: p1 prod.case sum.case)
    apply (simp add: example_page_def example_decoded_def check_total_def required_pages_def MAX_PAGES_def
        example_rows_def Let_def)
    apply (subst fetch_loop.simps)
    apply (simp add: p2 [unfolded numeral_2_eq_2] numeral_2_eq_2)
    apply (simp add: example_page_def example_decoded_def check_total_def example_rows_def Let_def)
    done
  have key: "normalize_service_key example_transport (lit ''key'') = Inr (lit ''key'')"
    by (simp add: normalize_service_key_def example_transport_def)
  show ?thesis
    using loop by (auto simp: fetch_recent_prices_def key fetch_prices_def validate_page_size_def MAX_PAGE_SIZE_def)
qed


lemma example_key: "normalize_service_key example_transport (lit ''key'') = Inr (lit ''key'')"
  by (simp add: normalize_service_key_def example_transport_def)

lemma successful_fetch_is_complete_witness:
  "\<exists>res st. fetch_prices example_transport (lit ''key'') 2 build_request REDACTED_REQUEST_SHAPE None = (Inr res, st)
     \<and> length (fr_rows res) = 3 \<and> receipts_ok 2 3 (fr_page_receipts res)"
proof -
  obtain res st where f: "fetch_recent_prices example_transport (lit ''key'') 2 = (Inr res, st)"
    and n: "length (fr_rows res) = 3" using example_fetch by blast
  then have p: "fetch_prices example_transport (lit ''key'') 2 build_request REDACTED_REQUEST_SHAPE None = (Inr res, st)"
    by (simp add: fetch_recent_prices_def example_key)
  show ?thesis using p n successful_fetch_is_complete [OF p] by (auto simp: Let_def)
qed

definition untrusted_transport :: transport where
  "untrusted_transport = example_transport\<lparr>cl_exchange := (\<lambda>_ _. OpenRaises CertificateFailure)\<rparr>"

lemma failed_fetch_is_redacted_witness:
  "\<exists>e st. fetch_recent_prices untrusted_transport (lit ''key'') 2 = (Inl (Transport e), st)
     \<and> te_code e = ''tls_verification_failed'' \<and> redacted_error e"
proof -
  have once: "request_once untrusted_transport r n 1 2
      = Inl (Transport (kamis_transport_error ''tls_verification_failed'' (Some 1) None None None))" for r n
    by (simp add: request_once_def read_exchange_def untrusted_transport_def classify_failure_def)
  obtain r where r: "build_request (lit ''key'') 1 2 = Inr r"
    using build_request_clean [of "lit ''key''"] by auto
  have "fetch_page untrusted_transport build_request (lit ''key'') 1 2 initial_client_state
      = (Inl (Transport (kamis_transport_error ''tls_verification_failed'' (Some 1) None None None)),
         initial_client_state\<lparr>cs_count := 1, cs_requests := [r]\<rparr>)"
    using r by (simp add: fetch_page_def MAX_ATTEMPTS_PER_PAGE_def numeral_3_eq_3 consume_def
        once [simplified] initial_client_state_def MAX_CALLS_def Let_def)
  then have "\<exists>e st. fetch_recent_prices untrusted_transport (lit ''key'') 2 = (Inl (Transport e), st)
      \<and> te_code e = ''tls_verification_failed''"
    by (simp add: fetch_recent_prices_def normalize_service_key_def untrusted_transport_def
        example_transport_def fetch_prices_def validate_page_size_def MAX_PAGE_SIZE_def fetch_loop.simps
        finish_fetch_error_def use_request_shape_def retain_completed_pages_def kamis_transport_error_def
        SAFE_TRANSPORT_ERROR_CODES_def)
  then show ?thesis using failed_fetch_is_redacted by blast
qed

lemma example_blind: "blind_server example_transport"
proof -
  have "first_page_request r \<longleftrightarrow> first_page_request r'" if "same_page_requests r r'" for r r'
    using that unfolding same_page_requests_def by (metis first_page_request_tail)
  then show ?thesis by (auto simp: blind_server_def example_transport_def)
qed

lemma encodable_credential_does_not_leak_witness:
  "same_run (fetch_recent_prices example_transport (lit ''key'') 2)
            (fetch_recent_prices example_transport (lit ''other'') 2)
   \<and> fst (fetch_recent_prices example_transport [107, 56512] 2) = Inl (EncodeFailure [107, 56512])"
proof -
  have key: "normalize_service_key example_transport k = Inr k" if "k \<noteq> []" for k
    using that by (simp add: normalize_service_key_def example_transport_def)
  have keys: "lit ''key'' \<noteq> []" "lit ''other'' \<noteq> []" "[107, 56512] \<noteq> ([] :: pystr)"
    "\<not> surrogate_free [107, 56512]" by (simp_all add: surrogate_def)
  show ?thesis
    using encodable_credential_does_not_leak [OF example_blind key [OF keys(1)] key [OF keys(2)], of 2]
      encodable_credential_does_not_leak [OF example_blind key [OF keys(3)] key [OF keys(2)], of 2] keys(4)
    by auto
qed

end
