(* ===== verification/Fetch_Outcomes.thy ===== *)
theory Fetch_Outcomes
  imports Fetch_Evidence Kamis_Client_Proofs
begin

text \<open>
  How the client and its persistence fit together: every result the client can return for the
  approved configuration is accepted, stored and reconciled, and replaying it changes nothing;
  every error has one classification; and exactly which errors leave evidence that can be kept.
\<close>

section \<open>What a result of the client looks like\<close>

lemma fetch_loop_calls:
  "fetch_loop tr build key ps page expected rows rs st = (Inr (rows', rs'), st')
     \<Longrightarrow> cs_count st + length rs' \<le> cs_count st' + length rs"
proof (induction "MAX_PAGES + 1 - page" arbitrary: page expected rows rs st rule: less_induct)
  case less
  obtain d st1 where f: "fetch_page tr build key page ps st = (Inr d, st1)"
    and run: "(rows', rs') = (rows @ dp_items d, rs @ [page_receipt_of (length rs) page d]) \<and> st' = st1
      \<or> page + 1 \<le> MAX_PAGES
        \<and> (\<exists>t. fetch_loop tr build key ps (page + 1) (Some t) (rows @ dp_items d)
              (rs @ [page_receipt_of (length rs) page d]) st1 = (Inr (rows', rs'), st'))"
    using less.prems
    by (subst (asm) fetch_loop.simps) (auto simp: Let_def split: prod.split_asm sum.split_asm if_split_asm)
  have "cs_count st < cs_count st1"
    using f unfolding fetch_page_def by (rule fetch_attempts_progress)
  moreover have "cs_count st1 + length rs' \<le> cs_count st' + Suc (length rs)" if "page + 1 \<le> MAX_PAGES"
    "fetch_loop tr build key ps (page + 1) (Some t) (rows @ dp_items d)
       (rs @ [page_receipt_of (length rs) page d]) st1 = (Inr (rows', rs'), st')" for t
    using less.hyps [OF _ that(2)] that(1) by simp
  ultimately show ?case using run by fastforce
qed

definition client_result :: "kamis_fetch_result \<Rightarrow> bool" where
  "client_result result \<longleftrightarrow>
     (\<exists>ps. 0 < ps \<and> ps \<le> 1000 \<and> complete ps (length (fr_rows result)) (fr_page_receipts result))
     \<and> length (fr_page_receipts result) \<le> fr_call_count result \<and> fr_call_count result \<le> 12
     \<and> fr_request_scope_sha256 result = None
     \<and> fr_ordered_manifest_sha256 result = ordered_manifest_sha256 (fr_page_receipts result)"

lemma fetch_recent_prices_result:
  assumes "fetch_recent_prices tr key page_size = (Inr result, cs)"
  shows "client_result result"
proof -
  obtain k where run: "fetch_prices tr k page_size build_request REDACTED_REQUEST_SHAPE None = (Inr result, cs)"
    using assms by (auto simp: fetch_recent_prices_def split: sum.split_asm)
  then obtain rs where loop: "fetch_loop tr build_request k (nat page_size) 1 None [] [] initial_client_state
      = (Inr (fr_rows result, rs), cs)" "rs = fr_page_receipts result" and size: "1 \<le> page_size" "page_size \<le> 1000"
    by (auto simp: fetch_prices_def validate_page_size_def MAX_PAGE_SIZE_def split: sum.split_asm prod.split_asm if_split_asm)
  have "length rs \<le> cs_count cs"
    using fetch_loop_calls [OF loop(1)] by (simp add: initial_client_state_def)
  then show ?thesis
    using fetch_prices_run [OF run] loop(2) size
    unfolding client_result_def budget_step_def initial_client_state_def MAX_CALLS_def
    by (intro conjI exI [of _ "nat page_size"]) auto
qed

section \<open>Storing the receipts\<close>

lemma bulk_create_receipts_ok:
  assumes "\<forall>r \<in> set rs. stored_receipt_columns r \<and> stored_receipt_constraints r
             \<and> rc_fetch_attempt r \<in> fa_id ` set (db_attempts db)"
    and "\<forall>r \<in> set rs. \<forall>x \<in> set (db_receipts db). \<not> receipt_clashes r x"
    and "sorted_wrt (\<lambda>x r. \<not> receipt_clashes r x) rs"
  shows "bulk_create_receipts rs db = Inr (db\<lparr>db_receipts := db_receipts db @ rs\<rparr>)"
  using assms
proof (induction rs arbitrary: db)
  case (Cons r rs)
  have "bulk_create_receipts rs (db\<lparr>db_receipts := db_receipts db @ [r]\<rparr>)
      = Inr (db\<lparr>db_receipts := db_receipts db @ r # rs\<rparr>)"
    using Cons.IH [of "db\<lparr>db_receipts := db_receipts db @ [r]\<rparr>"] Cons.prems by simp
  then show ?case using Cons.prems by (simp add: list_ex_iff)
qed simp

lemma contiguous_nth: "contiguous_from_one ns \<Longrightarrow> i < length ns \<Longrightarrow> ns ! i = Suc i"
  by (metis contiguous_from_one_def add.commute length_upt nth_upt plus_1_eq_Suc add_diff_cancel_right' nat_add_left_cancel_less)

lemma contiguous_sorted: "contiguous_from_one ns \<Longrightarrow> sorted ns"
  by (metis contiguous_from_one_def sorted_upt)

text \<open>Receipts of the client are rows the database accepts.\<close>

lemma candidate_columns:
  assumes "receipt_ok ps t r" and "ps \<le> 1000" and "t \<le> 12000" and "0 < pr_ordinal r" and "pr_ordinal r \<le> 12"
  shows "stored_receipt_columns (page_receipt_candidate ids now a r)
    \<and> stored_receipt_constraints (page_receipt_candidate ids now a r)
    \<and> artifact_page (page_receipt_candidate ids now a r)"
  using assms SHA256_PATTERN_length [of "pr_body_sha256 r"]
  by (auto simp: receipt_ok_def stored_receipt_columns_def stored_receipt_constraints_def
      receipt_body_fields_valid_def page_receipt_candidate_def small_field_def integer_field_def
      blank_field_def MAX_PAGE_BYTES_def SHA256_PATTERN_def artifact_page_def sha256_text_def)

lemma candidates_clash_free:
  assumes "contiguous_from_one (map pr_ordinal rs)" and "\<forall>r \<in> set rs. pr_requested_page_number r = pr_ordinal r"
    and "inj_on ids {1..12}" and "length rs \<le> 12"
  shows "sorted_wrt (\<lambda>x r. \<not> receipt_clashes r x) (map (page_receipt_candidate ids now a) rs)"
proof -
  have ord: "pr_ordinal (rs ! i) = Suc i" if "i < length rs" for i
    using contiguous_nth [OF assms(1), of i] that by simp
  have "\<not> receipt_clashes (page_receipt_candidate ids now a (rs ! j)) (page_receipt_candidate ids now a (rs ! i))"
    if "i < j" "j < length rs" for i j
  proof -
    have "ids (Suc i) \<noteq> ids (Suc j)"
      using that assms(4) inj_onD [OF assms(3), of "Suc i" "Suc j"] by auto
    then show ?thesis
      using that ord [of i] ord [of j] assms(2) by (simp add: receipt_clashes_def page_receipt_candidate_def)
  qed
  then show ?thesis by (simp add: sorted_wrt_iff_nth_less)
qed

section \<open>Completing with a result of the client\<close>

text \<open>The budgets of the approved configuration, which are the limits of the client.\<close>

definition client_budgets :: "source_configuration \<Rightarrow> bool" where
  "client_budgets source \<longleftrightarrow>
     sc_max_requests_per_attempt source = MAX_CALLS \<and> sc_max_pages_per_attempt source = MAX_PAGES
     \<and> sc_max_page_bytes source = MAX_PAGE_BYTES \<and> sc_max_retries source + 1 = MAX_ATTEMPTS_PER_PAGE"

lemma effective_contract:
  assumes "effective_view source db = Inr (EXPECTED_CONTRACT_FIELDS k t)"
  shows "client_budgets source"
    "sc_artifact_source_identity source = sc_artifact_source_identity (EXPECTED_CONTRACT_FIELDS k t)"
    "sc_state source = ACTIVE" "sc_publication_mode source = RECENT_COMPARISON"
proof -
  obtain x y where "source\<lparr>sc_state_changed_at := x, sc_rights_confirmed_at := y\<rparr> = EXPECTED_CONTRACT_FIELDS k t"
    using assms by (auto simp: effective_view_def elim!: ebind_InrE)
  then have eq: "f (source\<lparr>sc_state_changed_at := x, sc_rights_confirmed_at := y\<rparr>) = f (EXPECTED_CONTRACT_FIELDS k t)"
    for f :: "source_configuration \<Rightarrow> 'b"
    by simp
  show "client_budgets source"
    using eq [of sc_max_requests_per_attempt] eq [of sc_max_pages_per_attempt]
      eq [of sc_max_page_bytes] eq [of sc_max_retries]
    by (simp add: client_budgets_def EXPECTED_CONTRACT_FIELDS_def MAX_ATTEMPTS_PER_PAGE_def)
  show "sc_artifact_source_identity source = sc_artifact_source_identity (EXPECTED_CONTRACT_FIELDS k t)"
    using eq [of sc_artifact_source_identity] by (simp add: sc_artifact_source_identity_def)
  show "sc_state source = ACTIVE" "sc_publication_mode source = RECENT_COMPARISON"
    using eq [of sc_state] eq [of sc_publication_mode] by (simp_all add: EXPECTED_CONTRACT_FIELDS_def)
qed

lemma contract_identity: "char_field 512 (sc_artifact_source_identity (EXPECTED_CONTRACT_FIELDS k t))"
  by (simp add: char_field_def sc_artifact_source_identity_def EXPECTED_CONTRACT_FIELDS_def
      KAMIS_DATASET_ID_def KAMIS_INTERFACE_REVISION_def KAMIS_RETAIL_COVERAGE_IDENTITY_def)

lemma complete_facts:
  assumes "complete ps n rs" and "ps \<le> 1000"
  shows "rs \<noteq> []" "length rs \<le> 12" "n \<le> 12000" "n = sum_list (map pr_row_count rs)"
    "contiguous_from_one (map pr_ordinal rs)" "\<forall>r \<in> set rs. receipt_ok ps n r"
    "\<forall>r \<in> set rs. 0 < pr_ordinal r \<and> pr_ordinal r \<le> 12"
    "contiguous_from_one (map pr_requested_page_number rs)"
proof -
  show c: "contiguous_from_one (map pr_ordinal rs)" "\<forall>r \<in> set rs. receipt_ok ps n r"
    "n = sum_list (map pr_row_count rs)" "length rs \<le> 12"
    using assms(1) by (auto simp: complete_def receipts_ok_def MAX_PAGES_def list_all_iff)
  show "rs \<noteq> []"
    using assms(1) by (auto simp: complete_def required_pages_def)
  have "\<forall>r \<in> set rs. pr_row_count r \<le> 1000"
    using c(2) assms(2) by (auto simp: receipt_ok_def)
  then have "n \<le> 1000 * length rs" using sum_list_bound [of rs pr_row_count] c(3) by simp
  then show "n \<le> 12000" using c(4) by linarith
  have "pr_ordinal ` set rs = {1..<length rs + 1}"
    using c(1) by (metis contiguous_from_one_def length_map set_map set_upt)
  then have "pr_ordinal r \<in> {1..<length rs + 1}" if "r \<in> set rs" for r
    using that by blast
  then show "\<forall>r \<in> set rs. 0 < pr_ordinal r \<and> pr_ordinal r \<le> 12"
    using c(4) by fastforce
  have "map pr_requested_page_number rs = map pr_ordinal rs"
    using c(2) by (simp add: receipt_ok_def)
  then show "contiguous_from_one (map pr_requested_page_number rs)" using c(1) by (simp only:)
qed

lemma client_result_budget:
  assumes "client_result result" and "client_budgets source" and "fa_request_scope_sha256 a = []"
  shows "validate_result_budget source a result = Inr ()"
proof -
  obtain ps where c: "ps \<le> 1000" "complete ps (length (fr_rows result)) (fr_page_receipts result)"
    using assms(1) by (auto simp: client_result_def)
  note f = complete_facts [OF c(2,1)]
  have "\<not> list_ex (\<lambda>r. MAX_PAGE_BYTES < pr_byte_length r) (fr_page_receipts result)"
    using f(6) by (auto simp: list_ex_iff receipt_ok_def)
  then show ?thesis
    using assms f by (simp add: validate_result_budget_def client_budgets_def client_result_def MAX_CALLS_def MAX_PAGES_def)
qed

lemma client_result_candidates:
  assumes "client_result result"
  shows "receipt_candidates ids now a result = Inr (map (page_receipt_candidate ids now a) (fr_page_receipts result))"
proof -
  obtain ps where c: "ps \<le> 1000" "complete ps (length (fr_rows result)) (fr_page_receipts result)"
    using assms by (auto simp: client_result_def)
  note f = complete_facts [OF c(2,1)]
  have "set (map pr_declared_total_count (fr_page_receipts result)) = {length (fr_rows result)}"
    using f(1,6) by (auto simp: receipt_ok_def image_iff neq_Nil_conv)
  moreover have "emap (\<lambda>r.
       ebind (require (pr_requested_page_number r = pr_declared_page_number r)
                (ValidationError ''Client requested and declared page numbers differ.'')) (\<lambda>_.
       ebind (require (pr_http_status r = 200 \<and> pr_provider_result_code r = lit ''0'')
                (ValidationError ''A successful result contains a failed page receipt.'')) (\<lambda>_.
       Inr (page_receipt_candidate ids now a r)))) (fr_page_receipts result)
     = Inr (map (page_receipt_candidate ids now a) (fr_page_receipts result))"
    using f(6) by (intro emap_Inr_map) (auto simp: receipt_ok_def)
  ultimately show ?thesis
    using f(4,5,8) by (simp only: receipt_candidates_def Let_def) simp
qed

lemma candidates_manifest:
  "ordered_page_manifest_sha256 (map (page_receipt_candidate ids now a) rs) = ordered_manifest_sha256 rs"
  by (simp add: ordered_page_manifest_sha256_def ordered_manifest_sha256_def comp_def page_receipt_candidate_def)

lemma candidates_in_order:
  assumes "contiguous_from_one (map pr_ordinal rs)"
  shows "sort_key rc_request_ordinal (map (page_receipt_candidate ids now a) rs) = map (page_receipt_candidate ids now a) rs"
  using contiguous_sorted [OF assms]
  by (intro sort_key_id_if_sorted) (simp add: comp_def page_receipt_candidate_def)

lemma candidates_reconcile:
  assumes "complete ps n rs" and "ps \<le> 1000"
    and "fa_received_page_count x = length rs" and "fa_received_row_count x = n"
    and "fa_received_byte_count x = sum_list (map pr_byte_length rs)"
  shows "reconciled_total x (map (page_receipt_candidate ids now a) rs) = Inr n"
proof -
  note f = complete_facts [OF assms(1,2)]
  let ?rs = "map (page_receipt_candidate ids now a) rs"
  have "remdups (map rc_declared_total_count ?rs) = [Some n]"
    using f(1,6) by (intro remdups_const) (auto simp: page_receipt_candidate_def receipt_ok_def)
  moreover have "list_all artifact_page ?rs"
    using f candidate_columns [OF _ assms(2) f(3)] by (simp add: list_all_iff)
  ultimately show ?thesis
    using f(1,4,5) f(8) [simplified] assms(3-)
    by (simp add: reconciled_total_def Let_def comp_def page_receipt_candidate_def)
qed

text \<open>
  What the other rows must be for the completion to be stored: fresh identifiers, and no artifact
  with the same identity and manifest that describes other bytes (a collision of digests).
\<close>

definition fresh_ids :: "(nat \<Rightarrow> uuid) \<Rightarrow> 'a fetch_db_scheme \<Rightarrow> bool" where
  "fresh_ids ids db \<longleftrightarrow> inj_on ids {1..12} \<and> ids ` {1..12} \<inter> rc_id ` set (db_receipts db) = {}
     \<and> ids 0 \<notin> ar_id ` set (db_artifacts db)"

definition no_collision :: "pystr \<Rightarrow> kamis_fetch_result \<Rightarrow> 'a fetch_db_scheme \<Rightarrow> bool" where
  "no_collision identity result db \<longleftrightarrow>
     (\<forall>x \<in> set (db_artifacts db). ar_source_identity x = identity
        \<and> ar_ordered_manifest_sha256 x = fr_ordered_manifest_sha256 result
        \<longrightarrow> ar_page_count x = length (fr_page_receipts result)
          \<and> ar_total_bytes x = sum_list (map pr_byte_length (fr_page_receipts result))
          \<and> ar_media_type x = MEDIA_JSON)"

lemma client_bytes:
  assumes "complete ps n rs" and "ps \<le> 1000"
  shows "sum_list (map pr_byte_length rs) \<le> 50331648"
proof -
  note f = complete_facts [OF assms]
  have "\<forall>r \<in> set rs. pr_byte_length r \<le> 4194304"
    using f(6) by (auto simp: receipt_ok_def MAX_PAGE_BYTES_def)
  then have "sum_list (map pr_byte_length rs) \<le> 4194304 * length rs" by (rule sum_list_bound)
  then show ?thesis using f(2) by linarith
qed

lemma save_attempt_ok:
  assumes "fetch_attempt_fields a" and "fa_source_configuration a \<in> sc_id ` set (db_sources db)"
    and "succeeds (attempt_clean a db)" and "attempt_unique False a (db_attempts db)"
    and "fetch_attempt_constraints a"
  shows "save_attempt False a db = Inr (db\<lparr>db_attempts := upsert_row fa_id a (db_attempts db)\<rparr>)"
  using assms by (simp add: save_attempt_def)

lemma attempt_unique_upsert:
  assumes "attempt_unique False a rows" and "fa_id b = fa_id a"
    and "fa_acquisition_run_id b = fa_acquisition_run_id a" and "fa_attempt_ordinal b = fa_attempt_ordinal a"
  shows "attempt_unique False b (upsert_row fa_id b rows)" and "attempt_unique False b rows"
  using assms upsert_row_set [of _ fa_id b rows] by (auto simp: attempt_unique_def list_ex_iff)

lemma build_source_artifact_ok:
  assumes got: "get_attempt k db = Inr (a, source)" and st: "fa_state a = SUCCEEDED" and none: "fa_artifact a = None"
    and scope: "fa_request_scope_sha256 a = []" and finished: "fa_completed_at a = Some t"
    and rec: "reconciled_total a rs = Inr n" and rs: "receipts_in_order k db = rs"
    and len: "length rs \<le> 12" and pos: "rs \<noteq> []"
    and bytes: "sum_list (map rc_body_byte_length rs) \<le> 50331648"
    and identity: "char_field 512 (sc_artifact_source_identity source)"
    and fields: "fetch_attempt_fields a" and unique: "attempt_unique False a (db_attempts db)"
    and constr: "fetch_attempt_constraints a"
    and fresh: "ids 0 \<notin> ar_id ` set (db_artifacts db)" and dist: "distinct (map ar_id (db_artifacts db))"
    and free: "\<forall>x \<in> set (db_artifacts db). ar_source_identity x = sc_artifact_source_identity source
        \<and> ar_ordered_manifest_sha256 x = ordered_page_manifest_sha256 rs
        \<longrightarrow> ar_page_count x = length rs \<and> ar_total_bytes x = sum_list (map rc_body_byte_length rs)
          \<and> ar_media_type x = MEDIA_JSON"
  shows "\<exists>artifact created as. build_source_artifact ids k db = Inr (artifact, created,
       db\<lparr>db_artifacts := as, db_attempts := upsert_row fa_id (a\<lparr>fa_artifact := Some (ar_id artifact)\<rparr>) (db_attempts db)\<rparr>)
     \<and> artifact_matches artifact source a rs \<and> get_row ar_id (ar_id artifact) as = Some artifact"
proof -
  have k: "fa_id a = k"
    using got get_row_Some by (fastforce simp: get_attempt_Inr)
  let ?c = "\<lparr>ar_id = ids 0, ar_source_identity = fa_artifact_source_identity source a,
        ar_ordered_manifest_sha256 = ordered_page_manifest_sha256 rs, ar_page_count = length rs,
        ar_total_bytes = sum_list (map rc_body_byte_length rs),
        ar_media_type = MEDIA_JSON, ar_encoding = UTF_8, ar_retention_mode = HASH_ONLY,
        ar_first_seen_at = t\<rparr>"
  have ident: "fa_artifact_source_identity source a = sc_artifact_source_identity source"
    using scope by (simp add: fa_artifact_source_identity_def)
  have sha: "SHA256_PATTERN (ordered_page_manifest_sha256 rs)"
    by (simp add: SHA256_PATTERN_def ordered_page_manifest_sha256_def)
  have cok: "source_artifact_fields ?c" "source_artifact_constraints ?c"
    using identity len pos bytes sha SHA256_PATTERN_field(1) [OF sha]
    by (auto simp: source_artifact_fields_def source_artifact_constraints_def ident integer_field_def
        big_field_def char_field_def Suc_le_eq)
  have "\<exists>artifact created as. get_or_create_artifact ?c db = Inr (artifact, created, db\<lparr>db_artifacts := as\<rparr>)
      \<and> same_artifact_fields artifact ?c"
  proof (cases "find (\<lambda>x. ar_source_identity x = ar_source_identity ?c
                  \<and> ar_ordered_manifest_sha256 x = ar_ordered_manifest_sha256 ?c) (db_artifacts db)")
    case None
    then have "\<not> list_ex (\<lambda>x. ar_source_identity x = ar_source_identity ?c
                  \<and> ar_ordered_manifest_sha256 x = ar_ordered_manifest_sha256 ?c) (db_artifacts db)"
      by (simp add: find_None_iff list_ex_iff)
    then have "save_artifact True ?c db = Inr (db\<lparr>db_artifacts := db_artifacts db @ [?c]\<rparr>)"
      using cok fresh by (simp add: save_artifact_def)
    then have "get_or_create_artifact ?c db = Inr (?c, True, db\<lparr>db_artifacts := db_artifacts db @ [?c]\<rparr>)"
      using None by (simp add: get_or_create_artifact_def)
    then show ?thesis
      by (intro exI [of _ ?c] exI [of _ True] exI [of _ "db_artifacts db @ [?c]"] conjI)
        (simp_all add: same_artifact_fields_def)
  next
    case (Some x)
    then have "get_or_create_artifact ?c db = Inr (x, False, db\<lparr>db_artifacts := db_artifacts db\<rparr>)"
      by (simp add: get_or_create_artifact_def)
    moreover have "same_artifact_fields x ?c"
      using find_Some_member [OF Some] free encoding.exhaust raw_retention.exhaust
      by (simp add: same_artifact_fields_def ident) (metis encoding.exhaust raw_retention.exhaust)
    ultimately show ?thesis by blast
  qed
  then obtain artifact created as where g: "get_or_create_artifact ?c db = Inr (artifact, created, db\<lparr>db_artifacts := as\<rparr>)"
    and same: "same_artifact_fields artifact ?c" by blast
  note c = get_or_create_artifact_Inr [OF g dist]
  have row: "get_row ar_id (ar_id artifact) as = Some artifact" using c by simp
  let ?a = "a\<lparr>fa_artifact := Some (ar_id artifact)\<rparr>"
  have src: "get_row sc_id (fa_source_configuration a) (db_sources db) = Some source"
    using got by (simp add: get_attempt_Inr)
  have "save_attempt False ?a (db\<lparr>db_artifacts := as\<rparr>)
      = Inr (db\<lparr>db_artifacts := as, db_attempts := upsert_row fa_id ?a (db_attempts db)\<rparr>)"
  proof -
    have "succeeds (attempt_clean ?a (db\<lparr>db_artifacts := as\<rparr>))"
      using row src st c by (simp add: attempt_clean_def)
    moreover have "fetch_attempt_fields ?a" "fetch_attempt_constraints ?a" "attempt_unique False ?a (db_attempts db)"
      using fields constr unique st
      by (simp_all add: fetch_attempt_fields_def fetch_attempt_constraints_def attempt_outcome_valid_def attempt_unique_def
          cong: option.case_cong)
    moreover have "fa_source_configuration a \<in> sc_id ` set (db_sources db)"
      using src get_row_None by (metis option.distinct(1))
    ultimately show ?thesis by (simp add: save_attempt_def)
  qed
  then have "build_source_artifact ids k db = Inr (artifact, created,
       db\<lparr>db_artifacts := as, db_attempts := upsert_row fa_id ?a (db_attempts db)\<rparr>)"
    unfolding build_source_artifact_def got ebind_Inr prod.case Let_def k rs [unfolded receipts_in_order_def]
    using st rec finished g same none by simp
  moreover have "artifact_matches artifact source a rs"
    using c same by (simp add: artifact_matches_def same_artifact_fields_def)
  ultimately show ?thesis using row by blast
qed

lemma complete_started_ok:
  assumes inv: "fetch_inv db" and got: "get_attempt k db = Inr (a, source)" and st: "fa_state a = STARTED"
    and scope: "fa_request_scope_sha256 a = []" and res: "client_result result" and bud: "client_budgets source"
    and identity: "char_field 512 (sc_artifact_source_identity source)"
    and fields: "fetch_attempt_fields a" and unique: "attempt_unique False a (db_attempts db)"
    and time: "fa_started_at a \<le> now" and fresh: "fresh_ids ids db"
    and free: "no_collision (sc_artifact_source_identity source) result db"
  shows "\<exists>c db'. complete_started ids now source a result db = Inr (c, db')
    \<and> fa_state (cf_attempt c) = SUCCEEDED \<and> fa_received_row_count (cf_attempt c) = length (fr_rows result)
    \<and> fa_received_page_count (cf_attempt c) = length (fr_page_receipts result)
    \<and> fa_request_scope_sha256 (cf_attempt c) = []
    \<and> fa_artifact (cf_attempt c) = Some (ar_id (cf_artifact c))
    \<and> ar_ordered_manifest_sha256 (cf_artifact c) = fr_ordered_manifest_sha256 result
    \<and> get_attempt k db' = Inr (cf_attempt c, source)
    \<and> get_row ar_id (ar_id (cf_artifact c)) (db_artifacts db') = Some (cf_artifact c)
    \<and> receipts_in_order k db' = map (page_receipt_candidate ids now a) (fr_page_receipts result)"
proof -
  have row: "get_row fa_id k (db_attempts db) = Some a"
    and src: "get_row sc_id (fa_source_configuration a) (db_sources db) = Some source"
    using got by (auto simp: get_attempt_Inr)
  note ev = fetch_invD [OF inv row]
  have none: "fa_artifact a = None" and nil: "receipts_of k db = []"
    using ev(1,2) st by (auto simp: attempt_evidence_def receipts_in_order_def Let_def)
  obtain ps where ps: "ps \<le> 1000" "complete ps (length (fr_rows result)) (fr_page_receipts result)"
    using res by (auto simp: client_result_def)
  note f = complete_facts [OF ps(2,1)]
  let ?rs = "map (page_receipt_candidate ids now a) (fr_page_receipts result)"
  have own: "\<forall>r \<in> set ?rs. rc_fetch_attempt r = k" using ev(2) by simp
  have bulk: "bulk_create_receipts ?rs db = Inr (db\<lparr>db_receipts := db_receipts db @ ?rs\<rparr>)"
  proof (rule bulk_create_receipts_ok)
    show "\<forall>r \<in> set ?rs. stored_receipt_columns r \<and> stored_receipt_constraints r
             \<and> rc_fetch_attempt r \<in> fa_id ` set (db_attempts db)"
      using f(3,6,7) candidate_columns [OF _ ps(1)] ev(2,3) by auto
    have "rc_fetch_attempt x \<noteq> k" if "x \<in> set (db_receipts db)" for x
      using nil that by (auto simp: receipts_of_def filter_empty_conv)
    moreover have "rc_id x \<noteq> rc_id r" if "x \<in> set (db_receipts db)" "r \<in> set ?rs" for x r
      using fresh f(7) that by (fastforce simp: fresh_ids_def page_receipt_candidate_def)
    ultimately show "\<forall>r \<in> set ?rs. \<forall>x \<in> set (db_receipts db). \<not> receipt_clashes r x"
      using own by (auto simp: receipt_clashes_def)
    show "sorted_wrt (\<lambda>x r. \<not> receipt_clashes r x) ?rs"
      using candidates_clash_free [OF f(5) _ _ f(2)] f(6) fresh by (auto simp: receipt_ok_def fresh_ids_def)
  qed
  let ?bytes = "sum_list (map rc_body_byte_length ?rs)"
  have sum: "?bytes = sum_list (map pr_byte_length (fr_page_receipts result))"
    by (simp add: comp_def page_receipt_candidate_def)
  note bytes = client_bytes [OF ps(2,1), folded sum]
  let ?a1 = "a\<lparr>fa_state := SUCCEEDED, fa_completed_at := Some now, fa_received_page_count := length ?rs,
     fa_received_row_count := length (fr_rows result), fa_received_byte_count := ?bytes\<rparr>"
  let ?db1 = "db\<lparr>db_receipts := db_receipts db @ ?rs\<rparr>"
  let ?db2 = "?db1\<lparr>db_attempts := upsert_row fa_id ?a1 (db_attempts db)\<rparr>"
  have fields1: "fetch_attempt_fields ?a1" "fetch_attempt_constraints ?a1"
    using fields f(2,3) bytes ev(1) st time none
    by (auto simp: fetch_attempt_fields_def fetch_attempt_constraints_def attempt_outcome_valid_def
        integer_field_def big_field_def attempt_evidence_def)
  have unique1: "attempt_unique False ?a1 (upsert_row fa_id ?a1 (db_attempts db))" "attempt_unique False ?a1 (db_attempts db)"
    using attempt_unique_upsert [OF unique, of ?a1] by simp_all
  have "fa_source_configuration a \<in> sc_id ` set (db_sources db)"
    using src get_row_None by (metis option.distinct(1))
  then have save: "save_attempt False ?a1 ?db1 = Inr ?db2"
    using save_attempt_ok [of ?a1 ?db1] fields1 unique1 none by (simp add: attempt_clean_def)
  have got2: "get_attempt k ?db2 = Inr (?a1, source)"
    using src ev(2) by (simp add: get_attempt_Inr get_row_upsert)
  have order2: "receipts_in_order k ?db2 = ?rs"
  proof -
    have "receipts_of k ?db2 = ?rs"
      using nil own unfolding receipts_of_def by (simp add: filter_id_conv)
    then show ?thesis
      using candidates_in_order [OF f(5)] by (simp add: receipts_in_order_def)
  qed
  have rec2: "reconciled_total ?a1 ?rs = Inr (length (fr_rows result))"
    by (rule candidates_reconcile [OF ps(2,1)]) (simp_all add: comp_def page_receipt_candidate_def)
  have free2: "\<forall>x \<in> set (db_artifacts ?db2). ar_source_identity x = sc_artifact_source_identity source
        \<and> ar_ordered_manifest_sha256 x = ordered_page_manifest_sha256 ?rs
        \<longrightarrow> ar_page_count x = length ?rs \<and> ar_total_bytes x = ?bytes \<and> ar_media_type x = MEDIA_JSON"
    using free res sum by (auto simp: no_collision_def candidates_manifest client_result_def)
  have "\<exists>artifact created as. build_source_artifact ids k ?db2 = Inr (artifact, created,
       ?db2\<lparr>db_artifacts := as, db_attempts := upsert_row fa_id (?a1\<lparr>fa_artifact := Some (ar_id artifact)\<rparr>) (db_attempts ?db2)\<rparr>)
     \<and> artifact_matches artifact source ?a1 ?rs \<and> get_row ar_id (ar_id artifact) as = Some artifact"
    using inv fresh none scope f(1,2) fields1 unique1
    by (intro build_source_artifact_ok [OF got2 _ _ _ _ rec2 order2 _ _ bytes identity _ _ _ _ _ free2])
      (auto simp: fetch_inv_def fresh_ids_def)
  then obtain artifact created as where build: "build_source_artifact ids k ?db2 = Inr (artifact, created,
       ?db2\<lparr>db_artifacts := as, db_attempts := upsert_row fa_id (?a1\<lparr>fa_artifact := Some (ar_id artifact)\<rparr>) (db_attempts ?db2)\<rparr>)"
    and m: "artifact_matches artifact source ?a1 ?rs" and g: "get_row ar_id (ar_id artifact) as = Some artifact"
    by blast
  let ?a2 = "?a1\<lparr>fa_artifact := Some (ar_id artifact)\<rparr>"
  let ?db3 = "?db2\<lparr>db_artifacts := as, db_attempts := upsert_row fa_id ?a2 (db_attempts ?db2)\<rparr>"
  have got3: "get_attempt k ?db3 = Inr (?a2, source)"
    using src ev(2) by (simp add: get_attempt_Inr get_row_upsert)
  have order3: "receipts_in_order k ?db3 = ?rs"
    using order2 by (simp add: receipts_in_order_def receipts_of_def)
  have manifest: "ordered_page_manifest_sha256 ?rs = fr_ordered_manifest_sha256 result"
    using res by (simp add: candidates_manifest client_result_def)
  let ?c = "\<lparr>cf_attempt = ?a2, cf_artifact = artifact, cf_artifact_created = created\<rparr>"
  have "complete_started ids now source a result db = Inr (?c, ?db3)"
    using client_result_budget [OF res bud scope] client_result_candidates [OF res, of ids now a]
      manifest bulk save build got3 m ev(2)
    unfolding complete_started_def by (simp add: artifact_matches_def)
  moreover have "ar_ordered_manifest_sha256 artifact = fr_ordered_manifest_sha256 result"
    using m manifest by (simp add: artifact_matches_def)
  moreover have "get_row ar_id (ar_id artifact) (db_artifacts ?db3) = Some artifact"
    using g by simp
  ultimately show ?thesis
    using got3 order3 scope
    by (intro exI [of _ ?c] exI [of _ ?db3] conjI) (assumption | simp only: completed_fetch.simps | simp)+
qed

text \<open>A completed attempt accepts the same result again and answers from what it stored.\<close>

lemma replay_ok:
  assumes got: "get_attempt k db = Inr (a, source)" and st: "fa_state a = SUCCEEDED"
    and scope: "fa_request_scope_sha256 a = []" and res: "client_result result" and bud: "client_budgets source"
    and rs: "receipts_in_order k db = map (page_receipt_candidate ids0 now0 a0) (fr_page_receipts result)"
    and art: "fa_artifact a = Some (ar_id artifact)" "get_row ar_id (ar_id artifact) (db_artifacts db) = Some artifact"
    and m: "ar_ordered_manifest_sha256 artifact = fr_ordered_manifest_sha256 result"
  shows "complete_kamis_fetch ids now k result db
    = Inr (\<lparr>cf_attempt = a, cf_artifact = artifact, cf_artifact_created = False\<rparr>, db)"
proof -
  have k: "fa_id a = k"
    using got get_row_Some by (fastforce simp: get_attempt_Inr)
  have "map receipt_shape (map (page_receipt_candidate ids0 now0 a0) (fr_page_receipts result))
      = map receipt_shape (map (page_receipt_candidate ids now a) (fr_page_receipts result))"
    by (simp add: receipt_shape_def page_receipt_candidate_def)
  then have "map receipt_shape (sort_key rc_request_ordinal (receipts_of (fa_id a) db))
      = map receipt_shape (map (page_receipt_candidate ids now a) (fr_page_receipts result))"
    using rs k by (simp add: receipts_in_order_def del: map_map)
  then show ?thesis
    using got st client_result_budget [OF res bud scope] client_result_candidates [OF res, of ids now a] art m
    by (simp add: complete_kamis_fetch_def validate_completed_replay_def del: map_map)
qed

text \<open>
  C21: from start to artifact. An attempt started on the approved configuration accepts every
  result the client can return for it, whatever the server sent, provided its manifest digest does
  not collide with that of a stored artifact of other pages (\<open>no_collision\<close>): the attempt succeeds, its
  counters are those of the result and its artifact carries the client's manifest; sending the
  same result again returns the same evidence and writes nothing.
\<close>

theorem client_result_is_stored_once:
  assumes "fetch_inv db0"
    and start: "start_kamis_fetch ids0 started k0 run n db0 = Inr (a, db)"
    and "get_row sc_id k0 (db_sources db0) = Some source"
    and contract: "effective_view source db0 = Inr (EXPECTED_CONTRACT_FIELDS k0 t)"
    and "fetch_recent_prices tr key page_size = (Inr result, cs)"
    and "started \<le> now" and "fresh_ids ids db"
    and "no_collision (sc_artifact_source_identity source) result db"
  shows "\<exists>c db'. complete_kamis_fetch ids now (fa_id a) result db = Inr (c, db')
    \<and> fa_state (cf_attempt c) = SUCCEEDED \<and> fa_received_row_count (cf_attempt c) = length (fr_rows result)
    \<and> fa_received_page_count (cf_attempt c) = length (fr_page_receipts result)
    \<and> ar_ordered_manifest_sha256 (cf_artifact c) = fr_ordered_manifest_sha256 result
    \<and> complete_kamis_fetch ids' later (fa_id a) result db' = Inr (c\<lparr>cf_artifact_created := False\<rparr>, db')"
proof -
  note res = fetch_recent_prices_result [OF assms(5)]
  note s = start_kamis_fetch_inv [OF assms(1) start]
  note eff = effective_contract [OF contract]
  obtain w where a: "fa_state a = STARTED" "fa_request_scope_sha256 a = []" "fa_started_at a = started"
      "fa_source_configuration a = k0"
    and save: "save_attempt True a db0 = Inr w"
    using start by (auto simp: start_kamis_fetch_def Let_def elim!: ebind_InrE)
  have fields: "fetch_attempt_fields a" and u: "attempt_unique True a (db_attempts db0)"
    using save by (auto simp: save_attempt_def require_eq_Inr elim!: ebind_InrE)
  have unique: "attempt_unique False a (db_attempts db)"
    using u s by (auto simp: attempt_unique_def list_ex_iff)
  have "fa_id a \<notin> fa_id ` set (db_attempts db0)"
    using u by (simp add: attempt_unique_def)
  then have got: "get_attempt (fa_id a) db = Inr (a, source)"
    using s assms(3) a(4) get_row_None [of fa_id "fa_id a" "db_attempts db0"]
    by (simp add: get_attempt_Inr get_row_append)
  have identity: "char_field 512 (sc_artifact_source_identity source)"
    using eff(2) contract_identity by simp
  obtain c db' where c: "complete_started ids now source a result db = Inr (c, db')"
    and facts: "fa_state (cf_attempt c) = SUCCEEDED" "fa_received_row_count (cf_attempt c) = length (fr_rows result)"
      "fa_received_page_count (cf_attempt c) = length (fr_page_receipts result)"
      "fa_request_scope_sha256 (cf_attempt c) = []"
      "fa_artifact (cf_attempt c) = Some (ar_id (cf_artifact c))"
      "ar_ordered_manifest_sha256 (cf_artifact c) = fr_ordered_manifest_sha256 result"
      "get_attempt (fa_id a) db' = Inr (cf_attempt c, source)"
      "get_row ar_id (ar_id (cf_artifact c)) (db_artifacts db') = Some (cf_artifact c)"
      "receipts_in_order (fa_id a) db' = map (page_receipt_candidate ids now a) (fr_page_receipts result)"
    using complete_started_ok [OF conjunct1 [OF s] got a(1,2) res eff(1) identity fields unique _ assms(7,8), of now]
      a(3) assms(6) by blast
  have "complete_kamis_fetch ids now (fa_id a) result db = Inr (c, db')"
    using got a(1) c by (simp add: complete_kamis_fetch_def)
  moreover have "complete_kamis_fetch ids' later (fa_id a) result db' = Inr (c\<lparr>cf_artifact_created := False\<rparr>, db')"
    using replay_ok [OF facts(7,1,4) res eff(1) facts(9,5,8,6), of ids' later] by (cases c) simp
  ultimately show ?thesis using facts by blast
qed

section \<open>Failing with an error of the client\<close>

lemma partial_run_facts:
  assumes "partial_run ps rs" and "0 < ps" and "rs \<noteq> []"
  obtains t where "contiguous_from_one (map pr_ordinal rs)" "contiguous_from_one (map pr_requested_page_number rs)"
    "length rs \<le> 12" "required_pages t ps \<le> 12" "sum_list (map pr_row_count rs) < t"
    "\<forall>r \<in> set rs. receipt_ok ps t r \<and> pr_row_count r = ps \<and> 0 < pr_ordinal r" "0 < t"
proof -
  obtain t where t: "receipts_ok ps t rs" "ps * length rs < t" "required_pages t ps \<le> MAX_PAGES" "length rs \<le> MAX_PAGES"
    using assms by (auto simp: partial_run_def)
  have c: "contiguous_from_one (map pr_ordinal rs)" and ok: "\<forall>r \<in> set rs. receipt_ok ps t r"
    using t(1) by (auto simp: receipts_ok_def list_all_iff)
  have "pr_ordinal ` set rs = {1..<length rs + 1}"
    using c by (metis contiguous_from_one_def length_map set_map set_upt)
  then have "pr_ordinal r \<in> {1..<length rs + 1}" if "r \<in> set rs" for r
    using that by blast
  then have ord: "1 \<le> pr_ordinal r \<and> pr_ordinal r \<le> length rs" if "r \<in> set rs" for r
    using that by fastforce
  have full: "pr_row_count r = ps" if "r \<in> set rs" for r
  proof -
    have "ps * (pr_ordinal r - 1) + ps = ps * pr_ordinal r"
      using ord [OF that] by (cases "pr_ordinal r") auto
    also have "\<dots> \<le> ps * length rs" using ord [OF that] by simp
    finally show ?thesis using ok t(2) that by (auto simp: receipt_ok_def)
  qed
  then have "sum_list (map pr_row_count rs) = ps * length rs"
    by (induction rs) auto
  moreover have "map pr_requested_page_number rs = map pr_ordinal rs"
    using ok by (simp add: receipt_ok_def)
  ultimately show ?thesis
    using that [of t] c t ok full ord unfolding MAX_PAGES_def by (metis One_nat_def Suc_le_eq not_less_zero neq0_conv)
qed

lemma check_partial_totals_ok:
  assumes "partial_run ps rs" and "0 < ps" and "rs \<noteq> []" and "client_budgets source"
    and "\<forall>r \<in> set rs. 0 < pr_byte_length r"
  shows "check_partial_totals source rs = Inr ()"
proof -
  obtain t where t: "required_pages t ps \<le> 12" "sum_list (map pr_row_count rs) < t"
    "\<forall>r \<in> set rs. receipt_ok ps t r \<and> pr_row_count r = ps \<and> 0 < pr_ordinal r" "0 < t"
    using partial_run_facts [OF assms(1-3)] by metis
  have "remdups (map pr_declared_total_count rs) = [t]" "remdups (map pr_declared_page_size rs) = [ps]"
    using t(3) assms(3) by (auto intro!: remdups_const simp: receipt_ok_def)
  moreover have "list_all has_safe_partial_shape rs"
    using t(3,4) assms(2,5) by (auto simp: list_all_iff has_safe_partial_shape_def receipt_ok_def)
  moreover have "\<not> list_ex (\<lambda>r. MAX_PAGE_BYTES < pr_byte_length r) rs"
    using t(3) by (auto simp: list_ex_iff receipt_ok_def)
  ultimately show ?thesis
    using t(1,2) assms(4)
    by (simp add: check_partial_totals_def Let_def client_budgets_def required_pages_def MAX_PAGES_def MAX_CALLS_def)
qed

text \<open>Which errors of a started fetch leave evidence that can be kept.\<close>

lemma partial_evidence_iff:
  assumes "partial_run ps (te_partial_page_receipts e)" and "0 < ps" and "te_partial_page_receipts e \<noteq> []"
    and "client_budgets source" and "\<forall>r \<in> set (te_partial_page_receipts e). 0 < pr_byte_length r"
    and "\<not> exceeds (te_page_number e) 12" and "\<not> exceeds (te_attempt e) 3"
  shows "partial_receipt_candidates ids now source a e =
     (if te_page_number e \<noteq> Some (length (te_partial_page_receipts e) + 1)
      then Inl (ValidationError ''Partial receipts do not precede the failed page.'')
      else if 12 < length (te_partial_page_receipts e) + attempt_or_one (te_attempt e)
      then Inl (ValidationError ''Partial evidence exceeds the configured request budget.'')
      else Inr (map (page_receipt_candidate ids now a) (te_partial_page_receipts e)))"
proof -
  let ?rs = "te_partial_page_receipts e"
  obtain t where t: "contiguous_from_one (map pr_ordinal ?rs)" "contiguous_from_one (map pr_requested_page_number ?rs)"
    "length ?rs \<le> 12"
    using partial_run_facts [OF assms(1-3)] by metis
  have "\<not> exceeds (te_attempt e) 12"
    using assms(7) by (auto simp: exceeds_def split: option.splits)
  then show ?thesis
    using t check_partial_totals_ok [OF assms(1-5)] assms(3,4,6,7)
    by (auto simp: partial_receipt_candidates_def check_partial_run_def client_budgets_def
        MAX_PAGES_def MAX_CALLS_def MAX_ATTEMPTS_PER_PAGE_def require_def)
qed

text \<open>
  C22: the evidence before a failure is kept exactly when the error names the page after it and
  the calls it proves stay within twelve; otherwise recording the failure raises, and the attempt
  remains started.
\<close>

theorem partial_evidence_kept_iff:
  assumes "partial_run ps (te_partial_page_receipts e)" and "0 < ps" and "te_partial_page_receipts e \<noteq> []"
    and "client_budgets source" and "\<forall>r \<in> set (te_partial_page_receipts e). 0 < pr_byte_length r"
    and "\<not> exceeds (te_page_number e) 12" and "\<not> exceeds (te_attempt e) 3"
  shows "succeeds (partial_receipt_candidates ids now source a e)
    \<longleftrightarrow> te_page_number e = Some (length (te_partial_page_receipts e) + 1)
      \<and> length (te_partial_page_receipts e) + attempt_or_one (te_attempt e) \<le> 12"
  using partial_evidence_iff [OF assms] by auto

text \<open>
  C23: what a recorded failure says. The attempt is retryable exactly when the client gave up
  after its retries; a rate limit, a server error and a refused credential are told apart by the
  status and the provider code; the counters are those of the evidence kept.
\<close>

theorem recorded_failure_is_classified:
  assumes "fail_kamis_fetch ids now k e db = Inr (a', db')"
  shows "(fa_state a' = RETRYABLE_FAILED \<longleftrightarrow> te_code e = ''retry_exhausted'')
    \<and> (fa_state a' = TERMINAL_FAILED \<longleftrightarrow> te_code e \<noteq> ''retry_exhausted'')
    \<and> (fa_failure_class a' = Some HTTP_429 \<longleftrightarrow> te_code e = ''retry_exhausted'' \<and> te_http_status e = Some 429)
    \<and> (fa_failure_class a' = Some AUTHENTICATION \<longleftrightarrow>
         te_code e = ''terminal_http_status'' \<and> te_http_status e \<in> {Some 401, Some 403}
         \<or> te_code e = ''terminal_provider_error'' \<and> te_provider_result_code e = Some (lit ''-3''))
    \<and> fa_received_page_count a' = length (te_partial_page_receipts e)
    \<and> fa_received_row_count a' = sum_list (map pr_row_count (te_partial_page_receipts e))
    \<and> get_row fa_id k (db_attempts db') = Some a'"
proof -
  obtain a source rs db1 where got: "get_attempt k db = Inr (a, source)"
    and rs: "partial_receipt_candidates ids now source a e = Inr rs"
    and a': "a' = a\<lparr>fa_state := fst (classify_transport_failure e), fa_completed_at := Some now,
           fa_failure_class := Some (snd (classify_transport_failure e)),
           fa_failure_code := (if te_code e \<in> set KNOWN_TRANSPORT_CODES then upper_text (te_code e)
                               else lit ''UNCLASSIFIED_TRANSPORT_ERROR''),
           fa_received_page_count := length rs,
           fa_received_row_count := sum_list (map rc_received_row_count rs),
           fa_received_byte_count := sum_list (map rc_body_byte_length rs)\<rparr>"
    and save: "save_attempt False a' db1 = Inr db'"
    using assms unfolding fail_kamis_fetch_def
    by (auto simp: case_prod_beta Let_def elim!: ebind_InrE)
  have "fa_id a' = k"
    using got get_row_Some by (fastforce simp: get_attempt_Inr a')
  then have "get_row fa_id k (db_attempts db') = Some a'"
    using save_attempt_Inr [OF save] by (simp add: get_row_upsert)
  moreover have "rs = map (page_receipt_candidate ids now a) (te_partial_page_receipts e)"
    using rs by (auto simp: partial_receipt_candidates_def Let_def elim!: ebind_InrE split: if_split_asm)
  moreover have "fst (classify_transport_failure e) = (if te_code e = ''retry_exhausted'' then RETRYABLE_FAILED else TERMINAL_FAILED)"
    by (simp add: classify_transport_failure_def)
  moreover have "snd (classify_transport_failure e) = HTTP_429 \<longleftrightarrow> te_code e = ''retry_exhausted'' \<and> te_http_status e = Some 429"
    by (auto simp: classify_transport_failure_def split: option.splits)
  moreover have "snd (classify_transport_failure e) = AUTHENTICATION \<longleftrightarrow>
         te_code e = ''terminal_http_status'' \<and> te_http_status e \<in> {Some 401, Some 403}
         \<or> te_code e = ''terminal_provider_error'' \<and> te_provider_result_code e = Some (lit ''-3'')"
    by (auto simp: classify_transport_failure_def RESPONSE_LIMIT_CODES_def RECONCILIATION_CODES_def
        SCHEMA_CODES_def split: option.splits)
  ultimately show ?thesis
    by (simp add: a' comp_def page_receipt_candidate_def)
qed

end
