(* ===== verification/Fetch_Examples.thy ===== *)
theory Fetch_Examples
  imports Fetch_Outcomes
begin

text \<open>
  Concrete runs of the acquisition side: a fetch that is started, stored and replayed, one that
  fails, and a server whose second page loses its content type, after which the failure cannot
  be recorded.
\<close>

section \<open>Starting on the approved configuration\<close>

definition sourced_db :: fetch_db where
  "sourced_db = empty_db\<lparr>db_sources := [contract_row]\<rparr>"

definition example_ids :: "nat \<Rightarrow> uuid" where
  "example_ids n = n + 1"

lemma shape_valid: "validate_redacted_request_shape REDACTED_REQUEST_SHAPE"
  by (simp add: validate_redacted_request_shape_def REDACTED_REQUEST_SHAPE_def lit_def)

lemma shape_field: "char_field 512 REDACTED_REQUEST_SHAPE"
  by (simp add: char_field_def REDACTED_REQUEST_SHAPE_def)

lemma example_start:
  "start_kamis_fetch example_ids 10 SOURCE_GATE_CONFIGURATION_ID (Some 2) 1 sourced_db = Inr (example_attempt, example_db)"
proof -
  have fields: "fetch_attempt_fields example_attempt" "fetch_attempt_constraints example_attempt"
    using shape_valid shape_field
    by (simp_all add: fetch_attempt_fields_def fetch_attempt_constraints_def attempt_outcome_valid_def
        example_attempt_def small_field_def integer_field_def big_field_def blank_field_def)
  have db: "sourced_db\<lparr>db_attempts := [example_attempt]\<rparr> = example_db"
    by (simp add: sourced_db_def example_db_def)
  have "save_attempt True example_attempt sourced_db = Inr example_db"
    using fields db
    by (simp add: save_attempt_def attempt_clean_def attempt_unique_def upsert_row_def sourced_db_def empty_db_def)
      (simp add: example_attempt_def)
  moreover have "example_attempt = \<lparr>fa_id = example_ids 0, fa_source_configuration = SOURCE_GATE_CONFIGURATION_ID,
        fa_artifact = None, fa_acquisition_run_id = 2,
        fa_attempt_ordinal = 1, fa_state = STARTED, fa_started_at = 10,
        fa_completed_at = None, fa_redacted_request_shape = REDACTED_REQUEST_SHAPE,
        fa_request_scope_sha256 = [], fa_received_page_count = 0, fa_received_row_count = 0,
        fa_received_byte_count = 0, fa_failure_class = None, fa_failure_code = []\<rparr>"
    by (simp add: example_attempt_def example_ids_def)
  moreover have "get_row sc_id SOURCE_GATE_CONFIGURATION_ID (db_sources sourced_db) = Some contract_row"
    "sc_state contract_row = ACTIVE" "sc_publication_mode contract_row = RECENT_COMPARISON"
    by (simp_all add: sourced_db_def EXPECTED_CONTRACT_FIELDS_def)
  ultimately show ?thesis
    unfolding start_kamis_fetch_def by simp
qed

lemma sourced_reachable: "fetch_reachable sourced_db"
proof -
  have "bootstrap_kamis_source_configuration (\<lambda>_. True) 0 empty_db = Inr (contract_row, sourced_db)"
    using bootstrap_empty by (simp add: sourced_db_def)
  then have "fetch_step empty_db sourced_db" by (rule fetch_step.bootstrap)
  then show ?thesis by (simp add: fetch_reachable_def)
qed

lemma example_reachable: "fetch_reachable example_db"
  using sourced_reachable fetch_step.start [OF example_start] by (simp add: fetch_reachable_def)

section \<open>A stored result\<close>

lemma sourced_inv: "fetch_inv sourced_db"
  by (simp add: fetch_inv_def sourced_db_def empty_db_def)

lemma client_result_is_stored_once_witness:
  "\<exists>result c db'. length (fr_rows result) = 3
    \<and> complete_kamis_fetch (\<lambda>n. n + 100) 20 1 result example_db = Inr (c, db')
    \<and> fa_state (cf_attempt c) = SUCCEEDED \<and> fa_received_row_count (cf_attempt c) = 3"
proof -
  obtain result cs where run: "fetch_recent_prices example_transport (lit ''key'') 2 = (Inr result, cs)"
    and n: "length (fr_rows result) = 3"
    using example_fetch by blast
  have id: "fa_id example_attempt = 1" by (simp add: example_attempt_def)
  have source: "get_row sc_id SOURCE_GATE_CONFIGURATION_ID (db_sources sourced_db) = Some contract_row"
    by (simp add: sourced_db_def)
  have view: "effective_view contract_row sourced_db = Inr contract_row"
    by (simp add: effective_view_def effective_gate_timestamps_def sourced_db_def empty_db_def)
  have fresh: "fresh_ids (\<lambda>n. n + 100) example_db" "no_collision i result example_db" for i
    by (auto simp: fresh_ids_def no_collision_def example_db_def empty_db_def inj_on_def)
  show ?thesis
    using client_result_is_stored_once [OF sourced_inv example_start source view run _ fresh,
        of 20 "\<lambda>n. n + 200" 30] n id
    by auto
qed

section \<open>Failures\<close>

definition timeout_error :: transport_error where
  "timeout_error = kamis_transport_error ''retry_exhausted'' (Some 1) (Some 3) (Some 429) None"

definition timed_out_attempt :: fetch_attempt where
  "timed_out_attempt = example_attempt\<lparr>fa_state := RETRYABLE_FAILED, fa_completed_at := Some 20,
     fa_failure_class := Some HTTP_429, fa_failure_code := upper_text ''retry_exhausted''\<rparr>"

lemma contract_budgets: "client_budgets contract_row"
  by (simp add: client_budgets_def EXPECTED_CONTRACT_FIELDS_def MAX_ATTEMPTS_PER_PAGE_def)

lemma example_got: "get_attempt 1 example_db = Inr (example_attempt, contract_row)"
  by (simp add: get_attempt_def example_db_def empty_db_def example_attempt_def)

lemma example_fail:
  "fail_kamis_fetch example_ids 20 1 timeout_error example_db
     = Inr (timed_out_attempt, example_db\<lparr>db_attempts := [timed_out_attempt]\<rparr>)"
proof -
  have sel: "fa_state example_attempt = STARTED" "fa_id example_attempt = 1" "fa_received_page_count example_attempt = 0"
      "fa_received_row_count example_attempt = 0" "fa_received_byte_count example_attempt = 0"
    by (simp_all add: example_attempt_def)
  have cls: "classify_transport_failure timeout_error = (RETRYABLE_FAILED, HTTP_429)"
    by (simp add: classify_transport_failure_def timeout_error_def kamis_transport_error_def
        SAFE_TRANSPORT_ERROR_CODES_def)
  have code: "te_code timeout_error = ''retry_exhausted''" "''retry_exhausted'' \<in> set KNOWN_TRANSPORT_CODES"
    by (simp_all add: timeout_error_def kamis_transport_error_def SAFE_TRANSPORT_ERROR_CODES_def
        KNOWN_TRANSPORT_CODES_def)
  have none: "partial_receipt_candidates example_ids 20 contract_row example_attempt timeout_error = Inr []"
    using contract_budgets
    by (simp add: partial_receipt_candidates_def timeout_error_def kamis_transport_error_def exceeds_def
        client_budgets_def MAX_PAGES_def MAX_CALLS_def MAX_ATTEMPTS_PER_PAGE_def)
  have nil: "receipts_of 1 example_db = []"
    by (simp add: receipts_of_def example_db_def empty_db_def)
  have a': "example_attempt\<lparr>fa_state := RETRYABLE_FAILED, fa_completed_at := Some 20,
      fa_failure_class := Some HTTP_429, fa_failure_code := upper_text ''retry_exhausted'',
      fa_received_page_count := 0, fa_received_row_count := 0, fa_received_byte_count := 0\<rparr> = timed_out_attempt"
    by (simp add: timed_out_attempt_def example_attempt_def)
  have "fetch_attempt_fields timed_out_attempt" "fetch_attempt_constraints timed_out_attempt"
    using shape_valid shape_field
    by (simp_all add: fetch_attempt_fields_def fetch_attempt_constraints_def attempt_outcome_valid_def
        timed_out_attempt_def example_attempt_def small_field_def integer_field_def big_field_def
        blank_field_def upper_text_def)
  then have "save_attempt False timed_out_attempt example_db = Inr (example_db\<lparr>db_attempts := [timed_out_attempt]\<rparr>)"
    by (simp add: save_attempt_def attempt_clean_def attempt_unique_def upsert_row_def put_row_def example_db_def
        timed_out_attempt_def example_attempt_def)
  then show ?thesis
    using example_got nil none cls code a' sel by (simp add: fail_kamis_fetch_def)
qed

lemma recorded_failure_is_classified_witness:
  "fa_state timed_out_attempt = RETRYABLE_FAILED \<and> fa_failure_class timed_out_attempt = Some HTTP_429"
  using recorded_failure_is_classified [OF example_fail]
  by (simp add: timeout_error_def kamis_transport_error_def SAFE_TRANSPORT_ERROR_CODES_def)

definition failed_db :: fetch_db where
  "failed_db = example_db\<lparr>db_attempts := [timed_out_attempt]\<rparr>"

lemma failed_step: "fetch_step example_db failed_db"
  unfolding failed_db_def by (rule fetch_step.fail [OF example_fail])

lemma reachable_evidence_reconciles_witness: "fetch_inv failed_db"
proof -
  have "fetch_reachable failed_db"
    using example_reachable failed_step by (simp add: fetch_reachable_def)
  then show ?thesis by (rule reachable_evidence_reconciles)
qed

lemma failed_reachable: "fetch_reachable failed_db"
  using example_reachable failed_step by (simp add: fetch_reachable_def)

lemma finished_evidence_is_append_only_witness:
  "keeps_finished failed_db (failed_db\<lparr>db_attempts := [timed_out_attempt]\<rparr>)
   \<and> fa_state timed_out_attempt \<noteq> STARTED"
proof -
  have same: "failed_db\<lparr>db_attempts := [timed_out_attempt]\<rparr> = failed_db"
    by (simp add: failed_db_def)
  have "bootstrap_kamis_source_configuration (\<lambda>_. True) 9 failed_db = Inr (contract_row, failed_db)"
    using example_bootstrap endpoint_agrees contract_has_key [of SOURCE_GATE_CONFIGURATION_ID 0]
    by (simp add: bootstrap_kamis_source_configuration_def get_or_create_source_def in_database_def
        failed_db_def example_db_def empty_db_def has_contract_key_def effective_view_def
        effective_gate_timestamps_def)
  then have "fetch_step failed_db failed_db" by (rule fetch_step.bootstrap)
  then have "keeps_finished failed_db failed_db"
    by (intro finished_evidence_is_append_only [OF failed_reachable]) simp
  then show ?thesis unfolding same by (simp add: timed_out_attempt_def)
qed

section \<open>A failure that cannot be recorded\<close>

text \<open>
  The example server, except that the response with the second page has no content type. The
  client's error then names no page although a page was completed before it.
\<close>

definition headerless_transport :: transport where
  "headerless_transport = example_transport\<lparr>cl_exchange := (\<lambda>request calls. Opened
     \<lparr>rsp_status = StatusInt 200,
      rsp_content_type = (if first_page_request request
                          then HeaderText (lit ''json'') else HeaderMissing),
      rsp_content_length = HeaderMissing,
      rsp_read = ReadBytes [if first_page_request request then 1 else 2]\<rparr>)\<rparr>"

definition page_request :: "nat \<Rightarrow> http_request" where
  "page_request n = get_request KAMIS_ENDPOINT (lit ''serviceKey=key'' @ url_tail n 2)"

lemma build_page: "build_request (lit ''key'') n 2 = Inr (page_request n)"
  by (simp add: build_request_eq urlencode_def recent_parameters_def quote_plus_names quote_plus_digits
      all_digits_nat_text page_request_def url_tail_def) (simp add: lit_def)

lemma page_request_first: "n = 1 \<or> n = 2 \<Longrightarrow> first_page_request (page_request n) \<longleftrightarrow> n = 1"
  by (rule first_page_request_iff [OF build_page])

lemma headerless_first:
  "request_once headerless_transport (page_request 1) calls 1 2 = Inr (Inl (example_page 1))"
proof -
  have loads: "cl_loads headerless_transport = cl_loads example_transport"
    by (simp add: headerless_transport_def)
  have d: "decode_page headerless_transport [1] 1 2 = Inr (Inl (example_page 1))"
    unfolding example_page_def
    by (rule example_decode) (auto simp: loads example_transport_def example_rows_def)
  have h: "validated_content_type headerless_transport (HeaderText (lit ''json'')) = Inr (lit ''application/json'')"
    using example_headers [of "lit ''json''"] by (simp add: validated_content_type_def headerless_transport_def)
  have "cl_exchange headerless_transport (page_request 1) calls = Opened
     \<lparr>rsp_status = StatusInt 200, rsp_content_type = HeaderText (lit ''json''),
      rsp_content_length = HeaderMissing, rsp_read = ReadBytes [1]\<rparr>"
    using page_request_first [of 1] by (simp add: headerless_transport_def)
  then have "read_exchange headerless_transport 1 (cl_exchange headerless_transport (page_request 1) calls) = Inr (Inl [1])"
    using h by (simp add: read_exchange_def read_ok_response_def content_length_def)
  then show ?thesis using d by (simp add: request_once_def MAX_PAGE_BYTES_def)
qed

lemma headerless_second:
  "request_once headerless_transport (page_request 2) calls 2 2
     = Inl (Transport (kamis_transport_error ''missing_content_type'' None None None None))"
  using page_request_first [of 2]
  by (simp add: request_once_def read_exchange_def read_ok_response_def validated_content_type_def
      headerless_transport_def)

definition header_loss :: transport_error where
  "header_loss = use_request_shape REDACTED_REQUEST_SHAPE (retain_completed_pages
     [page_receipt_of 0 1 (example_page 1)] (kamis_transport_error ''missing_content_type'' None None None None))"

lemma headerless_fetch:
  "\<exists>st. fetch_recent_prices headerless_transport (lit ''key'') 2 = (Inl (Transport header_loss), st)"
proof -
  let ?st1 = "initial_client_state\<lparr>cs_count := 1, cs_requests := [page_request 1]\<rparr>"
  have p1: "fetch_page headerless_transport build_request (lit ''key'') 1 2 initial_client_state
      = (Inr (example_page 1), ?st1)"
    using fetch_page_first [of initial_client_state build_request "lit ''key''" 1 2 "page_request 1" headerless_transport]
      build_page headerless_first
    by (simp add: initial_client_state_def MAX_CALLS_def)
  have p2: "fetch_page headerless_transport build_request (lit ''key'') 2 2 ?st1
      = (Inl (Transport (kamis_transport_error ''missing_content_type'' None None None None)),
         ?st1\<lparr>cs_count := 2, cs_requests := [page_request 1, page_request 2]\<rparr>)"
    using build_page [of 2] headerless_second
    by (simp add: fetch_page_def MAX_ATTEMPTS_PER_PAGE_def numeral_3_eq_3 consume_def MAX_CALLS_def Let_def
        initial_client_state_def)
  let ?err = "Transport (kamis_transport_error ''missing_content_type'' None None None None)"
  obtain st1 where st1: "fetch_page headerless_transport build_request (lit ''key'') 1 2 initial_client_state
      = (Inr (example_page 1), st1)" "st1 = ?st1"
    using p1 by simp
  obtain st2 where st2: "fetch_page headerless_transport build_request (lit ''key'') 2 2 st1 = (Inl ?err, st2)"
    using p2 st1(2) by simp
  have second: "fetch_loop headerless_transport build_request (lit ''key'') 2 (Suc (Suc 0)) expected rows rs st1
      = (Inl (?err, rs), st2)" for expected rows rs
    unfolding numeral_2_eq_2 [symmetric] by (subst fetch_loop.simps) (simp only: st2 prod.case sum.case)
  have loop: "fetch_loop headerless_transport build_request (lit ''key'') 2 1 None [] [] initial_client_state
      = (Inl (?err, [page_receipt_of 0 1 (example_page 1)]), st2)"
    by (subst fetch_loop.simps, simp only: st1(1) prod.case sum.case)
      (simp add: example_page_def example_decoded_def check_total_def required_pages_def MAX_PAGES_def
        example_rows_def Let_def second)
  have "normalize_service_key headerless_transport (lit ''key'') = Inr (lit ''key'')"
    by (simp add: normalize_service_key_def headerless_transport_def example_transport_def)
  then show ?thesis
    using loop
    by (auto simp: fetch_recent_prices_def fetch_prices_def validate_page_size_def MAX_PAGE_SIZE_def
        finish_fetch_error_def header_loss_def)
qed

text \<open>
  C24: a server whose second page arrives without a content type makes the client fail with an
  error that keeps the first page as evidence but names no page; recording that failure raises
  for every started attempt on the approved budgets, so the attempt stays started for ever.
\<close>

theorem header_failure_cannot_be_recorded:
  assumes "get_attempt k db = Inr (a, source)" and "fa_state a = STARTED"
    and "receipts_of k db = []" and "client_budgets source"
  shows "\<exists>e st. fetch_recent_prices headerless_transport (lit ''key'') 2 = (Inl (Transport e), st)
    \<and> te_code e = ''missing_content_type'' \<and> length (te_partial_page_receipts e) = 1
    \<and> fail_kamis_fetch ids now k e db = Inl (ValidationError ''Partial receipts do not precede the failed page.'')"
proof -
  obtain st where run: "fetch_recent_prices headerless_transport (lit ''key'') 2 = (Inl (Transport header_loss), st)"
    using headerless_fetch by blast
  have e: "te_page_number header_loss = None" "te_attempt header_loss = None"
      "te_code header_loss = ''missing_content_type''"
      "te_partial_page_receipts header_loss = [page_receipt_of 0 1 (example_page 1)]"
    by (simp_all add: header_loss_def use_request_shape_def retain_completed_pages_def kamis_transport_error_def
        SAFE_TRANSPORT_ERROR_CODES_def)
  have part: "partial_run 2 (te_partial_page_receipts header_loss)"
    by (simp add: e partial_run_def MAX_PAGES_def receipts_ok_def contiguous_from_one_def receipt_ok_def
        page_receipt_of_def example_page_def example_decoded_def example_rows_def MAX_PAGE_BYTES_def
        required_pages_def)
  have bytes: "\<forall>r \<in> set (te_partial_page_receipts header_loss). 0 < pr_byte_length r"
    by (simp add: e page_receipt_of_def example_page_def example_decoded_def)
  have "partial_receipt_candidates ids now source a header_loss
      = Inl (ValidationError ''Partial receipts do not precede the failed page.'')"
    using partial_evidence_iff [OF part _ _ assms(4) bytes, of ids now a] e by (simp add: exceeds_def)
  moreover have "fa_id a = k"
    using assms(1) get_row_Some by (fastforce simp: get_attempt_Inr)
  ultimately have "fail_kamis_fetch ids now k header_loss db
      = Inl (ValidationError ''Partial receipts do not precede the failed page.'')"
    using assms by (simp add: fail_kamis_fetch_def)
  then show ?thesis using run e by auto
qed

lemma header_failure_cannot_be_recorded_witness:
  "\<exists>e. te_code e = ''missing_content_type''
    \<and> fail_kamis_fetch example_ids 20 1 e example_db
        = Inl (ValidationError ''Partial receipts do not precede the failed page.'')"
proof -
  have "fa_state example_attempt = STARTED" "receipts_of 1 example_db = []"
    by (simp_all add: example_attempt_def receipts_of_def example_db_def empty_db_def)
  then show ?thesis
    using header_failure_cannot_be_recorded [OF example_got _ _ contract_budgets, of example_ids 20] by blast
qed

lemma partial_evidence_kept_iff_witness:
  "succeeds (partial_receipt_candidates example_ids 20 contract_row example_attempt
     (kamis_transport_error ''invalid_json'' (Some 2) None None None
        \<lparr>te_partial_page_receipts := [page_receipt_of 0 1 (example_page 1)]\<rparr>))"
proof -
  let ?e = "kamis_transport_error ''invalid_json'' (Some 2) None None None
        \<lparr>te_partial_page_receipts := [page_receipt_of 0 1 (example_page 1)]\<rparr>"
  have part: "partial_run 2 (te_partial_page_receipts ?e)"
    by (simp add: partial_run_def MAX_PAGES_def receipts_ok_def contiguous_from_one_def receipt_ok_def
        page_receipt_of_def example_page_def example_decoded_def example_rows_def MAX_PAGE_BYTES_def
        required_pages_def)
  show ?thesis
    using partial_evidence_kept_iff [OF part _ _ contract_budgets, of example_ids 20 example_attempt]
    by (simp add: page_receipt_of_def example_page_def example_decoded_def exceeds_def attempt_or_one_def
        kamis_transport_error_def)
qed

end
