(* ===== verification/Generation_Examples.thy ===== *)
theory Generation_Examples
  imports Generation_Evidence Fetch_Examples
begin

text \<open>
  A concrete history from the empty database to a completed generation: the source is
  bootstrapped, a fetch is started and completed with the client's result, a parse run is started
  for its artifact, and it is completed with the parse of a complete day.
\<close>

section \<open>A completed fetch\<close>

lemma get_or_create_corrections:
  "get_or_create_artifact c db = Inr (a, created, db') \<Longrightarrow> db_corrections db' = db_corrections db"
  by (auto simp: get_or_create_artifact_def save_artifact_def elim!: ebind_InrE split: option.split_asm)

lemma save_attempt_corrections:
  "save_attempt adding a db = Inr db' \<Longrightarrow> db_corrections db' = db_corrections db"
  by (auto dest!: save_attempt_Inr)

lemma build_artifact_corrections:
  "build_source_artifact ids k db = Inr (a, created, db') \<Longrightarrow> db_corrections db' = db_corrections db"
  by (auto simp: build_source_artifact_def Let_def elim!: ebind_InrE
      dest!: get_or_create_corrections save_attempt_corrections split: prod.split_asm if_split_asm)

lemma complete_fetch_corrections:
  assumes "complete_kamis_fetch ids now k result db = Inr (c, db')"
  shows "db_corrections db' = db_corrections db"
proof -
  have started: "db_corrections db2 = db_corrections db"
    if run: "complete_started ids now source a result db = Inr (c, db2)" for source a db2
    using run unfolding complete_started_def
    by (auto elim!: ebind_InrE split: prod.split_asm
        dest!: bulk_create_receipts_Inr save_attempt_corrections build_artifact_corrections)
  show ?thesis
    using assms started unfolding complete_kamis_fetch_def
    by (auto elim!: ebind_InrE split: prod.split_asm if_split_asm)
qed

text \<open>The approved source with a succeeded attempt for an artifact.\<close>

definition reviewed_source :: "'a fetch_db_scheme \<Rightarrow> uuid \<Rightarrow> bool" where
  "reviewed_source db a \<longleftrightarrow> get_row sc_id SOURCE_GATE_CONFIGURATION_ID (db_sources db) = Some contract_row
     \<and> db_corrections db = []
     \<and> list_ex (\<lambda>x. fa_source_configuration x = SOURCE_GATE_CONFIGURATION_ID \<and> fa_artifact x = Some a
          \<and> fa_state x = SUCCEEDED) (db_attempts db)"

definition receipt_ids :: "nat \<Rightarrow> uuid" where
  "receipt_ids n = n + 100"

lemma completed_fetch:
  "\<exists>result c f. complete_kamis_fetch receipt_ids 20 1 result example_db = Inr (c, f)
     \<and> get_row ar_id (ar_id (cf_artifact c)) (db_artifacts f) = Some (cf_artifact c)
     \<and> ar_source_identity (cf_artifact c) = sc_artifact_source_identity contract_row
     \<and> ar_media_type (cf_artifact c) = MEDIA_JSON \<and> reviewed_source f (ar_id (cf_artifact c))"
proof -
  obtain result cs where run: "fetch_recent_prices example_transport (lit ''key'') 2 = (Inr result, cs)"
    using example_fetch by blast
  have inv: "fetch_inv example_db" using start_kamis_fetch_inv [OF sourced_inv example_start] by blast
  have a: "fa_state example_attempt = STARTED" "fa_request_scope_sha256 example_attempt = []"
    "fa_started_at example_attempt = 10"
    by (simp_all add: example_attempt_def)
  have fields: "fetch_attempt_fields example_attempt"
    using shape_valid shape_field
    by (simp add: fetch_attempt_fields_def example_attempt_def small_field_def integer_field_def
        big_field_def blank_field_def)
  have unique: "attempt_unique False example_attempt (db_attempts example_db)"
    by (simp add: attempt_unique_def example_db_def)
  have fresh: "fresh_ids receipt_ids example_db" "no_collision i result example_db" for i
    by (auto simp: receipt_ids_def fresh_ids_def no_collision_def example_db_def empty_db_def inj_on_def)
  obtain c f where c: "complete_started receipt_ids 20 contract_row example_attempt result example_db = Inr (c, f)"
    and st: "fa_state (cf_attempt c) = SUCCEEDED" "fa_request_scope_sha256 (cf_attempt c) = []"
      "fa_artifact (cf_attempt c) = Some (ar_id (cf_artifact c))"
      "get_attempt 1 f = Inr (cf_attempt c, contract_row)"
      "get_row ar_id (ar_id (cf_artifact c)) (db_artifacts f) = Some (cf_artifact c)"
    using complete_started_ok [OF inv example_got a(1,2) fetch_recent_prices_result [OF run] contract_budgets
        contract_identity fields unique _ fresh, of 20] a(3)
    by auto
  have done_run: "complete_kamis_fetch receipt_ids 20 1 result example_db = Inr (c, f)"
    using c a(1) example_got by (simp add: complete_kamis_fetch_def)
  have row: "get_row fa_id 1 (db_attempts f) = Some (cf_attempt c)"
    "get_row sc_id (fa_source_configuration (cf_attempt c)) (db_sources f) = Some contract_row"
    using st(4) by (simp_all add: get_attempt_Inr)
  have "fetch_inv f" by (rule fetch_step_inv [OF fetch_step.complete [OF done_run] inv])
  then have "attempt_evidence f (cf_attempt c)" using fetch_invD(1) row(1) by blast
  then have "artifact_matches (cf_artifact c) contract_row (cf_attempt c)
      (receipts_in_order (fa_id (cf_attempt c)) f)"
    using st row(2) by (auto simp: attempt_evidence_def Let_def)
  moreover have "fa_source_configuration (cf_attempt c) = SOURCE_GATE_CONFIGURATION_ID"
    using get_row_Some [OF row(2)] by (simp add: EXPECTED_CONTRACT_FIELDS_def)
  then have "reviewed_source f (ar_id (cf_artifact c))"
    using get_row_Some [OF row(1)] row(2) st(1,3) complete_fetch_corrections [OF done_run]
    by (auto simp: reviewed_source_def list_ex_iff example_db_def empty_db_def)
  ultimately show ?thesis
    using done_run st(2,5) by (auto simp: artifact_matches_def fa_artifact_source_identity_def)
qed

section \<open>A started run\<close>

definition started_run :: "generation_module \<Rightarrow> uuid \<Rightarrow> parse_run" where
  "started_run m a = \<lparr>run_id = 7, run_artifact = a, run_parser_revision = KAMIS_PARSER_REVISION,
     run_configuration_hash = gm_configuration_sha256 m, run_result_hash = [], run_status = RUN_STARTED,
     run_started_at = 30, run_completed_at = None, run_total_row_count = 0, run_accepted_row_count = 0,
     run_missing_reference_row_count = 0, run_out_of_scope_row_count = 0, run_quarantined_row_count = 0,
     run_failure_code = []\<rparr>"

definition run_db :: "generation_module \<Rightarrow> fetch_db \<Rightarrow> uuid \<Rightarrow> price_db" where
  "run_db m f a = fetch_db.extend f \<lparr>db_runs = [started_run m a], db_series = [], db_snapshots = [],
     db_references = [], db_changes = []\<rparr>"

lemma contract_artifact:
  assumes "import_generation = Inr m" and "ar_source_identity a = sc_artifact_source_identity contract_row"
    and "ar_media_type a = MEDIA_JSON"
  shows "validate_artifact m a = Inr ()"
proof -
  have "reg_coverage_identity (gm_registry m) = KAMIS_RETAIL_COVERAGE_IDENTITY"
    using assms(1) initial_registry_fields by (simp add: import_generation_Inr)
  then have "ar_source_identity a = KAMIS_ARTIFACT_SOURCE_IDENTITY m"
    by (simp add: assms(2) sc_artifact_source_identity_def EXPECTED_CONTRACT_FIELDS_def
        KAMIS_ARTIFACT_SOURCE_IDENTITY_def)
  then show ?thesis
    using assms(3) encoding.exhaust raw_retention.exhaust
    by (simp add: validate_artifact_def require_def) (metis encoding.exhaust raw_retention.exhaust)
qed

lemma started_run_reachable:
  assumes "import_generation = Inr m"
  shows "\<exists>f a. price_reachable m (run_db m f (ar_id a)) \<and> get_row ar_id (ar_id a) (db_artifacts f) = Some a
    \<and> validate_parse_run_contract m (started_run m (ar_id a)) a = Inr () \<and> reviewed_source f (ar_id a)"
proof -
  let ?none = "\<lparr>db_runs = [], db_series = [], db_snapshots = [], db_references = [], db_changes = []\<rparr>"
  obtain result c f where f: "complete_kamis_fetch receipt_ids 20 1 result example_db = Inr (c, f)"
    and a: "get_row ar_id (ar_id (cf_artifact c)) (db_artifacts f) = Some (cf_artifact c)"
      "ar_source_identity (cf_artifact c) = sc_artifact_source_identity contract_row"
      "ar_media_type (cf_artifact c) = MEDIA_JSON" and source: "reviewed_source f (ar_id (cf_artifact c))"
    using completed_fetch by blast
  have lift: "price_step m (fetch_db.extend x ?none) (fetch_db.extend y ?none)" if "fetch_step x y" for x y
    using price_step.acquire [of "fetch_db.extend x ?none" y m] that by (cases x) (simp add: fetch_db.defs)
  have "fetch_step\<^sup>*\<^sup>* empty_db f"
    using example_reachable fetch_step.complete [OF f] by (simp add: fetch_reachable_def)
  then have "(price_step m)\<^sup>*\<^sup>* empty_price_db (fetch_db.extend f ?none)"
    by (induction rule: rtranclp_induct)
       (use lift in \<open>auto simp: empty_price_db_def intro: rtranclp.rtrancl_into_rtrancl\<close>)
  then have reach: "price_reachable m (fetch_db.extend f ?none)" by (simp add: price_reachable_def)
  let ?a = "cf_artifact c" and ?db = "fetch_db.extend f ?none"
  let ?r = "started_run m (ar_id ?a)"
  have art: "validate_artifact m ?a = Inr ()" by (rule contract_artifact [OF assms a(2,3)])
  have cfg: "validate_configuration_constant m = Inr ()" by (rule imported_configuration [OF assms])
  have h: "SHA256_PATTERN (gm_configuration_sha256 m)" by (rule imported_configuration_hash [OF assms])
  have fields: "parse_run_fields ?r" "parse_run_constraints ?r"
    using h SHA256_PATTERN_length [OF h]
    by (simp_all add: parse_run_fields_def parse_run_constraints_def started_run_def run_outcome_valid_def
          blank_field_def integer_field_def KAMIS_PARSER_REVISION_def char_field_def)
  have mem: "ar_id ?a \<in> ar_id ` set (db_artifacts f)" using get_row_Some [OF a(1)] by (metis imageI)
  have saved: "save_parse_run True ?r ?db = Inr (run_db m f (ar_id ?a))"
    using fields mem
    by (simp add: save_parse_run_def parse_run_unique_def upsert_row_def run_db_def fetch_db.defs require_def)
       (simp add: started_run_def)
  have "start_or_get_kamis_parse_run m (\<lambda>_. 7) 30 (ar_id ?a) ?db = Inr (?r, True, run_db m f (ar_id ?a))"
    using a(1) art cfg saved
    by (simp add: start_or_get_kamis_parse_run_def at_boundary_def db_step_def fetch_db.defs started_run_def)
  then have "price_step m ?db (run_db m f (ar_id ?a))" by (rule price_step.start_run)
  then have "price_reachable m (run_db m f (ar_id ?a))"
    using reach by (simp add: price_reachable_def)
  moreover have "validate_parse_run_contract m ?r ?a = Inr ()"
    using art cfg by (simp add: validate_parse_run_contract_def started_run_def require_def)
  ultimately show ?thesis using a(1) source by blast
qed

section \<open>A completed generation\<close>

text \<open>
  The history up to the state before the completion, with the result to be stored in it.
\<close>

definition example_history ::
    "generation_module \<Rightarrow> parse_run \<Rightarrow> parsed_recent_price_result \<Rightarrow> price_db \<Rightarrow> bool" where
  "example_history m r res db \<longleftrightarrow> import_generation = Inr m \<and> price_reachable m db
     \<and> ready_to_complete m receipt_ids 40 r res db \<and> validate_result m res = Inr 10
     \<and> length (res_rows res) = 10 \<and> run_status r = RUN_STARTED \<and> run_id r = 7
     \<and> run_parser_revision r = KAMIS_PARSER_REVISION
     \<and> reviewed_source db (run_artifact r) \<and> run_artifact r \<in> ar_id ` set (db_artifacts db)"

lemma example_history_exists: "\<exists>m r res db. example_history m r res db"
proof -
  obtain m where m: "import_generation = Inr m" using import_generation_succeeds by blast
  then have reg: "INITIAL_RETAIL_IDENTITY_REGISTRY = Inr (gm_registry m)" by (simp add: import_generation_Inr)
  obtain res where res: "parse_recent_price_rows source_required_order OPTIONAL_PRICE_FIELDS
      (gm_registry m) (Items example_day_items) = Inr res" "length (res_rows res) = 10"
    and v: "validate_result m res = Inr 10" and n: "res_input_row_count res = 10"
    using example_day_validated [OF m] by blast
  obtain f a where reach: "price_reachable m (run_db m f (ar_id a))"
    and a: "get_row ar_id (ar_id a) (db_artifacts f) = Some a"
      "validate_parse_run_contract m (started_run m (ar_id a)) a = Inr ()" and source: "reviewed_source f (ar_id a)"
    using started_run_reachable [OF m] by blast
  have "ready_to_complete m receipt_ids 40 (started_run m (ar_id a)) res (run_db m f (ar_id a))"
    using a n
    by (auto simp: ready_to_complete_def run_db_def started_run_def fetch_db.defs unused_ids_def
        series_agree_def list_all_iff receipt_ids_def inj_on_def integer_field_def)
  moreover have "reviewed_source (run_db m f (ar_id a)) (ar_id a)"
    using source by (simp add: reviewed_source_def run_db_def fetch_db.defs)
  moreover have "ar_id a \<in> ar_id ` set (db_artifacts (run_db m f (ar_id a)))"
    using get_row_Some [OF a(1)] by (simp add: run_db_def fetch_db.defs)
  ultimately have "example_history m (started_run m (ar_id a)) res (run_db m f (ar_id a))"
    using m reach v res(2) by (simp add: example_history_def) (simp add: started_run_def)
  then show ?thesis by blast
qed

lemma first_completion_succeeds_witness:
  "\<exists>m r res db g db'. example_history m r res db
     \<and> complete_kamis_parse_generation m receipt_ids 40 (run_id r) res db = Inr (g, db')
     \<and> length (cg_snapshots g) = 10 \<and> run_status (cg_parse_run g) = RUN_VALIDATED"
proof -
  obtain m r res db where h: "example_history m r res db" using example_history_exists by blast
  then have "length (res_rows res) = 10" by (simp add: example_history_def)
  then show ?thesis
    using first_completion_succeeds [of m db receipt_ids 40 r res 10] h
    by (fastforce simp: example_history_def)
qed

lemma completed_history:
  "\<exists>m r res db g db'. example_history m r res db
     \<and> complete_kamis_parse_generation m receipt_ids 40 (run_id r) res db = Inr (g, db')
     \<and> length (cg_snapshots g) = 10 \<and> db_snapshots db' \<noteq> []"
proof -
  obtain m r res db where h: "example_history m r res db" using example_history_exists by blast
  then have inv: "price_inv db" using reachable_system_inv by (auto simp: example_history_def system_inv_def)
  have h': "import_generation = Inr m" "ready_to_complete m receipt_ids 40 r res db"
    "validate_result m res = Inr 10" "length (res_rows res) = 10"
    using h by (simp_all add: example_history_def)
  obtain db' snapshots where run: "complete_kamis_parse_generation m receipt_ids 40 (run_id r) res db
      = Inr (\<lparr>cg_parse_run = validated_run 40 res 10 r, cg_snapshots = snapshots, cg_replayed = False\<rparr>, db')"
    and n: "length snapshots = length (res_rows res)" and ss: "snapshots = map fst (run_pairs (run_id r) db')"
    using first_completion [OF h'(1) inv h'(2,3)] by blast
  have "db_snapshots db' \<noteq> []"
    using n h'(4) by (auto simp: ss run_pairs_def List.map_filter_def)
  then show ?thesis using h run n h'(4) by (intro exI conjI) (assumption, simp, simp, simp)
qed

lemma completed_generation_replays_witness:
  "\<exists>m r res db g db'. example_history m r res db
     \<and> complete_kamis_parse_generation m receipt_ids 40 (run_id r) res db = Inr (g, db')
     \<and> complete_kamis_parse_generation m receipt_ids 50 (run_id r) res db' = Inr (g\<lparr>cg_replayed := True\<rparr>, db')"
proof -
  obtain m r res db g db' where h: "example_history m r res db"
    and run: "complete_kamis_parse_generation m receipt_ids 40 (run_id r) res db = Inr (g, db')"
    using completed_history by blast
  then have "price_reachable m db" by (simp add: example_history_def)
  then show ?thesis using h run completed_generation_replays [OF _ run rtranclp.rtrancl_refl] by blast
qed

lemma facts_are_append_only_witness:
  "\<exists>m r res db g db'. example_history m r res db
     \<and> complete_kamis_parse_generation m receipt_ids 40 (run_id r) res db = Inr (g, db')
     \<and> keeps_facts db db' \<and> db_snapshots db' \<noteq> []"
proof -
  obtain m r res db g db' where h: "example_history m r res db"
    and run: "complete_kamis_parse_generation m receipt_ids 40 (run_id r) res db = Inr (g, db')"
    and n: "db_snapshots db' \<noteq> []"
    using completed_history by blast
  have "price_reachable m db" using h by (simp add: example_history_def)
  moreover have "(price_step m)\<^sup>*\<^sup>* db db'" using price_step.complete_run [OF run] by blast
  ultimately show ?thesis using h run n facts_are_append_only by blast
qed

lemma stored_facts_recalculate_witness:
  "\<exists>m db. price_reachable m db \<and> db_snapshots db \<noteq> [] \<and> price_inv db"
proof -
  obtain m r res db g db' where h: "example_history m r res db"
    and run: "complete_kamis_parse_generation m receipt_ids 40 (run_id r) res db = Inr (g, db')"
    and n: "db_snapshots db' \<noteq> []"
    using completed_history by blast
  have "price_reachable m db'"
    using h price_step.complete_run [OF run] by (auto simp: example_history_def price_reachable_def)
  then show ?thesis using n stored_facts_recalculate by blast
qed

end
