(* ===== verification/Publication_Ready.thy ===== *)
theory Publication_Ready
  imports Publication_Theorems Generation_Examples
begin

text \<open>
  A completed generation of the reviewed registry is ready for publication: each of its snapshots
  passes the review's fact check, has the reviewed coverage and serialises to a canonical fact.
\<close>

section \<open>Texts\<close>

lemma surrogate_free_decimal_text [simp]: "surrogate_free (plain_decimal_text d)"
  by (cases d) (auto simp: surrogate_free_pad_left surrogate_def)

lemma clean_nullable [simp]:
  "clean_json (nullable_decimal_text v)" "clean_json (jstr_opt x) \<longleftrightarrow> (\<forall>s. x = Some s \<longrightarrow> surrogate_free s)"
  by (cases v; cases x; simp add: nullable_decimal_text_def jstr_opt_def)+

lemma surrogate_free_enumerations [simp]:
  "surrogate_free (period_text p)" "surrogate_free (value_status_text v)" "surrogate_free (reference_date_status_text t)"
  "surrogate_free (direction_text d)"
     apply (cases p; simp)
    apply (cases v; simp)
   apply (cases t; simp)
  apply (cases d; simp)
  done

lemma canonical_reference_clean:
  "surrogate_free (case sr_unavailable_reason r of None \<Rightarrow> [] | Some s \<Rightarrow> s) \<Longrightarrow> clean_json (canonical_reference_json r c)"
  by (auto simp: canonical_reference_json_def canonical_change_data_def)

lemma initial_series_clean:
  "list_all (\<lambda>ob. clean_json (canonical_series_json \<lparr>ser_id = n, ser_identity = row_series_identity ob,
      ser_reviewed = \<lparr>rf_product_class_name = io_product_class_name ob, rf_category_name = io_category_name ob,
        rf_item_name = io_item_name ob, rf_variety_name = io_variety_name ob, rf_grade_name = io_grade_name ob,
        rf_identity_evidence_revision = IDENTITY_EVIDENCE_REVISION\<rparr>\<rparr>)
    \<and> io_coverage_identity ob = KAMIS_RETAIL_COVERAGE_IDENTITY) initial_observations"
  by (simp add: initial_observations_def UNITS_def observation_of_unit_def row_series_identity_def
        KAMIS_ALLOWED_CATEGORIES_def ITEM_NAMES_def VARIETY_NAMES_def GRADE_NAMES_def)
     (simp add: canonical_series_json_def surrogate_def
        KAMIS_RETAIL_PRODUCT_CLASS_CODE_def KAMIS_RETAIL_PRODUCT_CLASS_NAME_def
        KAMIS_RETAIL_COVERAGE_IDENTITY_def IDENTITY_EVIDENCE_REVISION_def)

lemma accepted_series_texts:
  assumes "import_generation = Inr m" and "ob \<in> accepted_observations (gm_registry m)"
    and "ser_identity x = row_series_identity ob" and "ser_reviewed x = row_reviewed_fields m ob"
  shows "clean_json (canonical_series_json x)" and "si_coverage_identity (ser_identity x) = KAMIS_RETAIL_COVERAGE_IDENTITY"
proof -
  have reg: "INITIAL_RETAIL_IDENTITY_REGISTRY = Inr (gm_registry m)"
    using assms(1) by (simp add: import_generation_Inr)
  have ob: "ob \<in> set initial_observations"
    using assms(2) initial_observations_accepted(1) [OF reg] by simp
  have rf: "ser_reviewed x = \<lparr>rf_product_class_name = io_product_class_name ob,
      rf_category_name = io_category_name ob, rf_item_name = io_item_name ob,
      rf_variety_name = io_variety_name ob, rf_grade_name = io_grade_name ob,
      rf_identity_evidence_revision = IDENTITY_EVIDENCE_REVISION\<rparr>"
    by (simp add: assms(4) row_reviewed_fields_def initial_registry_fields [OF reg])
  show "clean_json (canonical_series_json x)" "si_coverage_identity (ser_identity x) = KAMIS_RETAIL_COVERAGE_IDENTITY"
    using initial_series_clean ob
    by (simp_all add: list_all_iff canonical_series_json_def Let_def rf assms(3) row_series_identity_def
        KAMIS_RETAIL_COVERAGE_IDENTITY_def)
qed

section \<open>One stored row\<close>

lemma stored_row_ready:
  assumes m: "import_generation = Inr m" and inv: "price_inv db" and st: "row_stored m k db p (s, x)"
    and row: "validate_row m p = Inr ()" and x: "snapshot_series db s = Some x"
  shows "review_snapshot_clean db s = Inr ()" and "\<exists>h. snapshot_fact_sha256 s db = Inr h"
    and "si_coverage_identity (ser_identity x) = KAMIS_RETAIL_COVERAGE_IDENTITY"
proof -
  note A = admitted_row [OF row]
  obtain new where refs: "references_of (sn_id s) db = reference_rows new (sn_id s) (row_value p)"
    and chs: "set (change_rows new (row_price p) (row_value p)) \<subseteq> set (db_changes db)"
    and match: "stored_row_matches m p s x"
    using st by (auto simp: row_stored_def)
  have keys: "distinct (map cf_reference_price (db_changes db))"
    using inv by (simp add: price_inv_def price_keys_def)
  have ch: "\<exists>c \<in> set (db_changes db). cf_reference_price c = sr_id r" if "r \<in> set (references_of (sn_id s) db)" for r
  proof -
    have "\<exists>c \<in> set (change_rows new (row_price p) (row_value p)). cf_reference_price c = sr_id r"
      using that by (auto simp: refs reference_rows_def change_rows_def)
    then show ?thesis using chs by blast
  qed
  then have got: "\<exists>c. get_row cf_reference_price (sr_id r) (db_changes db) = Some c"
    if "r \<in> set (references_of (sn_id s) db)" for r
    using that get_row_member [OF keys] by metis
  have shape: "length (references_of (sn_id s) db) = 3 \<and> set (map sr_period (references_of (sn_id s) db)) = set all_periods"
    by (simp add: refs reference_rows_def all_periods_def)
  show "review_snapshot_clean db s = Inr ()"
    using shape ch by (simp add: review_snapshot_clean_def Let_def list_all_iff has_change_def list_ex_iff)
  show "si_coverage_identity (ser_identity x) = KAMIS_RETAIL_COVERAGE_IDENTITY"
    using accepted_series_texts(2) [OF m A(8), of x] match by (simp add: stored_row_matches_def)
  have reason: "surrogate_free (case sr_unavailable_reason r of None \<Rightarrow> [] | Some t \<Rightarrow> t)"
    if "r \<in> set (references_of (sn_id s) db)" for r
    using that by (auto simp: refs reference_rows_def reference_row_def reference_candidate_def SOURCE_VALUE_MISSING_def)
  have data: "\<exists>j. canonical_reference_data db r = Inr j \<and> clean_json j" if r: "r \<in> set (references_of (sn_id s) db)" for r
    using got [OF r] canonical_reference_clean [OF reason [OF r]] by (auto simp: canonical_reference_data_def)
  obtain w mo y where rs: "references_of (sn_id s) db = [w, mo, y]" "sr_period w = WEEK" "sr_period mo = MONTH" "sr_period y = YEAR"
    by (simp add: refs reference_rows_def)
  obtain j0 j1 j2 where js: "canonical_reference_data db w = Inr j0" "canonical_reference_data db mo = Inr j1"
    "canonical_reference_data db y = Inr j2" "clean_json j0" "clean_json j1" "clean_json j2"
    using data [of w] data [of mo] data [of y] by (auto simp: rs(1))
  have snap: "canonical_snapshot_data s db = Inr (canonical_fact_json x s [j0, j1, j2])"
    using x shape js rs by (simp add: canonical_snapshot_data_def Let_def all_periods_def)
  have "clean_json (canonical_snapshot_json s)"
    using match A(7) by (simp add: canonical_snapshot_json_def stored_row_matches_def surrogate_free_sha256_text
        KAMIS_SOURCE_CONTRACT_REVISION_def)
  moreover have "clean_json (canonical_series_json x)"
    using accepted_series_texts(1) [OF m A(8), of x] match by (simp add: stored_row_matches_def)
  ultimately have "clean_json (canonical_fact_json x s [j0, j1, j2])"
    using js by (simp add: canonical_fact_json_def ENTRY_HASH_VERSION_def)
  then have "\<exists>bs. utf8 (dumps False (canonical_fact_json x s [j0, j1, j2])) = Some bs"
    using utf8_None surrogate_free_dumps by (metis not_None_eq surrogate_free_def list_all_iff)
  then show "\<exists>h. snapshot_fact_sha256 s db = Inr h"
    using snap by (auto simp: snapshot_fact_sha256_def canonical_fact_hash_def)
qed

section \<open>A completed run\<close>

lemma completed_run_ready:
  assumes m: "import_generation = Inr m" and inv: "price_inv db"
    and st: "list_all2 (row_stored m k db) rows (run_pairs k db)"
    and valid: "\<forall>p \<in> set rows. validate_row m p = Inr ()" and ne: "rows \<noteq> []"
  shows "eall (review_snapshot_clean db) (snapshots_of_run k db) = Inr ()"
    and "length (snapshots_of_run k db) = length rows"
    and "\<exists>facts. build_publication_fact_set (snapshots_of_run k db) db = Inr facts \<and> length (fs_entries facts) = length rows"
    and "\<forall>s \<in> set (snapshots_of_run k db). \<exists>x. snapshot_series db s = Some x
           \<and> si_coverage_identity (ser_identity x) = KAMIS_RETAIL_COVERAGE_IDENTITY"
proof -
  note P = run_pairs_snapshots [OF inv, of k]
  show len: "length (snapshots_of_run k db) = length rows"
    using arg_cong [OF P(1), of length] list_all2_lengthD [OF st] by simp
  have ready: "\<exists>x. review_snapshot_clean db s = Inr () \<and> (\<exists>h. snapshot_fact_sha256 s db = Inr h)
      \<and> snapshot_series db s = Some x \<and> si_coverage_identity (ser_identity x) = KAMIS_RETAIL_COVERAGE_IDENTITY"
    if s: "s \<in> set (snapshots_of_run k db)" for s
  proof -
    obtain x where sx: "(s, x) \<in> set (run_pairs k db)" using s unfolding P(1) [symmetric] by auto
    then have x: "snapshot_series db s = Some x"
      by (auto simp: run_pairs_def List.map_filter_def split: if_split_asm)
    obtain i where i: "i < length (run_pairs k db)" "run_pairs k db ! i = (s, x)" using sx by (metis in_set_conv_nth)
    then have "row_stored m k db (rows ! i) (s, x)" "validate_row m (rows ! i) = Inr ()"
      using st valid by (auto simp: list_all2_conv_all_nth)
    then show ?thesis using stored_row_ready [OF m inv, of k "rows ! i" s x] x by blast
  qed
  then show "eall (review_snapshot_clean db) (snapshots_of_run k db) = Inr ()"
    "\<forall>s \<in> set (snapshots_of_run k db). \<exists>x. snapshot_series db s = Some x
           \<and> si_coverage_identity (ser_identity x) = KAMIS_RETAIL_COVERAGE_IDENTITY"
    by (auto simp: eall_eq_Inr)
  let ?ss = "run_order k db"
  have "\<forall>s \<in> set (snapshots_of_run k db). \<exists>h. snapshot_fact_sha256 s db = Inr h" using ready by blast
  then obtain hash where hash: "\<forall>s \<in> set (snapshots_of_run k db). snapshot_fact_sha256 s db = Inr (hash s)"
    by (rule bchoice [THEN exE])
  define f where "f p = \<lparr>ce_ordinal = fst p, ce_snapshot = sn_id (snd p), ce_fact_sha256 = hash (snd p)\<rparr>" for p
  have "fact_entries ?ss db = Inr (map f (zip [1..<length ?ss + 1] ?ss))"
    unfolding fact_entries_def
  proof (rule emap_Inr_map)
    fix p
    assume "p \<in> set (zip [1..<length ?ss + 1] ?ss)"
    then have "snd p \<in> set (snapshots_of_run k db)"
      using run_order_set(1) [OF inv, of k] set_zip_rightD [of "fst p" "snd p" "[1..<length ?ss + 1]" ?ss]
      by (simp del: upt_Suc)
    then have "snapshot_fact_sha256 (snd p) db = Inr (hash (snd p))" using hash by blast
    then show "(case p of (i, s) \<Rightarrow> ebind (snapshot_fact_sha256 s db) (\<lambda>h.
        Inr \<lparr>ce_ordinal = i, ce_snapshot = sn_id s, ce_fact_sha256 = h\<rparr>)) = Inr (f p)"
      by (cases p) (simp add: f_def)
  qed
  moreover have "snapshots_of_run k db \<noteq> []" using len ne by auto
  ultimately have "build_publication_fact_set (snapshots_of_run k db) db
      = Inr (fact_set_of (map f (zip [1..<length ?ss + 1] ?ss)) (map sn_source_effective_date ?ss))"
    unfolding fact_set_Inr [OF inv] by simp
  then obtain facts where "build_publication_fact_set (snapshots_of_run k db) db = Inr facts" by simp
  then show "\<exists>facts. build_publication_fact_set (snapshots_of_run k db) db = Inr facts \<and> length (fs_entries facts) = length rows"
    using fact_set_members(3) [OF inv] len by auto
qed

end
