(* ===== verification/Publication_Examples.thy ===== *)
theory Publication_Examples
  imports Publication_Ready
begin

text \<open>
  The history of \<open>Generation_Examples\<close> continued: the completed generation is approved, sealed,
  sealed again and activated.
\<close>

section \<open>The completed generation\<close>

definition ready_history :: "generation_module \<Rightarrow> parse_run \<Rightarrow> canonical_fact_set \<Rightarrow> price_db \<Rightarrow> bool" where
  "ready_history m run facts p \<longleftrightarrow> price_reachable m p \<and> price_inv p
     \<and> get_row run_id 7 (db_runs p) = Some run \<and> run_id run = 7 \<and> run_status run = RUN_VALIDATED
     \<and> run_completed_at run = Some 40 \<and> run_result_hash run \<noteq> [] \<and> run_quarantined_row_count run = 0
     \<and> run_parser_revision run = KAMIS_PARSER_REVISION
     \<and> reviewed_source p (run_artifact run) \<and> run_artifact run \<in> ar_id ` set (db_artifacts p)
     \<and> length (snapshots_of_run 7 p) = run_accepted_row_count run
     \<and> eall (review_snapshot_clean p) (snapshots_of_run 7 p) = Inr ()
     \<and> build_publication_fact_set (snapshots_of_run 7 p) p = Inr facts \<and> length (fs_entries facts) = 10
     \<and> (\<forall>s \<in> set (snapshots_of_run 7 p). \<exists>x. snapshot_series p s = Some x
           \<and> si_coverage_identity (ser_identity x) = KAMIS_RETAIL_COVERAGE_IDENTITY)"

lemma ready_history_exists: "\<exists>m run facts p. ready_history m run facts p"
proof -
  obtain m r res db where h: "example_history m r res db" using example_history_exists by blast
  then have h': "import_generation = Inr m" "ready_to_complete m receipt_ids 40 r res db" "validate_result m res = Inr 10"
    "length (res_rows res) = 10" "price_reachable m db" "run_id r = 7" "run_parser_revision r = KAMIS_PARSER_REVISION"
    "reviewed_source db (run_artifact r)" "run_artifact r \<in> ar_id ` set (db_artifacts db)"
    by (simp_all add: example_history_def)
  have sys: "system_inv db" using h'(5) by (rule reachable_system_inv)
  then have inv: "price_inv db" by (simp add: system_inv_def)
  let ?r = "validated_run 40 res 10 r"
  obtain p ss where run: "complete_kamis_parse_generation m receipt_ids 40 7 res db
      = Inr (\<lparr>cg_parse_run = ?r, cg_snapshots = ss, cg_replayed = False\<rparr>, p)"
    and st: "list_all2 (row_stored m 7 p) (res_rows res) (run_pairs 7 p)"
    using first_completion [OF h'(1) inv h'(2,3)] by (auto simp: h'(6))
  have "complete_generation_body m receipt_ids 40 7 res p
      = Inr (\<lparr>cg_parse_run = ?r, cg_snapshots = ss, cg_replayed = True\<rparr>, p)"
    using completion_replays [OF sys run rtranclp.rtrancl_refl, of receipt_ids 40]
    by (simp add: complete_kamis_parse_generation_def at_boundary_Inr)
  then have row: "get_row run_id 7 (db_runs p) = Some ?r"
    by (cases rule: complete_body_Inr) (auto simp: get_run_def db_step_Inr of_option_eq_Inr elim!: ebind_InrE)
  have step: "price_step m db p" by (rule price_step.complete_run [OF run])
  have inv': "price_inv p" using price_step_keeps [OF step sys] by (simp add: system_inv_def)
  have rows: "\<forall>q \<in> set (res_rows res). validate_row m q = Inr ()" and hash: "res_result_hash res \<noteq> []"
    using h'(3) canonical_hash_text [of "result_json (res_rows res) (res_out_of_scope_row_hashes res)" "res_result_hash res"]
    by (auto simp: validate_result_def require_eq_Inr eall_eq_Inr of_option_eq_Inr sha256_text_def elim!: ebind_InrE)
  have ne: "res_rows res \<noteq> []" using h'(4) by auto
  note R = completed_run_ready [OF h'(1) inv' st rows]
  have acq: "fetch_db.truncate p = fetch_db.truncate db"
    using complete_run_same_acquisition [OF run] by (simp add: same_acquisition_def)
  have "reviewed_source p (run_artifact r)" "run_artifact r \<in> ar_id ` set (db_artifacts p)"
    using h'(8,9) arg_cong [OF acq, of db_sources] arg_cong [OF acq, of db_corrections] arg_cong [OF acq, of db_attempts]
      arg_cong [OF acq, of db_artifacts]
    by (simp_all add: reviewed_source_def fetch_db.defs)
  moreover obtain facts where "build_publication_fact_set (snapshots_of_run 7 p) p = Inr facts"
    "length (fs_entries facts) = 10"
    using R(3) [OF ne] h'(4) by auto
  moreover have "price_reachable m p" using h'(5) step by (simp add: price_reachable_def)
  ultimately have "ready_history m ?r facts p"
    using row inv' R(1,2,4) [OF ne] h'(6,7) hash
    by (simp add: ready_history_def) (simp add: validated_run_def accepted_row_count_def)
  then show ?thesis by blast
qed

section \<open>An approval\<close>

definition unreviewed :: "price_db \<Rightarrow> publication_db" where
  "unreviewed p = price_db.extend p
     \<lparr>db_reviews = [], db_revisions = [], db_entries = [], db_channel = None, db_activations = []\<rparr>"

lemma unreviewed_tables [simp]:
  "db_reviews (unreviewed p) = []" "db_revisions (unreviewed p) = []" "db_entries (unreviewed p) = []"
  "db_channel (unreviewed p) = None" "db_activations (unreviewed p) = []"
  "price_db.truncate (unreviewed p) = p" "db_sources (unreviewed p) = db_sources p"
  "db_corrections (unreviewed p) = db_corrections p" "db_artifacts (unreviewed p) = db_artifacts p"
  "db_attempts (unreviewed p) = db_attempts p" "db_runs (unreviewed p) = db_runs p"
  "db_series (unreviewed p) = db_series p" "db_snapshots (unreviewed p) = db_snapshots p"
  "db_references (unreviewed p) = db_references p" "db_changes (unreviewed p) = db_changes p"
  by (cases p, simp add: unreviewed_def price_db.defs)+

lemma unreviewed_reachable: "price_reachable m p \<Longrightarrow> publication_reachable m users (unreviewed p)"
  unfolding price_reachable_def publication_reachable_def
proof (induction rule: rtranclp_induct)
  case base
  then show ?case by (simp add: unreviewed_def empty_publication_db_def)
next
  case (step y z)
  have "publication_step m users (unreviewed y) (price_db.extend z (price_db.more (unreviewed y)))"
    using step.hyps(2) by (intro publication_step.facts) simp
  moreover have "price_db.extend z (price_db.more (unreviewed y)) = unreviewed z"
    by (simp add: unreviewed_def price_db.defs)
  ultimately show ?case using step.IH by simp
qed

definition staff :: actor where
  "staff = \<lparr>act_pk = Some 1, act_is_authenticated = True, act_is_active = True, act_has_perm = Some (\<lambda>_. True)\<rparr>"

definition any_sha256 :: pystr where
  "any_sha256 = replicate 64 48"

definition approval_arguments :: "uuid \<Rightarrow> review_arguments" where
  "approval_arguments a =
     \<lparr>ra_decision = Some APPROVE, ra_source_configuration = SOURCE_GATE_CONFIGURATION_ID, ra_source_artifact = a,
      ra_parse_run = 7, ra_reconciliation_report_sha256 = any_sha256, ra_acceptance_evidence_sha256 = any_sha256,
      ra_reason_code = lit ''OK'', ra_approved_mode = lit ''RECENT_COMPARISON'',
      ra_approved_coverage_identity = KAMIS_RETAIL_COVERAGE_IDENTITY,
      ra_approved_coverage_evidence_revision = IDENTITY_EVIDENCE_REVISION, ra_supersedes = None\<rparr>"

definition approval :: "uuid \<Rightarrow> review_decision" where
  "approval a = review_candidate 50 1 KAMIS_GATE_CONFIRMED_AT APPROVE (approval_arguments a)"

definition approved :: "price_db \<Rightarrow> uuid \<Rightarrow> publication_db" where
  "approved p a = (unreviewed p)\<lparr>db_reviews := [approval a]\<rparr>"

lemma approval_simps [simp]:
  "rd_id (approval a) = 50" "rd_decision (approval a) = APPROVE" "rd_decided_at (approval a) = KAMIS_GATE_CONFIRMED_AT"
  "rd_source_configuration (approval a) = SOURCE_GATE_CONFIGURATION_ID" "rd_source_artifact (approval a) = a"
  "rd_parse_run (approval a) = 7" "rd_approved_mode (approval a) = lit ''RECENT_COMPARISON''"
  "rd_approved_coverage_identity (approval a) = KAMIS_RETAIL_COVERAGE_IDENTITY"
  "rd_approved_coverage_evidence_revision (approval a) = IDENTITY_EVIDENCE_REVISION" "rd_supersedes (approval a) = None"
  by (simp_all add: approval_def review_candidate_def approval_arguments_def)

lemma contract_row_simps:
  "sc_id contract_row = SOURCE_GATE_CONFIGURATION_ID" "sc_state contract_row = ACTIVE"
  "sc_publication_mode contract_row = RECENT_COMPARISON" "sc_coverage_identity contract_row = KAMIS_RETAIL_COVERAGE_IDENTITY"
  "sc_coverage_evidence_revision contract_row = IDENTITY_EVIDENCE_REVISION"
  "sc_rights_evidence_locator contract_row \<noteq> []" "sc_rights_evidence_sha256 contract_row \<noteq> []"
  "sc_state_changed_at contract_row = KAMIS_GATE_CONFIRMED_AT"
  "sc_rights_confirmed_at contract_row = Some KAMIS_GATE_CONFIRMED_AT"
  by (simp_all add: EXPECTED_CONTRACT_FIELDS_def KAMIS_RIGHTS_EVIDENCE_LOCATOR_def OFFICIAL_DOCS_ZIP_SHA256_def lit_def)

lemma approval_recorded:
  assumes "ready_history m run facts p"
  shows "record_review_decision (\<lambda>_. True) KAMIS_GATE_CONFIRMED_AT 50 staff (approval_arguments (run_artifact run)) (unreviewed p)
    = Inr (approval (run_artifact run), True, approved p (run_artifact run))"
proof -
  let ?a = "run_artifact run" and ?db = "unreviewed p"
  note H = assms [unfolded ready_history_def]
  have src: "get_row sc_id SOURCE_GATE_CONFIGURATION_ID (db_sources p) = Some contract_row" "db_corrections p = []"
    using H by (simp_all add: reviewed_source_def)
  have art: "\<exists>x. get_row ar_id ?a (db_artifacts p) = Some x" using H get_row_None [of ar_id ?a "db_artifacts p"] by auto
  have same: "snapshots_of_run 7 ?db = snapshots_of_run 7 p" "review_snapshot_clean ?db = review_snapshot_clean p"
    by (simp_all add: snapshots_of_run_def review_snapshot_clean_def [abs_def] references_of_def has_change_def [abs_def])
  have sha: "SHA256_PATTERN any_sha256" "upper_code (lit ''OK'')"
    by (simp_all add: SHA256_PATTERN_def sha256_text_def any_sha256_def is_lower_hex_def is_digit_def list_all_iff
        upper_code_def is_upper_def lit_def)
  have fields: "review_fields (approval ?a)" "review_constraints (approval ?a)"
    using sha SHA256_PATTERN_length [OF sha(1)]
    by (simp_all add: review_fields_def review_constraints_def)
       (simp_all add: approval_def review_candidate_def approval_arguments_def char_field_def code_validator_def
          dollar_def mode_choices_def blank_field_def KAMIS_RETAIL_COVERAGE_IDENTITY_def IDENTITY_EVIDENCE_REVISION_def)
  have run: "get_row run_id 7 (db_runs p) = Some run" using H by simp
  have "list_ex (\<lambda>x. fa_source_configuration x = SOURCE_GATE_CONFIGURATION_ID \<and> fa_artifact x = Some ?a
      \<and> fa_state x = SUCCEEDED) (db_attempts p)"
    using H by (simp add: reviewed_source_def)
  then have "review_source_clean (approval ?a) contract_row run ?db = Inr ()"
    unfolding review_source_clean_def effective_gate_timestamps_def
    by (simp add: src(2) contract_row_simps require_def)
  moreover have "review_chain_clean True (approval ?a) ?db = Inr ()"
    by (simp add: review_chain_clean_def require_def)
  moreover have "review_verdict_clean (approval ?a) contract_row run ?db = Inr ()"
    using H by (simp add: review_verdict_clean_def contract_row_simps require_def Let_def same)
  ultimately have clean: "review_clean True (approval ?a) ?db = Inr ()"
    using src(1) art run by (auto simp: review_clean_def)
  have links: "review_links (\<lambda>_. True) (approval ?a) ?db" "review_unique (approval ?a) (db_reviews ?db)"
    using H get_row_key [OF src(1)] get_row_key [OF run]
    by (simp_all add: review_links_def review_unique_def)
  have "price_keys ?db" using H by (simp add: price_inv_def price_keys_def)
  then have saved: "save_review (\<lambda>_. True) True (approval ?a) ?db = Inr (approved p ?a)"
    using fields clean links by (simp add: save_review_iff approved_def)
  show ?thesis
    using saved src(1) art run
    by (auto simp: record_review_decision_def authorized_def staff_def approval_arguments_def Let_def approval_def)
qed

text \<open>The approved generation can be sealed.\<close>

lemma approved_reachable:
  assumes "ready_history m run facts p"
  shows "publication_reachable m (\<lambda>_. True) (approved p (run_artifact run))"
proof -
  have "publication_reachable m (\<lambda>_. True) (unreviewed p)"
    using assms by (intro unreviewed_reachable) (simp add: ready_history_def)
  then show ?thesis
    using publication_step.review [OF approval_recorded [OF assms], of m] by (simp add: publication_reachable_def)
qed

lemma approved_sealable:
  assumes "ready_history m run facts p"
  shows "sealable 50 (approved p (run_artifact run)) (approval (run_artifact run)) contract_row run facts"
proof -
  let ?d = "approval (run_artifact run)" and ?db = "approved p (run_artifact run)"
  note H = assms [unfolded ready_history_def]
  have same: "db_series ?db = db_series p" "db_snapshots ?db = db_snapshots p" "db_references ?db = db_references p"
    "db_changes ?db = db_changes p"
    by (simp_all add: approved_def)
  have tail: "require_review_tail ?d ?db = Inr ()"
    by (simp add: require_review_tail_def approved_def is_superseded_def require_def)
  note C = build_fact_set_cong [OF same]
  have rows: "get_row rd_id 50 (db_reviews ?db) = Some ?d" "db_sources ?db = db_sources p" "db_runs ?db = db_runs p"
    by (simp_all add: approved_def)
  have contract: "require_publication_contract ?d contract_row run = Inr ()"
    using H by (simp add: require_publication_contract_def require_def contract_row_simps KAMIS_PARSER_REVISION_def)
  have coverage: "list_all (coverage_approved ?d ?db) (snapshots_of_run 7 p)"
    using H by (auto simp: list_all_iff coverage_approved_def C(5))
  show ?thesis
    using H tail contract coverage by (simp add: sealable_def C(1,3) rows reviewed_source_def)
qed

section \<open>The seal\<close>

definition seal_ids :: "nat \<Rightarrow> uuid" where
  "seal_ids n = n + 200"

abbreviation copy_text :: pystr where
  "copy_text \<equiv> lit ''recent-copy-1''"

definition candidate_of :: "price_db \<Rightarrow> parse_run \<Rightarrow> canonical_fact_set \<Rightarrow> publication_revision" where
  "candidate_of p run facts = publication_candidate (seal_ids 0) 60 (approval (run_artifact run)) run facts copy_text"

lemma seal_conditions:
  assumes "ready_history m run facts p"
  defines "db \<equiv> approved p (run_artifact run)"
  shows "copy_revision_text copy_text" and "length (run_parser_revision run) \<le> 64"
    and "integer_field (length (fs_entries facts))" and "(60 :: instant) \<le> 61"
    and "\<not> list_ex (same_publication (candidate_of p run facts)) (db_revisions db)"
    and "new_publication_ids seal_ids (length (fs_entries facts)) db"
  using assms(1)
  by (simp_all add: ready_history_def copy_revision_text_def lit_def is_lower_def is_digit_def integer_field_def
      KAMIS_PARSER_REVISION_def db_def approved_def new_publication_ids_def seal_ids_def inj_on_def)

lemma first_seal_publishes_witness:
  "\<exists>m run facts p v db'. ready_history m run facts p
     \<and> seal_recent_publication seal_ids 60 61 50 copy_text (approved p (run_artifact run)) = Inr (v, db')
     \<and> pv_sealed_at v = Some 61 \<and> pv_entry_count v = 10"
proof -
  obtain m run facts p where H: "ready_history m run facts p" using ready_history_exists by blast
  note R = approved_reachable [OF H] and S = approved_sealable [OF H] and C = seal_conditions [OF H]
  have n: "length (fs_entries facts) = 10" using H by (simp add: ready_history_def)
  obtain v db' where s: "seal_recent_publication seal_ids 60 61 50 copy_text (approved p (run_artifact run)) = Inr (v, db')"
    and v: "v = sealed_row (candidate_of p run facts) 61"
    using first_seal_publishes [OF R S candidate_of_def C(1-6)] by blast
  have "pv_sealed_at v = Some 61" "pv_entry_count v = 10"
    using n by (simp_all add: v candidate_of_def publication_candidate_def)
  then show ?thesis using H s by blast
qed

text \<open>The state after the seal.\<close>

lemma sealed_history_exists:
  "\<exists>m run facts p v db'. ready_history m run facts p
     \<and> seal_recent_publication seal_ids 60 61 50 copy_text (approved p (run_artifact run)) = Inr (v, db')
     \<and> publication_reachable m (\<lambda>_. True) db' \<and> pv_id v = 200 \<and> sealable 50 db' (approval (run_artifact run)) contract_row run facts
     \<and> target_approved 200 db' \<and> db_channel db' = None \<and> db_activations db' = []"
proof -
  obtain m run facts p where H: "ready_history m run facts p" using ready_history_exists by blast
  let ?db = "approved p (run_artifact run)"
  note R = approved_reachable [OF H] and S = approved_sealable [OF H] and C = seal_conditions [OF H]
  obtain v db' where s: "seal_recent_publication seal_ids 60 61 50 copy_text ?db = Inr (v, db')"
    and v: "v = sealed_row (candidate_of p run facts) 61"
    using first_seal [OF publication_reachable_inv [OF R] S candidate_of_def C(1-6)] by blast
  have reach: "publication_reachable m (\<lambda>_. True) db'"
    using R publication_step.seal [OF s] by (auto simp: publication_reachable_def intro: rtranclp.rtrancl_into_rtrancl)
  let ?es = "map (sealed_entry seal_ids (pv_id (candidate_of p run facts))) (fs_entries facts)"
  have db': "db' = ?db\<lparr>db_revisions := [v], db_entries := ?es\<rparr>"
    using S s
  proof (cases rule: seal_Inr_cases)
    case replay
    then show ?thesis by (simp add: approved_def)
  next
    case new
    show ?thesis unfolding new(4) by (simp add: approved_def candidate_of_def)
  qed
  have id: "pv_id v = 200" "pv_sealed_at v = Some 61" "pv_review_decision v = 50"
    by (simp_all add: v candidate_of_def publication_candidate_def sealed_row_def seal_ids_def)
  have "sealable 50 db' (approval (run_artifact run)) contract_row run facts"
    using S by (simp add: sealable_def db' require_review_tail_def)
  moreover have "target_approved 200 db'"
    by (simp add: target_approved_def db' id approved_def)
  ultimately show ?thesis using H s reach id(1) by (intro exI conjI) (assumption | simp add: db' approved_def)+
qed

lemma sealed_publication_replays_witness:
  "\<exists>m run facts p v db'. ready_history m run facts p
     \<and> seal_recent_publication seal_ids 60 61 50 copy_text (approved p (run_artifact run)) = Inr (v, db')
     \<and> seal_recent_publication example_ids 70 71 50 copy_text db' = Inr (v, db')"
proof -
  obtain m run facts p v db' where H: "ready_history m run facts p"
    and s: "seal_recent_publication seal_ids 60 61 50 copy_text (approved p (run_artifact run)) = Inr (v, db')"
    and S: "sealable 50 db' (approval (run_artifact run)) contract_row run facts"
    using sealed_history_exists by blast
  have "seal_recent_publication example_ids 70 71 50 copy_text db' = Inr (v, db')"
    by (rule sealed_publication_replays [OF approved_reachable [OF H] s rtranclp.rtrancl_refl S])
  then show ?thesis using H s by blast
qed

lemma recorded_review_becomes_tail_witness:
  "\<exists>m run facts p db'. ready_history m run facts p \<and> db' = approved p (run_artifact run)
     \<and> review_history (review_generation (approval (run_artifact run))) db' = [approval (run_artifact run)]
     \<and> require_review_tail (approval (run_artifact run)) db' = Inr ()"
proof -
  obtain m run facts p where H: "ready_history m run facts p" using ready_history_exists by blast
  have "publication_reachable m (\<lambda>_. True) (unreviewed p)"
    using H by (intro unreviewed_reachable) (simp add: ready_history_def)
  note tail = recorded_review_becomes_tail [OF this approval_recorded [OF H]]
  have h: "review_history (review_generation (approval (run_artifact run))) (unreviewed p) = []"
    by (simp add: review_history_def)
  have h': "review_history (review_generation (approval (run_artifact run))) (approved p (run_artifact run)) = [approval (run_artifact run)]"
    using tail unfolding h by simp
  moreover have "require_review_tail (approval (run_artifact run)) (approved p (run_artifact run)) = Inr ()"
    using tail unfolding h' by simp
  ultimately show ?thesis using H by blast
qed

lemma recorded_review_replays_witness:
  "\<exists>m run facts p v db'. ready_history m run facts p
     \<and> seal_recent_publication seal_ids 60 61 50 copy_text (approved p (run_artifact run)) = Inr (v, db')
     \<and> record_review_decision (\<lambda>_. True) 99 50 staff (approval_arguments (run_artifact run)) db'
         = Inr (approval (run_artifact run), False, db')"
proof -
  obtain m run facts p v db' where H: "ready_history m run facts p"
    and s: "seal_recent_publication seal_ids 60 61 50 copy_text (approved p (run_artifact run)) = Inr (v, db')"
    using sealed_history_exists by blast
  have "publication_reachable m (\<lambda>_. True) (unreviewed p)"
    using H by (intro unreviewed_reachable) (simp add: ready_history_def)
  moreover have "(publication_step m (\<lambda>_. True))\<^sup>*\<^sup>* (approved p (run_artifact run)) db'"
    using publication_step.seal [OF s] by blast
  ultimately show ?thesis
    using recorded_review_replays [OF _ approval_recorded [OF H], of m db' 99] H s by blast
qed

lemma database_recomputes_the_hash_witness:
  "\<exists>m run facts p s h. ready_history m run facts p \<and> s \<in> set (db_snapshots p)
     \<and> sql_snapshot_fact_sha256 (sn_id s) (unreviewed p) = Some h"
proof -
  obtain m run facts p where H: "ready_history m run facts p" using ready_history_exists by blast
  then have R: "publication_reachable m (\<lambda>_. True) (unreviewed p)"
    by (intro unreviewed_reachable) (simp add: ready_history_def)
  have price: "price_inv (unreviewed p)" by (rule publication_price_inv [OF publication_reachable_inv [OF R]])
  have "build_publication_fact_set (snapshots_of_run 7 (unreviewed p)) (unreviewed p) = Inr facts"
    using H build_fact_set_cong(1,3) [of "unreviewed p" p] by (simp add: ready_history_def)
  note F = fact_set_members [OF price this]
  obtain s where s: "s \<in> set (snapshots_of_run 7 (unreviewed p))" using F(4) by (cases "snapshots_of_run 7 (unreviewed p)") auto
  then have "s \<in> set (run_order 7 (unreviewed p))" using run_order_set(1) [OF price] by blast
  then obtain i where i: "i < length (run_order 7 (unreviewed p))" "run_order 7 (unreviewed p) ! i = s"
    by (auto simp: in_set_conv_nth)
  have h: "snapshot_fact_sha256 s (unreviewed p) = Inr (ce_fact_sha256 (fs_entries facts ! i))"
    using list_all2_nthD [OF F(5) i(1)] i(2) by simp
  have m: "s \<in> set (db_snapshots (unreviewed p))" using s by (simp add: snapshots_of_run_def)
  show ?thesis
    using database_recomputes_the_hash [OF R m h] m H by (intro exI conjI) (assumption | simp)+
qed

section \<open>The activation\<close>

definition activation_arguments :: "uuid \<Rightarrow> transition_arguments" where
  "activation_arguments k = \<lparr>ta_operation_id = Some 300, ta_operation = Some ACTIVATE, ta_target_revision = Some k,
     ta_expected_current_revision = None, ta_expected_version = Some 0, ta_reason_code = lit ''OK'',
     ta_acceptance_evidence_sha256 = any_sha256\<rparr>"

lemma activation_valid:
  assumes "db_channel db = None"
  shows "activation_arguments k = \<lparr>ta_operation_id = Some 300, ta_operation = Some ACTIVATE, ta_target_revision = Some k,
      ta_expected_current_revision = snd (recent_pointer db), ta_expected_version = Some (int (fst (recent_pointer db))),
      ta_reason_code = lit ''OK'', ta_acceptance_evidence_sha256 = any_sha256\<rparr>"
    and "evidence_valid (\<lambda>_. True) 1 (fst (recent_pointer db)) (activation_arguments k)"
    and "snd (recent_pointer db) \<noteq> Some k"
  using assms
  by (simp_all add: activation_arguments_def recent_pointer_def evidence_valid_def big_field_def
      SHA256_PATTERN_def sha256_text_def any_sha256_def is_lower_hex_def is_digit_def list_all_iff upper_code_def is_upper_def
      lit_def)

lemma staff_publishes: "authorized ''grocery.publish_publication'' staff = Some 1"
  by (simp add: authorized_def staff_def)

lemma approved_target_activates_witness:
  "\<exists>(db :: publication_db) a db'. target_approved 200 db
     \<and> transition_recent_publication (\<lambda>_. True) 80 staff (activation_arguments 200) db = Inr (a, True, db')
     \<and> recent_pointer db' = (1, Some 200)"
proof -
  obtain m db' where R: "publication_reachable m (\<lambda>_. True) db'" and t: "target_approved 200 db'"
    and c: "db_channel db' = None" "db_activations db' = []"
    using sealed_history_exists by blast
  note V = activation_valid [OF c(1), of 200]
  have i: "300 \<notin> pa_id ` set (db_activations db')" by (simp add: c)
  have v: "fst (recent_pointer db') = 0" by (simp add: recent_pointer_def c)
  show ?thesis
    using t approved_target_activates [OF R staff_publishes t V(3) i V(1,2), of 80] unfolding v by auto
qed

text \<open>The state after the activation.\<close>

lemma activated_history_exists:
  "\<exists>m db db0 a. publication_reachable m (\<lambda>_. True) db \<and> recent_pointer db = (1, Some 200)
     \<and> map pa_id (db_activations db) = [300] \<and> publication_reachable m (\<lambda>_. True) db0
     \<and> transition_recent_publication (\<lambda>_. True) 80 staff (activation_arguments 200) db0 = Inr (a, True, db)"
proof -
  obtain m db where R: "publication_reachable m (\<lambda>_. True) db" and t: "target_approved 200 db"
    and c: "db_channel db = None" "db_activations db = []"
    using sealed_history_exists by blast
  note V = activation_valid [OF c(1), of 200]
  have chan: "channel_inv db" using publication_reachable_inv [OF R] by (simp add: publication_inv_def)
  have approved: "target_approved 200 (with_channel db)"
    using t by (simp add: target_approved_def cong: option.case_cong)
  let ?a = "activation_row 300 ACTIVATE 0 1 80 (activation_arguments 200)"
  have p: "recent_pointer db = (0, None)" by (simp add: recent_pointer_def c)
  have run: "transition_recent_publication (\<lambda>_. True) 80 staff (activation_arguments 200) db
      = Inr (?a, True, record_transition ?a (with_channel db))"
    unfolding transition_outcome [OF chan] using approved V(2) staff_publishes
    by (simp add: c p activation_arguments_def check_transition_def require_def Let_def)
  have "recent_pointer (record_transition ?a (with_channel db)) = (1, Some 200)"
    "map pa_id (db_activations (record_transition ?a (with_channel db))) = [300]"
    by (simp_all add: c record_transition_def recent_pointer_def activation_row_def activation_arguments_def)
  moreover have "publication_reachable m (\<lambda>_. True) (record_transition ?a (with_channel db))"
    using R publication_step.transition [OF run] by (auto simp: publication_reachable_def intro: rtranclp.rtrancl_into_rtrancl)
  ultimately show ?thesis using R run by (intro exI conjI) assumption+
qed

lemma current_revision_is_reviewed_witness:
  "\<exists>(db :: publication_db) v d facts run. snd (recent_pointer db) = Some 200 \<and> get_row pv_id 200 (db_revisions db) = Some v
     \<and> published_as db v d facts run"
proof -
  obtain m db where R: "publication_reachable m (\<lambda>_. True) db" and p: "snd (recent_pointer db) = Some 200"
    using activated_history_exists by fastforce
  obtain v d facts run where "get_row pv_id 200 (db_revisions db) = Some v" "published_as db v d facts run"
    using current_revision_is_reviewed [OF R p] by blast
  then show ?thesis using p by blast
qed

lemma recent_channel_refines_history_witness:
  "\<exists>m db. publication_reachable m (\<lambda>_. True) db \<and> recent_pointer db = (1, Some 200) \<and> targets (recent_events db) = [Some 200]"
proof -
  obtain m db where R: "publication_reachable m (\<lambda>_. True) db" and p: "recent_pointer db = (1, Some 200)"
    using activated_history_exists by blast
  have "recent_pointer db = (length (targets (recent_events db)),
      if targets (recent_events db) = [] then None else last (targets (recent_events db)))"
    using recent_channel_refines_history [OF R rtranclp.rtrancl_refl] by blast
  then have "targets (recent_events db) = [Some 200]"
    using p by (cases "targets (recent_events db)") (auto split: if_split_asm)
  then show ?thesis using R p by blast
qed

lemma transition_is_decided_by_the_service_witness:
  "\<exists>db :: publication_db. snd (recent_pointer db) = Some 200
     \<and> transition_recent_publication (\<lambda>_. True) 90 staff ((activation_arguments 200)\<lparr>ta_operation_id := Some 301\<rparr>) db
         = Inl (ValidationError ''Publication expectation is stale.'')"
proof -
  obtain m db where R: "publication_reachable m (\<lambda>_. True) db" and p: "recent_pointer db = (1, Some 200)"
    and ids: "map pa_id (db_activations db) = [300]"
    using activated_history_exists by (elim exE conjE) (rule that)
  have "301 \<notin> set (map pa_id (db_activations db))" unfolding ids by simp
  then have "get_row pa_id 301 (db_activations db) = None" by (simp add: get_row_None)
  then have "transition_recent_publication (\<lambda>_. True) 90 staff ((activation_arguments 200)\<lparr>ta_operation_id := Some 301\<rparr>) db
      = Inl (ValidationError ''Publication expectation is stale.'')"
    unfolding transition_is_decided_by_the_service [OF R]
    using staff_publishes by (simp add: p activation_arguments_def check_transition_def require_def)
  then show ?thesis using p by (intro exI [of _ db]) simp
qed

lemma recorded_transition_replays_witness:
  "\<exists>(db :: publication_db) a. snd (recent_pointer db) = Some 200
     \<and> transition_recent_publication (\<lambda>_. True) 99 staff (activation_arguments 200) db = Inr (a, False, db)"
proof -
  obtain m db db0 a where p: "recent_pointer db = (1, Some 200)" and R: "publication_reachable m (\<lambda>_. True) db0"
    and run: "transition_recent_publication (\<lambda>_. True) 80 staff (activation_arguments 200) db0 = Inr (a, True, db)"
    using activated_history_exists by blast
  have "transition_recent_publication (\<lambda>_. True) 99 staff (activation_arguments 200) db = Inr (a, False, db)"
    by (rule recorded_transition_replays [OF R run rtranclp.rtrancl_refl])
  then show ?thesis using p by (intro exI [of _ db] exI [of _ a]) simp
qed

end
