(* ===== verification/Spec2Isabelle.thy ===== *)
theory Spec2Isabelle
  imports Pricing Publication_Examples
begin

text \<open>
  Verification of the grocery seasonality service: how a recent retail price travels from the
  provider's HTTP answer to the one revision the public pages show, and why every step of that way
  can be trusted. Paths are relative to \<open>src/\<close>.

  \<^bold>\<open>The program.\<close> A run of the recent side has six stations.

  \<^item> A source configuration is bootstrapped from the approved contract
    (\<open>grocery/source/configuration.py\<close>, \<open>SourceConfiguration\<close> in \<open>grocery/models.py\<close>).
  \<^item> A bounded HTTP client fetches all pages (\<open>grocery/source/client.py\<close>), and its result or its
    redacted error is stored as evidence: attempt, page receipts, artifact
    (\<open>grocery/source/persistence.py\<close>).
  \<^item> The parser turns the rows into typed observations of ten reviewed series
    (\<open>grocery/source/kamis.py\<close>, \<open>grocery/source/registry.py\<close>).
  \<^item> One parse generation stores series, snapshots, references and the change facts computed by
    \<open>grocery/pricing.py\<close> (\<open>grocery/source/generation.py\<close>).
  \<^item> A reviewer decides on the generation (\<open>ReviewDecision\<close>, \<open>record_review_decision\<close>), and the
    latest approval is sealed into a publication revision over a canonical hash of its facts
    (\<open>seal_recent_publication\<close>, \<open>grocery/publication_facts.py\<close>).
  \<^item> A publisher activates, rolls back or withdraws a revision by moving the guarded pointer of
    the channel (\<open>transition_recent_publication\<close>).

  Beside it stand the contracts and requests of the historical endpoints
  (\<open>grocery/source/historical_contract.py\<close>, \<open>grocery/source/historical_client.py\<close>).

  \<^bold>\<open>How it is modelled.\<close> The components share one state, the record of the database tables, which
  grows by record extension: \<open>fetch_db\<close> (acquisition), \<open>price_db\<close> (generation), \<open>review_db\<close>,
  \<open>seal_db\<close> and \<open>publication_db\<close>. An operation is a function of its arguments and the state that
  returns the new state or an exception as \<open>Inl\<close>; an exception leaves no state, as
  \<open>transaction.atomic\<close> does. A model's \<open>save\<close> is one definition that runs the checks of
  \<open>full_clean\<close> in the order of the framework (fields, \<open>clean\<close>, uniqueness, constraints) and then
  the insert triggers of the database, which are written out from the migrations 0005 to 0008 and
  0010 in the database's own arithmetic and texts; a deferred trigger runs at the end of the atomic
  block. Identifiers, times, users and the other side of the network are
  arguments. Concurrency appears as the order of steps: an operation is one transaction of the
  code and one step of a step relation, and the theorems quantify over all runs of steps.

  \<^bold>\<open>Theories.\<close>

  \<^item> \<open>Prelude\<close>, \<open>Py_Text\<close>, \<open>Py_Json\<close>, \<open>Sha256\<close>, \<open>Url_Encoding\<close>, \<open>Py_Decimal\<close>, \<open>Percent_Rounding\<close>:
    the failure monad with its simp sets, and what the code uses of Python (text, JSON, digests on
    32-bit words, \<open>urlencode\<close> with its encoding error, decimals at context precision).
  \<^item> \<open>System_Runs\<close>: the contracts of the layers as locales. A \<open>started_system\<close> keeps an invariant
    and only grows; a \<open>replayed_operation\<close> answers a repeated request from what it stored. They are
    interpreted on the acquisition side (\<open>acquisition\<close> in \<open>Fetch_Evidence\<close>), on the generations
    (\<open>generation\<close> and \<open>completion\<close> in \<open>Generation_Evidence\<close>) and on the whole recent side
    (\<open>recent_side\<close> in \<open>Publication_System\<close>; \<open>seals\<close>, \<open>decisions\<close> and \<open>transitions\<close> in
    \<open>Publication_Theorems\<close>).
  \<^item> \<open>Pricing\<close>: \<open>grocery/pricing.py\<close>. The two roundings of a percentage give the exact quotient
    rounded half up. \<open>Sql_Numeric\<close> is the same percentage in the \<open>numeric\<close> arithmetic of the trigger
    on change facts, and its agreement.
  \<^item> \<open>Kamis_Identity\<close>, \<open>Kamis_Parser\<close>, \<open>Kamis_Parser_Examples\<close>, \<open>Daily_Rows\<close>: registry and
    parser. A parse depends neither on the order of rows nor on hash seeds, reconciles its counts,
    fails closed, and reads back what a provider renders.
  \<^item> \<open>Historical_Contract\<close>, \<open>Historical_Client\<close>: bounded queries and value-free request shapes;
    a built query reads back as exactly its parameters.
  \<^item> \<open>Kamis_Client\<close>, \<open>Kamis_Client_Proofs\<close>: the client against any server. It ends after at most
    twelve calls; success is complete; transport errors are redacted; a credential that UTF-8
    can encode does not leak, one with a lone surrogate does, in the encoding error of its query.
  \<^item> \<open>Db_Tables\<close>, \<open>Db_Models\<close>, \<open>Source_Config\<close>, \<open>Fetch_Persistence\<close>, \<open>Fetch_Evidence\<close>,
    \<open>Fetch_Outcomes\<close>, \<open>Fetch_Examples\<close>: configuration and evidence. The invariant of the system
    says that counters, receipts and artifact of every attempt agree; finished evidence is
    append-only; what the client returns is stored once and replays.
  \<^item> \<open>Price_Models\<close>, \<open>Generation\<close>, \<open>Generation_Contract\<close>, \<open>Generation_Run\<close>, \<open>Price_Evidence\<close>,
    \<open>Generation_Evidence\<close>, \<open>Generation_Examples\<close>: the generation. Every stored change fact is the
    recalculation of its stored prices; facts are only added; a first completion succeeds and a
    later one replays.
  \<^item> \<open>Review_Models\<close> and \<open>Review_Chain\<close>: decisions. The rows of one generation are an append-only
    history, each superseding the one before; the last one counts.
  \<^item> \<open>Publication_Facts\<close>, \<open>Publication\<close>, \<open>Publication_Evidence\<close>, \<open>Publication_Seal\<close>: fact sets
    and seals. The SQL function of the database recomputes the hash of the service; a replay
    answers the stored revision; no trigger refuses what the service lets through.
  \<^item> \<open>Guarded_Pointer\<close>, \<open>Activation\<close>, \<open>Activation_Machine\<close>: the pointer. The locale
    \<open>guarded_pointer\<close> states what a pointer with a version and an event log promises, over any
    state, and proves that it implements the list of targets installed so far; its events grow,
    which is a \<open>sublocale\<close> of \<open>growing_system\<close>.
  \<^item> \<open>Publication_System\<close>, \<open>Publication_Theorems\<close>, \<open>Publication_Ready\<close>, \<open>Publication_Examples\<close>:
    the whole recent side as a step relation, its invariant, the interpretation of
    \<open>guarded_pointer\<close> on the channel, the theorems that span the components, and one concrete
    history from the empty database to a current revision, with a replay, on which the theorems
    are applied.

  \<^bold>\<open>Bounds.\<close> No fuel is used: every loop of the modelled code terminates. The page loop of the
  client descends on the pages left of \<open>MAX_PAGES\<close> and its retries on \<open>MAX_ATTEMPTS_PER_PAGE\<close>,
  the loops over rows and entries on their lists. Integers are those of Python; where a column is
  narrower its bound is a check of the model (\<open>integer_field\<close>, \<open>big_field\<close>, \<open>char_field\<close>). SHA-256
  is on 32-bit words. Instants count seconds since 1970.

  \<^bold>\<open>Parameters.\<close> The server, \<open>json.loads\<close> of a body, the parse of a content type, \<open>unquote\<close>, the
  URL validator of the framework, the iteration order of frozensets and the table of users are
  arguments; nothing is assumed of them beyond what a theorem states. Digests are computed. One
  theorem, that a client result is stored once, assumes that a digest does not collide: no stored
  artifact has the manifest digest of the new result for other pages (\<open>no_collision\<close>).

  \<^bold>\<open>Not modelled.\<close> The parser, collections, facts, reviews and publications of the historical
  datasets, which follow the pattern of the recent side; the read projections, pages and
  presentation; management commands, scripts, settings and logging, which are input and output
  around the modelled services. Deleting a row, which every model refuses, is not an operation.
  Columns that a constraint fixes to one value and columns nothing reads are left out of the
  records. A \<open>numeric\<close> column holds what its validator lets through, so infinities and NaN do not
  occur in the database's arithmetic.
\<close>

end
